(* ===== verification/Vigil_Prelude.thy ===== *)
theory Vigil_Prelude
  imports Complex_Main "HOL-Library.Char_ord"
begin

text \<open>
  The prelude of the Vigil Core development: the type names the component theories
  share, the JavaScript primitives the source relies on (truthiness of strings,
  \<open>Math.round\<close>, \<open>Math.trunc\<close>, number-to-string conversion, \<open>String.includes\<close>), the
  collections of facts the proofs are driven by, a generic reachability locale for
  the state machines of the service layer, and the list lemmas several components
  use.

  JavaScript numbers that the source keeps integral (milliseconds, counts, status
  codes, intervals) are \<open>int\<close>; a \<open>Date\<close> is its \<open>getTime()\<close> in milliseconds; \<open>null\<close>
  and \<open>undefined\<close> are \<open>None\<close>.
\<close>

section \<open>Collections\<close>

named_theorems vigil_defs "definitions the component proofs unfold"
named_theorems frame "fields an operation leaves alone"

section \<open>Names of the model\<close>

type_synonym millis = int
type_synonym date = millis
type_synonym 'a result = "string + 'a"

text \<open>
  A JavaScript value as the source stores it in a \<open>jsonb\<close> column: an object is its
  list of own entries in insertion order, an entry may be \<open>undefined\<close> (\<open>None\<close>).
\<close>

datatype json =
    JNull
  | JBool bool
  | JNum int
  | JStr string
  | JArr "json list"
  | JObj "(string \<times> json option) list"

section \<open>JavaScript primitives\<close>

text \<open>A nullable string is truthy when it is present and not empty.\<close>

definition truthy :: "string option \<Rightarrow> bool" where
  "truthy s \<longleftrightarrow> (case s of None \<Rightarrow> False | Some t \<Rightarrow> t \<noteq> [])"

lemma truthy_simps [simp]:
  "\<not> truthy None"
  "truthy (Some t) \<longleftrightarrow> t \<noteq> []"
  by (simp_all add: truthy_def)

lemma truthyE [elim]:
  assumes "truthy s"
  obtains t where "s = Some t" and "t \<noteq> []"
  using assms by (cases s) auto

text \<open>
  \<open>Math.round (a / b)\<close> for a positive integer divisor: the nearest integer, halves
  towards positive infinity, which is \<open>floor (a / b + 1 / 2)\<close>.
\<close>

definition js_round_div :: "int \<Rightarrow> int \<Rightarrow> int" where
  "js_round_div a b = (2 * a + b) div (2 * b)"

lemma js_round_div_floor:
  assumes "0 < b"
  shows "js_round_div a b = \<lfloor>rat_of_int a / rat_of_int b + 1 / 2\<rfloor>"
proof -
  have "rat_of_int a / rat_of_int b + 1 / 2 = rat_of_int (2 * a + b) / rat_of_int (2 * b)"
    using assms by (simp add: field_simps)
  then show ?thesis
    unfolding js_round_div_def by (simp only: floor_divide_of_int_eq)
qed

lemma js_round_div_1 [simp]: "js_round_div a 1 = a"
  by (simp add: js_round_div_def)

lemma js_round_div_mono: "0 < b \<Longrightarrow> a \<le> a' \<Longrightarrow> js_round_div a b \<le> js_round_div a' b"
  by (simp add: js_round_div_def zdiv_mono1)

lemma js_round_div_nonneg: "0 < b \<Longrightarrow> 0 \<le> a \<Longrightarrow> 0 \<le> js_round_div a b"
  by (simp add: js_round_div_def pos_imp_zdiv_nonneg_iff)

text \<open>Decimal rendering of an integer, as a template literal prints it.\<close>

definition digit_char :: "nat \<Rightarrow> char" where
  "digit_char d = ''0123456789'' ! d"

fun show_nat :: "nat \<Rightarrow> string" where
  "show_nat n = (if n < 10 then [digit_char n] else show_nat (n div 10) @ [digit_char (n mod 10)])"

declare show_nat.simps [simp del]

definition show_int :: "int \<Rightarrow> string" where
  "show_int i = (if i < 0 then CHR ''-'' # show_nat (nat (- i)) else show_nat (nat i))"

lemma digit_char_inj: "d < 10 \<Longrightarrow> e < 10 \<Longrightarrow> digit_char d = digit_char e \<longleftrightarrow> d = e"
  unfolding digit_char_def by (rule nth_eq_iff_index_eq) simp_all

text \<open>\<open>haystack.includes(needle)\<close>.\<close>

fun str_includes :: "string \<Rightarrow> string \<Rightarrow> bool" where
  "str_includes [] needle \<longleftrightarrow> needle = []"
| "str_includes (c # cs) needle \<longleftrightarrow> take (length needle) (c # cs) = needle \<or> str_includes cs needle"

lemma str_includes_iff: "str_includes hay needle \<longleftrightarrow> (\<exists>pre post. hay = pre @ needle @ post)"
proof (induction hay)
  case Nil
  show ?case by auto
next
  case (Cons c cs)
  have "take (length needle) (c # cs) = needle \<longleftrightarrow> (\<exists>post. c # cs = needle @ post)"
    by (metis append_eq_conv_conj)
  moreover have "(\<exists>pre post. c # cs = pre @ needle @ post) \<longleftrightarrow>
      (\<exists>post. c # cs = needle @ post) \<or> (\<exists>pre post. cs = pre @ needle @ post)"
    by (metis append_Cons append_Nil neq_Nil_conv list.inject)
  ultimately show ?case using Cons.IH by simp
qed

section \<open>State machines\<close>

text \<open>
  The service layer is a set of transactions over one database state. A component
  names its start state and its step relation; a property kept by every step holds
  in every reachable state. The locale is the contract between a component's
  operations and the clients that reason about whole runs.
\<close>

inductive reach :: "('s \<Rightarrow> bool) \<Rightarrow> ('s \<Rightarrow> 's \<Rightarrow> bool) \<Rightarrow> 's \<Rightarrow> bool" for init step where
  reach_init: "init s \<Longrightarrow> reach init step s"
| reach_step: "reach init step s \<Longrightarrow> step s t \<Longrightarrow> reach init step t"

locale state_machine =
  fixes init :: "'s \<Rightarrow> bool"
    and step :: "'s \<Rightarrow> 's \<Rightarrow> bool"
    and inv :: "'s \<Rightarrow> bool"
  assumes init_inv: "init s \<Longrightarrow> inv s"
    and step_inv: "inv s \<Longrightarrow> step s t \<Longrightarrow> inv t"
begin

lemma reach_inv: "reach init step s \<Longrightarrow> inv s"
  by (induction rule: reach.induct) (auto intro: init_inv step_inv)

lemma steps_inv: "step\<^sup>*\<^sup>* s t \<Longrightarrow> inv s \<Longrightarrow> inv t"
  by (induction rule: rtranclp_induct) (auto intro: step_inv)

end

section \<open>Lists\<close>

lemma filter_nil_iff: "filter P xs = [] \<longleftrightarrow> (\<forall>x \<in> set xs. \<not> P x)"
  by (induction xs) auto

lemma length_filter_pos: "0 < length (filter P xs) \<longleftrightarrow> (\<exists>x \<in> set xs. P x)"
  by (induction xs) auto

lemma length_filter_all: "length (filter P xs) = length xs \<longleftrightarrow> (\<forall>x \<in> set xs. P x)"
  by (metis filter_True length_filter_less nat_less_le)

lemma sorted_map_last: "sorted (map f xs) \<Longrightarrow> y \<in> set xs \<Longrightarrow> f y \<le> f (last xs)"
  by (induction xs) (auto split: if_splits dest: bspec [OF _ last_in_set])

lemma sorted_map_hd: "sorted (map f xs) \<Longrightarrow> y \<in> set xs \<Longrightarrow> f (hd xs) \<le> f y"
  by (cases xs) auto

lemma last_filter: "xs \<noteq> [] \<Longrightarrow> P (last xs) \<Longrightarrow> last (filter P xs) = last xs"
  by (induction xs rule: rev_induct) auto

lemma sorted_snoc_last:
  "sorted (map f xs) \<Longrightarrow> xs \<noteq> [] \<Longrightarrow> f (last xs) \<le> f x \<Longrightarrow> sorted (map f (xs @ [x]))"
  by (auto simp: sorted_append dest: sorted_map_last)

end
