(* ===== verification/Fair_Ranking.thy ===== *)
theory Fair_Ranking
  imports Vigil_Prelude "HOL-Library.Product_Lexorder"
begin

text \<open>
  The fair drain order. Due monitors and due messages are selected by the same kind of
  statement: rank each organization's rows on their own, take rank by rank, cut at a
  limit (\<open>findDueMonitors\<close> of \<open>src/modules/monitors/service.ts\<close> and \<open>dueRankingSql\<close> of
  \<open>src/modules/notifications/outbox.ts\<close>). What that order promises is proved once here and
  interpreted on both.
\<close>

section \<open>Row numbers\<close>

text \<open>\<open>row_number () over (partition by part order by key)\<close>.\<close>

definition row_numbers :: "('r \<Rightarrow> 'p) \<Rightarrow> ('r \<Rightarrow> 'k::linorder) \<Rightarrow> 'r list \<Rightarrow> (nat \<times> 'r) list" where
  "row_numbers part key rows =
     concat (map (\<lambda>p. enumerate 1 (sort_key key (filter (\<lambda>r. part r = p) rows))) (remdups (map part rows)))"

text \<open>\<open>order by rank, tie\<close> over the ranked rows.\<close>

definition ranking :: "('r \<Rightarrow> 'p) \<Rightarrow> ('r \<Rightarrow> 'k::linorder) \<Rightarrow> ('r \<Rightarrow> 't::linorder) \<Rightarrow> 'r list \<Rightarrow> (nat \<times> 'r) list" where
  "ranking part key tie rows = sort_key (\<lambda>(rank, r). (rank, tie r)) (row_numbers part key rows)"

definition ahead :: "('r \<Rightarrow> 'p) \<Rightarrow> ('r \<Rightarrow> 'k::linorder) \<Rightarrow> 'r list \<Rightarrow> 'r \<Rightarrow> nat" where
  "ahead part key rows r = card {q \<in> set rows. part q = part r \<and> key q < key r}"

lemma take_sorted_mem:
  assumes "sorted (map k xs)" and "x \<in> set xs" and "y \<in> set (take n xs)" and "k x < k y"
  shows "x \<in> set (take n xs)"
proof (rule ccontr)
  assume "x \<notin> set (take n xs)"
  then have "x \<in> set (drop n xs)"
    using assms(2) by (metis Un_iff append_take_drop_id set_append)
  moreover have "sorted (map k (take n xs @ drop n xs))" using assms(1) by simp
  ultimately have "k y \<le> k x"
    using assms(3) unfolding map_append sorted_append by auto
  with assms(4) show False by simp
qed

text \<open>In a strictly sorted list the position of an element is the number of smaller ones.\<close>

lemma strict_sorted_position:
  fixes key :: "'r \<Rightarrow> 'k::linorder"
  assumes "sorted_wrt (<) (map key xs)" and "i < length xs"
  shows "card {y \<in> set xs. key y < key (xs ! i)} = i"
proof -
  have le: "j < i" if "j < length xs" "key (xs ! j) < key (xs ! i)" for j
  proof (rule ccontr)
    assume "\<not> j < i"
    then consider "j = i" | "i < j" by linarith
    then show False
      using that sorted_wrt_nth_less [OF assms(1), of i j] assms(2) by cases auto
  qed
  have "y \<in> set (take i xs) \<longleftrightarrow> y \<in> set xs \<and> key y < key (xs ! i)" for y
  proof
    assume "y \<in> set (take i xs)"
    then obtain j where "j < i" "y = xs ! j" by (auto simp: in_set_conv_nth)
    then show "y \<in> set xs \<and> key y < key (xs ! i)"
      using assms(2) sorted_wrt_nth_less [OF assms(1), of j i] by simp
  next
    assume "y \<in> set xs \<and> key y < key (xs ! i)"
    then obtain j where "j < length xs" "y = xs ! j" "key (xs ! j) < key (xs ! i)"
      by (auto simp: in_set_conv_nth)
    then show "y \<in> set (take i xs)"
      using le [of j] assms(2) by (auto simp: in_set_conv_nth)
  qed
  then have "{y \<in> set xs. key y < key (xs ! i)} = set (take i xs)" by auto
  moreover have "distinct xs"
    using assms(1) by (metis distinct_map strict_sorted_iff)
  ultimately show ?thesis using assms(2) by (simp add: distinct_card)
qed

lemma row_numbers_iff:
  assumes "distinct (map key rows)"
  shows "(n, r) \<in> set (row_numbers part key rows) \<longleftrightarrow> r \<in> set rows \<and> n = Suc (ahead part key rows r)"
proof -
  have enum: "(n, r) \<in> set (enumerate 1 (sort_key key (filter (\<lambda>q. part q = p) rows))) \<longleftrightarrow>
      r \<in> set rows \<and> part r = p \<and> n = Suc (ahead part key rows r)" for p
  proof -
    let ?xs = "sort_key key (filter (\<lambda>q. part q = p) rows)"
    have st: "sorted_wrt (<) (map key ?xs)"
      using assms by (simp add: strict_sorted_iff distinct_map inj_on_def)
    have pos: "ahead part key rows (?xs ! i) = i" if "i < length ?xs" for i
    proof -
      have "part (?xs ! i) = p" using that nth_mem [OF that] by simp
      then have "{q \<in> set rows. part q = part (?xs ! i) \<and> key q < key (?xs ! i)} =
          {y \<in> set ?xs. key y < key (?xs ! i)}" by auto
      then show ?thesis unfolding ahead_def using strict_sorted_position [OF st that] by simp
    qed
    show ?thesis
    proof
      assume "(n, r) \<in> set (enumerate 1 ?xs)"
      then have "1 \<le> n" "n - 1 < length ?xs" "?xs ! (n - 1) = r" by (auto simp: in_set_enumerate_eq)
      then show "r \<in> set rows \<and> part r = p \<and> n = Suc (ahead part key rows r)"
        using pos [of "n - 1"] nth_mem [of "n - 1" ?xs] by auto
    next
      assume "r \<in> set rows \<and> part r = p \<and> n = Suc (ahead part key rows r)"
      then have "r \<in> set ?xs" and n: "n = Suc (ahead part key rows r)" by auto
      then obtain i where i: "i < length ?xs" "?xs ! i = r" by (metis in_set_conv_nth)
      then show "(n, r) \<in> set (enumerate 1 ?xs)"
        using pos [OF i(1)] n by (simp add: in_set_enumerate_eq)
    qed
  qed
  show ?thesis unfolding row_numbers_def using enum by (auto simp flip: One_nat_def)
qed

lemma row_numbers_distinct:
  assumes "distinct rows"
  shows "distinct (row_numbers part key rows)"
proof -
  define grp where "grp = (\<lambda>p. enumerate 1 (sort_key key (filter (\<lambda>r. part r = p) rows)))"
  have mem: "part r = p \<and> r \<in> set rows" if "(n, r) \<in> set (grp p)" for n r p
  proof -
    have "r \<in> set (map snd (grp p))" using that by force
    then show ?thesis by (simp add: grp_def)
  qed
  have "inj_on grp (set (remdups (map part rows)))"
  proof (rule inj_onI)
    fix p q assume "p \<in> set (remdups (map part rows))" "grp p = grp q"
    then obtain r where "part r = p" "r \<in> set (map snd (grp p))" by (auto simp: grp_def)
    then show "p = q" using \<open>grp p = grp q\<close> mem [of _ r q] by auto
  qed
  then have 1: "distinct (map grp (remdups (map part rows)))" by (simp add: distinct_map)
  have 2: "distinct ys" if "ys \<in> set (map grp (remdups (map part rows)))" for ys
    using that assms unfolding grp_def by auto
  have 3: "set ys \<inter> set zs = {}"
    if yz: "ys \<in> set (map grp (remdups (map part rows)))" "zs \<in> set (map grp (remdups (map part rows)))" "ys \<noteq> zs" for ys zs
  proof -
    obtain p q where "ys = grp p" "zs = grp q" using yz by auto
    moreover from this have "p \<noteq> q" using yz(3) by auto
    ultimately show ?thesis using mem [of _ _ p] mem [of _ _ q] by (metis disjoint_iff surj_pair)
  qed
  have "distinct (concat (map grp (remdups (map part rows))))" by (rule distinct_concat [OF 1 2 3])
  then show ?thesis by (simp add: row_numbers_def grp_def)
qed

text \<open>The first row of an organization has nobody ahead of it.\<close>

lemma first_of_tenant:
  assumes "x \<in> set rows"
  obtains y where "y \<in> set rows" and "part y = part x" and "ahead part key rows y = 0"
    and "\<And>z. z \<in> set rows \<Longrightarrow> part z = part x \<Longrightarrow> key y \<le> key z"
proof -
  let ?S = "{z \<in> set rows. part z = part x}"
  have "finite ?S" "?S \<noteq> {}" using assms by auto
  then obtain y where "y \<in> ?S" "\<And>z. z \<in> ?S \<Longrightarrow> key y \<le> key z"
    by (metis (no_types, lifting) arg_min_least arg_min_if_finite(1))
  then show ?thesis
    by (intro that [of y]) (auto simp: ahead_def card_eq_0_iff simp flip: not_less)
qed


section \<open>What the order promises\<close>

text \<open>
  The contract: the key of a row tells rows apart, so that within an organization
  positions are unambiguous.
\<close>

locale fair_ranking =
  fixes part :: "'r \<Rightarrow> 'p"
    and key :: "'r \<Rightarrow> 'k::linorder"
    and tie :: "'r \<Rightarrow> 't::linorder"
    and ident :: "'r \<Rightarrow> 'i"
  assumes key_ident: "key a = key b \<Longrightarrow> ident a = ident b"
begin

lemma keys_distinct: "distinct (map ident rows) \<Longrightarrow> distinct (map key rows)"
  by (auto simp: distinct_map inj_on_def dest: key_ident)

lemma ranking_iff:
  assumes "distinct (map ident rows)"
  shows "(n, r) \<in> set (ranking part key tie rows) \<longleftrightarrow> r \<in> set rows \<and> n = Suc (ahead part key rows r)"
  unfolding ranking_def using row_numbers_iff [OF keys_distinct [OF assms]] by simp

lemma ranking_sorted: "sorted (map (\<lambda>(rank, r). (rank, tie r)) (ranking part key tie rows))"
  by (simp add: ranking_def)

lemma ranking_distinct: "distinct (map ident rows) \<Longrightarrow> distinct (ranking part key tie rows)"
  using row_numbers_distinct [of rows] by (simp add: ranking_def distinct_map)

lemma by_ident: "distinct (map ident rows) \<Longrightarrow> a \<in> set rows \<Longrightarrow> b \<in> set rows \<Longrightarrow> ident a = ident b \<Longrightarrow> a = b"
  by (meson distinct_map inj_onD)

lemma selected_iff:
  assumes "distinct (map ident rows)" and "r \<in> set rows"
  shows "ident r \<in> ident ` snd ` set (take limit (ranking part key tie rows)) \<longleftrightarrow>
    (Suc (ahead part key rows r), r) \<in> set (take limit (ranking part key tie rows))"
proof
  assume "ident r \<in> ident ` snd ` set (take limit (ranking part key tie rows))"
  then obtain n q where q: "(n, q) \<in> set (take limit (ranking part key tie rows))" "ident q = ident r" by force
  then have "(n, q) \<in> set (ranking part key tie rows)" by (meson in_set_takeD)
  then have "q \<in> set rows" "n = Suc (ahead part key rows q)" by (simp_all add: ranking_iff [OF assms(1)])
  then show "(Suc (ahead part key rows r), r) \<in> set (take limit (ranking part key tie rows))"
    using q assms by_ident [OF assms(1), of q r] by auto
qed force

lemma fair:
  assumes "distinct (map ident rows)" and "x \<in> set rows" and "y \<in> set rows"
    and "ahead part key rows x < ahead part key rows y"
    and "ident y \<in> ident ` snd ` set (take limit (ranking part key tie rows))"
  shows "ident x \<in> ident ` snd ` set (take limit (ranking part key tie rows))"
  using take_sorted_mem [OF ranking_sorted, of "(Suc (ahead part key rows x), x)" rows
      "(Suc (ahead part key rows y), y)" limit] assms
  by (simp add: selected_iff ranking_iff)

lemma starves_nobody:
  assumes dist: "distinct (map ident rows)" and room: "card (part ` set rows) \<le> limit" and x: "x \<in> set rows"
  shows "\<exists>y \<in> set rows. part y = part x \<and> (\<forall>z \<in> set rows. part z = part x \<longrightarrow> key y \<le> key z) \<and>
    ident y \<in> ident ` snd ` set (take limit (ranking part key tie rows))"
proof -
  let ?top = "take limit (ranking part key tie rows)"
  obtain y where y: "y \<in> set rows" "part y = part x" "ahead part key rows y = 0"
      "\<And>z. z \<in> set rows \<Longrightarrow> part z = part x \<Longrightarrow> key y \<le> key z"
    using first_of_tenant [OF x, of part key] by blast
  have "(Suc 0, y) \<in> set ?top"
  proof (rule ccontr)
    assume out: "(Suc 0, y) \<notin> set ?top"
    have ranked: "(Suc 0, y) \<in> set (ranking part key tie rows)" using y ranking_iff [OF dist] by simp
    have first: "m \<in> set rows \<and> n = Suc 0 \<and> ahead part key rows m = 0" if nm: "(n, m) \<in> set ?top" for n m
    proof -
      have "(n, m) \<in> set (ranking part key tie rows)" using nm by (meson in_set_takeD)
      then have n: "m \<in> set rows" "n = Suc (ahead part key rows m)" by (simp_all add: ranking_iff [OF dist])
      have "\<not> (Suc 0, tie y) < (n, tie m)"
        using take_sorted_mem [OF ranking_sorted ranked nm] out by auto
      with n show ?thesis by auto
    qed
    have same: "m = q" if "m \<in> set rows" "q \<in> set rows" "ahead part key rows m = 0" "ahead part key rows q = 0"
        "part m = part q" for m q
    proof -
      have "\<not> key m < key q" "\<not> key q < key m" using that by (auto simp: ahead_def card_eq_0_iff)
      then have "key m = key q" by (meson not_less order.antisym)
      then show ?thesis using that by_ident [OF dist] key_ident by blast
    qed
    have inj: "inj_on (part \<circ> snd) (set ?top)"
    proof (rule inj_onI)
      fix a b assume "a \<in> set ?top" "b \<in> set ?top" "(part \<circ> snd) a = (part \<circ> snd) b"
      then show "a = b"
        using first [of "fst a" "snd a"] first [of "fst b" "snd b"] same [of "snd a" "snd b"]
        by (simp add: prod_eq_iff)
    qed
    have "part (snd a) \<noteq> part y" if "a \<in> set ?top" for a
    proof
      assume "part (snd a) = part y"
      then have "a = (Suc 0, y)"
        using first [of "fst a" "snd a"] same [of "snd a" y] y that by (simp add: prod_eq_iff)
      with out that show False by simp
    qed
    then have "part y \<notin> (part \<circ> snd) ` set ?top" by fastforce
    moreover have "(part \<circ> snd) ` set ?top \<subseteq> part ` set rows" using first by force
    moreover have "part y \<in> part ` set rows" using y(1) by (rule imageI)
    ultimately have "card ((part \<circ> snd) ` set ?top) < card (part ` set rows)"
      by (metis finite_imageI List.finite_set psubsetI psubset_card_mono)
    moreover have "card ((part \<circ> snd) ` set ?top) = length ?top"
      using card_image [OF inj] distinct_card [OF distinct_take [OF ranking_distinct [OF dist]]] by simp
    ultimately have "length ?top < limit" using room by simp
    then have "?top = ranking part key tie rows" by (simp add: min_def split: if_splits)
    with out ranked show False by simp
  qed
  then show ?thesis using selected_iff [OF dist y(1)] y by auto
qed

end

end
