(* ===== verification/Outbox.thy ===== *)
theory Outbox
  imports Fair_Ranking "HOL-Library.List_Lexorder"
begin

text \<open>
  The transactional outbox, \<open>src/modules/notifications/outbox.ts\<close>: one row per logical
  notification, one evidence row per attempt, leases, fences and the retry schedule.
  \<open>now()\<close> is an argument of every statement, the rows locked by other transactions
  (\<open>skip locked\<close>) are a predicate on keys, and \<open>Math.random\<close> is an argument of the backoff.
  Keys are generated by a counter.

  \<open>Outbox_Machine\<close> proves what any number of workers can do to it.
\<close>

section \<open>Rows\<close>

datatype notification_state = Ob_queued | Ob_sending | Ob_delivered | Ob_failed | Ob_expired | Ob_dead_letter

datatype attempt_outcome = At_claimed | At_delivered | At_retryable | At_permanent | At_unknown

datatype notification_channel = Ch_email | Ch_webhook | Ch_channel | Ch_sms | Ch_voice

record outbox_message =
  om_organizationId :: string
  om_idempotencyKey :: string
  om_channel :: notification_channel
  om_channelId :: "string option"
  om_provider :: "string option"
  om_event :: "string option"
  om_destination :: string
  om_payload :: json
  om_replayOf :: "nat option"

record outbox_row =
  ob_id :: nat
  ob_organizationId :: string
  ob_idempotencyKey :: string
  ob_channel :: notification_channel
  ob_channelId :: "string option"
  ob_provider :: "string option"
  ob_event :: "string option"
  ob_destination :: string
  ob_payload :: json
  ob_state :: notification_state
  ob_attempts :: nat
  ob_nextAttemptAt :: date
  ob_leasedUntil :: "date option"
  ob_fence :: nat
  ob_lastClaimedAt :: "date option"
  ob_expiresAt :: "date option"
  ob_replayOf :: "nat option"
  ob_providerMessageId :: "string option"
  ob_lastError :: "string option"
  ob_deliveredAt :: "date option"
  ob_createdAt :: date

record attempt_row =
  at_outboxId :: nat
  at_organizationId :: string
  at_attempt :: nat
  at_fence :: nat
  at_outcome :: attempt_outcome
  at_httpStatus :: "int option"
  at_error :: "string option"
  at_providerMessageId :: "string option"
  at_retryAfterMs :: "int option"
  at_nextAttemptAt :: "date option"
  at_startedAt :: date
  at_finishedAt :: "date option"

record outbox =
  bx_rows :: "outbox_row list"
  bx_attempts :: "attempt_row list"
  bx_nextId :: nat

datatype delivery_outcome =
    Delivered "string option" "int option"
  | Retryable string "int option" "int option"
  | Permanent string "int option"
  | Unknown string "int option"

definition isRetryable :: "delivery_outcome \<Rightarrow> bool" where
  "isRetryable outcome \<longleftrightarrow>
     (case outcome of Retryable _ _ _ \<Rightarrow> True | Unknown _ _ \<Rightarrow> True | Delivered _ _ \<Rightarrow> False | Permanent _ _ \<Rightarrow> False)"

definition outcome_error :: "delivery_outcome \<Rightarrow> string option" where
  "outcome_error outcome =
     (case outcome of Delivered _ _ \<Rightarrow> None | Retryable e _ _ \<Rightarrow> Some e | Permanent e _ \<Rightarrow> Some e | Unknown e _ \<Rightarrow> Some e)"

definition outcome_status :: "delivery_outcome \<Rightarrow> int option" where
  "outcome_status outcome =
     (case outcome of Delivered _ h \<Rightarrow> h | Retryable _ _ h \<Rightarrow> h | Permanent _ h \<Rightarrow> h | Unknown _ h \<Rightarrow> h)"

section \<open>The retry schedule\<close>

definition BACKOFF_CEILING_MS :: int where
  "BACKOFF_CEILING_MS = 1800000"

text \<open>\<open>random\<close> is a number of the half-open unit interval, taken exactly rather than as a double.\<close>

definition backoffMs :: "nat \<Rightarrow> rat \<Rightarrow> millis" where
  "backoffMs attempts random =
     (let base = min (2 ^ attempts * 1000) BACKOFF_CEILING_MS
      in \<lfloor>of_int base * (3 / 4 + random * (1 / 2)) + 1 / 2\<rfloor>)"

definition backoffSchedule :: "nat \<Rightarrow> millis list" where
  "backoffSchedule n = map (\<lambda>i. min (2 ^ (i + 1) * 1000) BACKOFF_CEILING_MS) [0..<n]"

record retry_policy =
  rp_maxAttempts :: nat
  rp_horizonHours :: int

definition RETRY_AFTER_CAP_MS :: int where
  "RETRY_AFTER_CAP_MS = 3600000"

definition LEASE_MS :: int where
  "LEASE_MS = 600000"

section \<open>Enqueueing\<close>

definition row_of :: "int \<Rightarrow> date \<Rightarrow> nat \<Rightarrow> outbox_message \<Rightarrow> outbox_row" where
  "row_of horizonHours now i message =
     \<lparr>ob_id = i, ob_organizationId = om_organizationId message, ob_idempotencyKey = om_idempotencyKey message,
      ob_channel = om_channel message, ob_channelId = om_channelId message, ob_provider = om_provider message,
      ob_event = om_event message, ob_destination = om_destination message, ob_payload = om_payload message,
      ob_state = Ob_queued, ob_attempts = 0, ob_nextAttemptAt = now, ob_leasedUntil = None, ob_fence = 0,
      ob_lastClaimedAt = None, ob_expiresAt = Some (now + horizonHours * 3600000), ob_replayOf = om_replayOf message,
      ob_providerMessageId = None, ob_lastError = None, ob_deliveredAt = None, ob_createdAt = now\<rparr>"

definition enqueue :: "int \<Rightarrow> date \<Rightarrow> outbox_message \<Rightarrow> outbox \<Rightarrow> outbox \<times> outbox_row option" where
  "enqueue horizonHours now message b =
     (if om_idempotencyKey message \<in> ob_idempotencyKey ` set (bx_rows b) then (b, None)
      else (let r = row_of horizonHours now (bx_nextId b) message
            in (b\<lparr>bx_rows := bx_rows b @ [r], bx_nextId := Suc (bx_nextId b)\<rparr>, Some r)))"

text \<open>
  One statement for the whole batch. \<open>ON CONFLICT DO NOTHING\<close> also drops the later of two
  equal keys within it.
\<close>

definition enqueueMany :: "int \<Rightarrow> date \<Rightarrow> outbox_message list \<Rightarrow> outbox \<Rightarrow> outbox \<times> nat" where
  "enqueueMany horizonHours now messages b =
     fold (\<lambda>message (b, n).
        case enqueue horizonHours now message b of (b', None) \<Rightarrow> (b', n) | (b', Some _) \<Rightarrow> (b', Suc n)) messages (b, 0)"

section \<open>Claiming\<close>

definition deliverable :: "date \<Rightarrow> outbox_row \<Rightarrow> bool" where
  "deliverable now r \<longleftrightarrow>
     ob_nextAttemptAt r \<le> now \<and>
     (case ob_expiresAt r of None \<Rightarrow> True | Some t \<Rightarrow> now < t) \<and>
     (ob_state r = Ob_queued \<or>
      ob_state r = Ob_sending \<and> (case ob_leasedUntil r of None \<Rightarrow> True | Some t \<Rightarrow> t \<le> now))"

definition in_scope :: "string option \<Rightarrow> string \<Rightarrow> bool" where
  "in_scope organizationId org \<longleftrightarrow> (case organizationId of None \<Rightarrow> True | Some o' \<Rightarrow> o' = [] \<or> org = o')"

definition drain_key :: "outbox_row \<Rightarrow> date \<times> nat" where
  "drain_key r = (ob_nextAttemptAt r, ob_id r)"

definition drain_tie :: "outbox_row \<Rightarrow> date \<times> string" where
  "drain_tie r = (ob_nextAttemptAt r, ob_organizationId r)"

definition due_rows :: "date \<Rightarrow> string option \<Rightarrow> outbox \<Rightarrow> outbox_row list" where
  "due_rows now organizationId b =
     filter (\<lambda>r. deliverable now r \<and> in_scope organizationId (ob_organizationId r)) (bx_rows b)"

definition dueRankingSql :: "nat \<Rightarrow> date \<Rightarrow> string option \<Rightarrow> outbox \<Rightarrow> nat list" where
  "dueRankingSql limit now organizationId b =
     map (\<lambda>(_, r). ob_id r) (take limit (ranking ob_organizationId drain_key drain_tie (due_rows now organizationId b)))"

record claimed_row =
  cl_row :: outbox_row
  cl_fence :: nat
  cl_attempt :: nat

text \<open>\<open>coalesce (max (a.attempt), 0)\<close> over the evidence of a row.\<close>

definition max_attempt :: "attempt_row list \<Rightarrow> nat \<Rightarrow> nat" where
  "max_attempt attempts i = foldr max (map at_attempt (filter (\<lambda>a. at_outboxId a = i) attempts)) 0"

definition claim_row :: "date \<Rightarrow> attempt_row list \<Rightarrow> outbox_row \<Rightarrow> outbox_row" where
  "claim_row now attempts r =
     r\<lparr>ob_state := Ob_sending, ob_fence := ob_fence r + 1,
       ob_attempts := max (ob_attempts r + 1) (max_attempt attempts (ob_id r) + 1),
       ob_leasedUntil := Some (now + LEASE_MS), ob_lastClaimedAt := Some now\<rparr>"

definition attempt_of :: "date \<Rightarrow> outbox_row \<Rightarrow> attempt_row" where
  "attempt_of now r =
     \<lparr>at_outboxId = ob_id r, at_organizationId = ob_organizationId r, at_attempt = ob_attempts r, at_fence = ob_fence r,
      at_outcome = At_claimed, at_httpStatus = None, at_error = None, at_providerMessageId = None, at_retryAfterMs = None,
      at_nextAttemptAt = None, at_startedAt = now, at_finishedAt = None\<rparr>"

definition claim_of :: "outbox_row \<Rightarrow> claimed_row" where
  "claim_of r = \<lparr>cl_row = r, cl_fence = ob_fence r, cl_attempt = ob_attempts r\<rparr>"

text \<open>Locking the rows the ranking chose, re-checking them under the lock, and claiming them.\<close>

definition lock_and_claim :: "date \<Rightarrow> (nat \<Rightarrow> bool) \<Rightarrow> nat list \<Rightarrow> outbox \<Rightarrow> outbox \<times> claimed_row list" where
  "lock_and_claim now locked ids b =
     (let mine = (\<lambda>r. ob_id r \<in> set ids \<and> \<not> locked (ob_id r) \<and> deliverable now r);
          rows = map (claim_row now (bx_attempts b)) (filter mine (bx_rows b))
      in (b\<lparr>bx_rows := map (\<lambda>r. if mine r then claim_row now (bx_attempts b) r else r) (bx_rows b),
            bx_attempts := bx_attempts b @ map (attempt_of now) rows\<rparr>,
          map claim_of rows))"

text \<open>The ranking reads \<open>seen\<close>; what it locks is the table \<open>b\<close> as it is a statement later.\<close>

definition claimDue ::
  "nat \<Rightarrow> date \<Rightarrow> (nat \<Rightarrow> bool) \<Rightarrow> string option \<Rightarrow> outbox \<Rightarrow> outbox \<Rightarrow> outbox \<times> claimed_row list" where
  "claimDue limit now locked organizationId seen b =
     (let due = dueRankingSql limit now organizationId seen
      in if length due = 0 then (b, []) else lock_and_claim now locked due b)"

definition owned :: "nat \<Rightarrow> nat \<Rightarrow> outbox_row \<Rightarrow> bool" where
  "owned i fence r \<longleftrightarrow> ob_id r = i \<and> ob_fence r = fence"

definition renewLease :: "date \<Rightarrow> nat \<Rightarrow> nat \<Rightarrow> outbox \<Rightarrow> outbox \<times> bool" where
  "renewLease now rowId fence b =
     (b\<lparr>bx_rows := map (\<lambda>r. if owned rowId fence r then r\<lparr>ob_leasedUntil := Some (now + LEASE_MS)\<rparr> else r) (bx_rows b)\<rparr>,
      0 < length (filter (owned rowId fence) (bx_rows b)))"

section \<open>Recording an outcome\<close>

record recorded_outcome =
  rd_committed :: bool
  rd_state :: notification_state
  rd_attempts :: nat
  rd_nextAttemptAt :: "date option"

definition attempt_outcome_of :: "delivery_outcome \<Rightarrow> attempt_outcome" where
  "attempt_outcome_of outcome =
     (case outcome of Delivered _ _ \<Rightarrow> At_delivered | Permanent _ _ \<Rightarrow> At_permanent
      | Unknown _ _ \<Rightarrow> At_unknown | Retryable _ _ _ \<Rightarrow> At_retryable)"

text \<open>The proposed state; \<open>None\<close> is \<open>retry\<close>, which the database decides.\<close>

definition proposed_state :: "nat \<Rightarrow> nat \<Rightarrow> delivery_outcome \<Rightarrow> notification_state option" where
  "proposed_state maxAttempts attempts outcome =
     (case outcome of
        Delivered _ _ \<Rightarrow> Some Ob_delivered
      | Permanent _ _ \<Rightarrow> Some Ob_failed
      | _ \<Rightarrow> if maxAttempts \<le> attempts then Some Ob_dead_letter else None)"

definition retry_wait :: "nat \<Rightarrow> rat \<Rightarrow> delivery_outcome \<Rightarrow> millis" where
  "retry_wait attempts random outcome =
     max (backoffMs attempts random)
       (case outcome of
          Retryable _ retryAfterMs _ \<Rightarrow> min (case retryAfterMs of None \<Rightarrow> 0 | Some a \<Rightarrow> a) RETRY_AFTER_CAP_MS
        | _ \<Rightarrow> 0)"

definition over_horizon :: "date \<Rightarrow> millis \<Rightarrow> outbox_row \<Rightarrow> bool" where
  "over_horizon now wait r \<longleftrightarrow> (case ob_expiresAt r of None \<Rightarrow> False | Some t \<Rightarrow> t < now + wait)"

definition outcome_row :: "date \<Rightarrow> nat \<Rightarrow> nat \<Rightarrow> rat \<Rightarrow> delivery_outcome \<Rightarrow> outbox_row \<Rightarrow> outbox_row" where
  "outcome_row now maxAttempts attempts random outcome r =
     (let proposed = proposed_state maxAttempts attempts outcome;
          wait = retry_wait attempts random outcome;
          r1 = r\<lparr>ob_state := (case proposed of Some s \<Rightarrow> s
                                | None \<Rightarrow> if over_horizon now wait r then Ob_expired else Ob_queued),
                ob_leasedUntil := None\<rparr>;
          r2 = (case outcome of
                  Delivered m _ \<Rightarrow> r1\<lparr>ob_deliveredAt := Some now, ob_providerMessageId := m\<rparr>
                | _ \<Rightarrow> r1\<lparr>ob_lastError := map_option (take 2000) (outcome_error outcome)\<rparr>)
      in case proposed of
           Some _ \<Rightarrow> r2
         | None \<Rightarrow> r2\<lparr>ob_nextAttemptAt := (if over_horizon now wait r then ob_nextAttemptAt r else now + wait)\<rparr>)"

definition attempt_is :: "nat \<Rightarrow> nat \<Rightarrow> nat \<Rightarrow> attempt_row \<Rightarrow> bool" where
  "attempt_is i attempt fence a \<longleftrightarrow> at_outboxId a = i \<and> at_attempt a = attempt \<and> at_fence a = fence"

text \<open>A number that is \<open>undefined\<close> or zero is falsy and leaves the column alone.\<close>

definition truthy_num :: "int option \<Rightarrow> bool" where
  "truthy_num n \<longleftrightarrow> (case n of None \<Rightarrow> False | Some v \<Rightarrow> v \<noteq> 0)"

definition close_superseded :: "date \<Rightarrow> attempt_row \<Rightarrow> attempt_row" where
  "close_superseded now a =
     a\<lparr>at_outcome := At_unknown, at_finishedAt := Some now,
       at_error := Some ''superseded: another worker reclaimed this delivery''\<rparr>"

definition close_attempt :: "date \<Rightarrow> delivery_outcome \<Rightarrow> outbox_row \<Rightarrow> attempt_row \<Rightarrow> attempt_row" where
  "close_attempt now outcome updated a =
     (let a1 = a\<lparr>at_outcome := attempt_outcome_of outcome, at_finishedAt := Some now\<rparr>;
          a2 = (case outcome of Delivered m _ \<Rightarrow> a1\<lparr>at_providerMessageId := m\<rparr>
                | _ \<Rightarrow> a1\<lparr>at_error := map_option (take 2000) (outcome_error outcome)\<rparr>);
          a3 = (if truthy_num (outcome_status outcome) then a2\<lparr>at_httpStatus := outcome_status outcome\<rparr> else a2);
          a4 = (case outcome of
                  Retryable _ ra _ \<Rightarrow> if truthy_num ra then a3\<lparr>at_retryAfterMs := ra\<rparr> else a3
                | _ \<Rightarrow> a3)
      in if ob_state updated = Ob_queued then a4\<lparr>at_nextAttemptAt := Some (ob_nextAttemptAt updated)\<rparr> else a4)"

definition recordOutcome ::
  "retry_policy \<Rightarrow> date \<Rightarrow> claimed_row \<Rightarrow> delivery_outcome \<Rightarrow> rat \<Rightarrow> outbox \<Rightarrow> outbox \<times> recorded_outcome" where
  "recordOutcome policy now claimed outcome random b =
     (let i = ob_id (cl_row claimed); fence = cl_fence claimed; attempts = cl_attempt claimed;
          f = outcome_row now (rp_maxAttempts policy) attempts random outcome
      in case List.find (owned i fence) (bx_rows b) of
           None \<Rightarrow>
             (b\<lparr>bx_attempts := map (\<lambda>a. if attempt_is i attempts fence a \<and> at_outcome a = At_claimed
                                         then close_superseded now a else a) (bx_attempts b)\<rparr>,
              \<lparr>rd_committed = False, rd_state = Ob_queued, rd_attempts = attempts, rd_nextAttemptAt = None\<rparr>)
         | Some row \<Rightarrow>
             (let updated = f row
              in (b\<lparr>bx_rows := map (\<lambda>r. if owned i fence r then f r else r) (bx_rows b),
                    bx_attempts := map (\<lambda>a. if attempt_is i attempts fence a then close_attempt now outcome updated a else a)
                      (bx_attempts b)\<rparr>,
                  \<lparr>rd_committed = True, rd_state = ob_state updated, rd_attempts = attempts,
                   rd_nextAttemptAt = (if ob_state updated = Ob_queued then Some (ob_nextAttemptAt updated) else None)\<rparr>)))"

section \<open>Deferring, expiring, sweeping, pruning\<close>

definition deferRow :: "date \<Rightarrow> claimed_row \<Rightarrow> int \<Rightarrow> outbox \<Rightarrow> outbox" where
  "deferRow now claimed delaySeconds b =
     (let i = ob_id (cl_row claimed);
          withdrawn = (\<lambda>a. attempt_is i (cl_attempt claimed) (cl_fence claimed) a \<and> at_outcome a = At_claimed);
          f = (\<lambda>r. r\<lparr>ob_state := Ob_queued, ob_nextAttemptAt := now + delaySeconds * 1000, ob_leasedUntil := None,
                      ob_attempts := (if \<exists>a \<in> set (bx_attempts b). withdrawn a then ob_attempts r - 1 else ob_attempts r)\<rparr>)
      in b\<lparr>bx_attempts := filter (\<lambda>a. \<not> withdrawn a) (bx_attempts b),
           bx_rows := map (\<lambda>r. if owned i (cl_fence claimed) r then f r else r) (bx_rows b)\<rparr>)"

definition overdue :: "date \<Rightarrow> outbox_row \<Rightarrow> bool" where
  "overdue now r \<longleftrightarrow>
     (case ob_expiresAt r of None \<Rightarrow> False | Some t \<Rightarrow> t \<le> now) \<and>
     (ob_state r = Ob_queued \<or>
      ob_state r = Ob_sending \<and> (case ob_leasedUntil r of None \<Rightarrow> False | Some t \<Rightarrow> t \<le> now))"

definition expire_row :: "outbox_row \<Rightarrow> outbox_row" where
  "expire_row r = r\<lparr>ob_state := Ob_expired, ob_leasedUntil := None, ob_fence := ob_fence r + 1\<rparr>"

definition expireOverdue :: "date \<Rightarrow> string option \<Rightarrow> nat \<Rightarrow> outbox \<Rightarrow> outbox \<times> nat" where
  "expireOverdue now organizationId limit b =
     (let ids = map ob_id (take limit (filter (\<lambda>r. overdue now r \<and> in_scope organizationId (ob_organizationId r)) (bx_rows b)))
      in (b\<lparr>bx_rows := map (\<lambda>r. if ob_id r \<in> set ids then expire_row r else r) (bx_rows b)\<rparr>,
          length (filter (\<lambda>r. ob_id r \<in> set ids) (bx_rows b))))"

definition sweepStaleAttempts :: "date \<Rightarrow> date \<Rightarrow> outbox \<Rightarrow> outbox \<times> nat" where
  "sweepStaleAttempts now olderThan b =
     (let stale = (\<lambda>a. at_outcome a = At_claimed \<and> at_startedAt a < olderThan)
      in (b\<lparr>bx_attempts := map (\<lambda>a. if stale a then a\<lparr>at_outcome := At_unknown, at_finishedAt := Some now,
              at_error := Some ''the worker holding this attempt never reported an outcome''\<rparr> else a) (bx_attempts b)\<rparr>,
          length (filter stale (bx_attempts b))))"

definition pendingFor :: "string \<Rightarrow> outbox \<Rightarrow> outbox_row list" where
  "pendingFor organizationId b =
     filter (\<lambda>r. ob_organizationId r = organizationId \<and> (ob_state r = Ob_queued \<or> ob_state r = Ob_sending)) (bx_rows b)"

definition failedFor :: "string \<Rightarrow> date \<Rightarrow> outbox \<Rightarrow> outbox_row list" where
  "failedFor organizationId since b =
     filter (\<lambda>r. ob_organizationId r = organizationId \<and> ob_state r = Ob_failed \<and> since \<le> ob_createdAt r) (bx_rows b)"

definition TERMINAL_STATES :: "notification_state list" where
  "TERMINAL_STATES = [Ob_delivered, Ob_failed, Ob_expired, Ob_dead_letter]"

record prune_result =
  pr_deliveries :: nat
  pr_attempts :: nat
  pr_more :: bool

definition pruneNotificationHistory :: "date \<Rightarrow> int \<Rightarrow> nat \<Rightarrow> outbox \<Rightarrow> outbox \<times> prune_result" where
  "pruneNotificationHistory now retentionDays limit b =
     (let doomed = take limit (sort_key ob_createdAt
            (filter (\<lambda>r. ob_state r \<in> set TERMINAL_STATES \<and> ob_createdAt r < now - retentionDays * 86400000) (bx_rows b)));
          ids = map ob_id doomed
      in if length ids = 0 then (b, \<lparr>pr_deliveries = 0, pr_attempts = 0, pr_more = False\<rparr>)
         else (b\<lparr>bx_rows := filter (\<lambda>r. ob_id r \<notin> set ids) (bx_rows b),
                 bx_attempts := filter (\<lambda>a. at_outboxId a \<notin> set ids) (bx_attempts b)\<rparr>,
               \<lparr>pr_deliveries = length ids, pr_attempts = length (filter (\<lambda>a. at_outboxId a \<in> set ids) (bx_attempts b)),
                pr_more = (length ids = limit)\<rparr>))"

definition attemptsFor :: "string \<Rightarrow> nat \<Rightarrow> outbox \<Rightarrow> attempt_row list" where
  "attemptsFor organizationId outboxId b =
     sort_key at_attempt (filter (\<lambda>a. at_outboxId a = outboxId \<and> at_organizationId a = organizationId) (bx_attempts b))"

end
