(* ===== verification/Outbox_Machine.thy ===== *)
theory Outbox_Machine
  imports Outbox
begin

text \<open>
  What any number of delivery workers can do to the outbox. The state of the machine is
  the outbox together with the claims workers hold; a worker may report or defer each
  claim once, lose it in a crash, or sit on it while others reclaim the row. The
  invariant is the fencing argument: only the newest claim of a row is current, and a
  row with a current claim is in flight.
\<close>

section \<open>The machine\<close>

type_synonym world = "outbox \<times> claimed_row list"

inductive outbox_step :: "retry_policy \<Rightarrow> world \<Rightarrow> world \<Rightarrow> bool" for policy where
  enqueued: "outbox_step policy (b, h) (fst (enqueue (rp_horizonHours policy) now message b), h)"
| claimed: "lock_and_claim now locked ids b = (b', cs) \<Longrightarrow> outbox_step policy (b, h) (b', h @ cs)"
| renewed: "c \<in> set h \<Longrightarrow> outbox_step policy (b, h) (fst (renewLease now (ob_id (cl_row c)) (cl_fence c) b), h)"
| reported: "c \<in> set h \<Longrightarrow>
    outbox_step policy (b, h) (fst (recordOutcome policy now c outcome random b), remove1 c h)"
| deferred: "c \<in> set h \<Longrightarrow> outbox_step policy (b, h) (deferRow now c delay b, remove1 c h)"
| crashed: "outbox_step policy (b, h) (b, filter kept h)"
| expired: "outbox_step policy (b, h) (fst (expireOverdue now org limit b), h)"
| swept: "outbox_step policy (b, h) (fst (sweepStaleAttempts now olderThan b), h)"
| pruned: "outbox_step policy (b, h) (fst (pruneNotificationHistory now days limit b), h)"

definition nothing_queued :: "world \<Rightarrow> bool" where
  "nothing_queued w \<longleftrightarrow> bx_rows (fst w) = [] \<and> bx_attempts (fst w) = [] \<and> snd w = []"

abbreviation token :: "claimed_row \<Rightarrow> nat \<times> nat" where
  "token c \<equiv> (ob_id (cl_row c), cl_fence c)"

definition rows_ok :: "outbox \<Rightarrow> bool" where
  "rows_ok b \<longleftrightarrow>
     distinct (map ob_id (bx_rows b)) \<and> distinct (map ob_idempotencyKey (bx_rows b)) \<and>
     (\<forall>r \<in> set (bx_rows b). ob_id r < bx_nextId b \<and> ob_expiresAt r \<noteq> None \<and>
        (ob_state r = Ob_sending \<longrightarrow> ob_leasedUntil r \<noteq> None))"

definition evidence_ok :: "outbox \<Rightarrow> bool" where
  "evidence_ok b \<longleftrightarrow> distinct (map (\<lambda>a. (at_outboxId a, at_attempt a)) (bx_attempts b))"

definition fencing :: "world \<Rightarrow> bool" where
  "fencing w \<longleftrightarrow>
     distinct (map token (snd w)) \<and>
     (\<forall>c \<in> set (snd w). ob_id (cl_row c) < bx_nextId (fst w) \<and>
        (\<forall>r \<in> set (bx_rows (fst w)). ob_id r = ob_id (cl_row c) \<longrightarrow>
           cl_fence c \<le> ob_fence r \<and> (cl_fence c = ob_fence r \<longrightarrow> ob_state r = Ob_sending)))"

definition outbox_inv :: "world \<Rightarrow> bool" where
  "outbox_inv w \<longleftrightarrow> rows_ok (fst w) \<and> evidence_ok (fst w) \<and> fencing w"

section \<open>Rows that are rewritten in place\<close>

text \<open>
  Most statements rewrite rows one by one and keep what identifies a row. What such a
  rewriting has to satisfy for the invariant.
\<close>

definition keeps_identity :: "(outbox_row \<Rightarrow> outbox_row) \<Rightarrow> bool" where
  "keeps_identity f \<longleftrightarrow> (\<forall>r. ob_id (f r) = ob_id r \<and> ob_idempotencyKey (f r) = ob_idempotencyKey r \<and>
     ob_expiresAt (f r) = ob_expiresAt r)"

lemma keeps_identityD:
  assumes "keeps_identity f"
  shows "ob_id (f r) = ob_id r" and "ob_idempotencyKey (f r) = ob_idempotencyKey r" and "ob_expiresAt (f r) = ob_expiresAt r"
  using assms by (simp_all add: keeps_identity_def)

lemma rows_ok_map:
  assumes "rows_ok b" and f: "keeps_identity f" and "bx_rows b' = map f (bx_rows b)" and "bx_nextId b' = bx_nextId b"
    and lease: "\<And>r. r \<in> set (bx_rows b) \<Longrightarrow> ob_state (f r) = Ob_sending \<Longrightarrow> ob_leasedUntil (f r) \<noteq> None"
  shows "rows_ok b'"
proof -
  have "map ob_id (bx_rows b') = map ob_id (bx_rows b)"
    and "map ob_idempotencyKey (bx_rows b') = map ob_idempotencyKey (bx_rows b)"
    using assms(3) keeps_identityD [OF f] by simp_all
  moreover have "\<forall>r \<in> set (bx_rows b'). ob_id r < bx_nextId b' \<and> ob_expiresAt r \<noteq> None \<and>
      (ob_state r = Ob_sending \<longrightarrow> ob_leasedUntil r \<noteq> None)"
    using assms(1,3,4) lease keeps_identityD [OF f] unfolding rows_ok_def by auto
  ultimately show ?thesis using assms(1) unfolding rows_ok_def by metis
qed

lemma fencing_map:
  assumes "fencing (b, h)" and f: "keeps_identity f" and "bx_rows b' = map f (bx_rows b)" and "bx_nextId b' = bx_nextId b"
    and "set h' \<subseteq> set h" and "distinct (map token h')"
    and step: "\<And>r c. r \<in> set (bx_rows b) \<Longrightarrow> c \<in> set h' \<Longrightarrow> ob_id r = ob_id (cl_row c) \<Longrightarrow> cl_fence c \<le> ob_fence r \<Longrightarrow>
      (cl_fence c = ob_fence r \<Longrightarrow> ob_state r = Ob_sending) \<Longrightarrow>
      cl_fence c \<le> ob_fence (f r) \<and> (cl_fence c = ob_fence (f r) \<longrightarrow> ob_state (f r) = Ob_sending)"
  shows "fencing (b', h')"
  unfolding fencing_def fst_conv snd_conv
proof (intro conjI ballI assms(6))
  fix c assume c: "c \<in> set h'"
  then show "ob_id (cl_row c) < bx_nextId b'" using assms(1,4,5) by (auto simp: fencing_def)
  fix r' assume "r' \<in> set (bx_rows b')"
  then obtain r where r: "r \<in> set (bx_rows b)" "r' = f r" using assms(3) by auto
  have "ob_id r = ob_id (cl_row c) \<longrightarrow> cl_fence c \<le> ob_fence r \<and> (cl_fence c = ob_fence r \<longrightarrow> ob_state r = Ob_sending)"
    using assms(1,5) c r(1) by (auto simp: fencing_def)
  then show "ob_id r' = ob_id (cl_row c) \<longrightarrow>
      cl_fence c \<le> ob_fence r' \<and> (cl_fence c = ob_fence r' \<longrightarrow> ob_state r' = Ob_sending)"
    using step [OF r(1) c] by (simp add: r(2) keeps_identityD [OF f])
qed

lemma tokens_remove1: "distinct (map token h) \<Longrightarrow> distinct (map token (remove1 c h))"
  by (metis distinct_map distinct_remove1 inj_on_subset set_remove1_subset)

lemma tokens_filter: "distinct (map token h) \<Longrightarrow> distinct (map token (filter P h))"
  by (simp add: distinct_map_filter)

text \<open>Once a claim is given up, nobody else holds its token.\<close>

lemma other_token:
  assumes "distinct (map token h)" and "c \<in> set h" and "c' \<in> set (remove1 c h)"
  shows "token c' \<noteq> token c"
proof -
  obtain xs ys where h: "h = xs @ c # ys" "c \<notin> set xs" using split_list_first [OF assms(2)] by blast
  then have "remove1 c h = xs @ ys" by (simp add: remove1_append)
  then show ?thesis using assms(1,3) h by (auto simp: image_iff)
qed

section \<open>Each statement keeps the invariant\<close>

lemma enqueue_inv:
  assumes "outbox_inv (b, h)"
  shows "outbox_inv (fst (enqueue hours now message b), h)"
proof (cases "om_idempotencyKey message \<in> ob_idempotencyKey ` set (bx_rows b)")
  case True
  then show ?thesis using assms by (simp add: enqueue_def)
next
  case False
  let ?b = "fst (enqueue hours now message b)"
  have rows: "bx_rows ?b = bx_rows b @ [row_of hours now (bx_nextId b) message]" "bx_nextId ?b = Suc (bx_nextId b)"
      "bx_attempts ?b = bx_attempts b"
    using False by (simp_all add: enqueue_def Let_def)
  have "rows_ok ?b"
    using assms False unfolding outbox_inv_def rows_ok_def fst_conv rows
    by (auto simp: row_of_def image_iff)
  moreover have "fencing (?b, h)"
    using assms unfolding outbox_inv_def fencing_def fst_conv snd_conv rows by (auto simp: row_of_def)
  ultimately show ?thesis using assms by (simp add: outbox_inv_def evidence_ok_def rows)
qed

lemma claim_row_sel [simp]:
  "ob_id (claim_row now as r) = ob_id r" "ob_fence (claim_row now as r) = Suc (ob_fence r)"
  "ob_state (claim_row now as r) = Ob_sending" "ob_leasedUntil (claim_row now as r) = Some (now + LEASE_MS)"
  "ob_expiresAt (claim_row now as r) = ob_expiresAt r" "ob_idempotencyKey (claim_row now as r) = ob_idempotencyKey r"
  "ob_organizationId (claim_row now as r) = ob_organizationId r"
  by (simp_all add: claim_row_def)

lemma max_attempt_ge: "a \<in> set as \<Longrightarrow> at_outboxId a = i \<Longrightarrow> at_attempt a \<le> max_attempt as i"
  by (induction as) (auto simp: max_attempt_def le_max_iff_disj)

lemma claim_row_attempts: "a \<in> set as \<Longrightarrow> at_outboxId a = ob_id r \<Longrightarrow> at_attempt a < ob_attempts (claim_row now as r)"
  using max_attempt_ge [of a as "ob_id r"] by (simp add: claim_row_def)

lemma lock_and_claimE:
  assumes "lock_and_claim now locked ids b = (b', cs)"
  obtains mine where "mine = (\<lambda>r. ob_id r \<in> set ids \<and> \<not> locked (ob_id r) \<and> deliverable now r)"
    and "bx_rows b' = map (\<lambda>r. if mine r then claim_row now (bx_attempts b) r else r) (bx_rows b)"
    and "bx_nextId b' = bx_nextId b"
    and "bx_attempts b' = bx_attempts b @ map (attempt_of now \<circ> claim_row now (bx_attempts b)) (filter mine (bx_rows b))"
    and "cs = map (claim_of \<circ> claim_row now (bx_attempts b)) (filter mine (bx_rows b))"
  using assms by (auto simp: lock_and_claim_def Let_def)

lemma claimed_mem:
  assumes "lock_and_claim now locked ids b = (b', cs)" and "c \<in> set cs"
  obtains r where "r \<in> set (bx_rows b)" and "deliverable now r" and "ob_id r \<in> set ids" and "ob_id (cl_row c) = ob_id r"
    and "c = claim_of (claim_row now (bx_attempts b) r)"
  using assms by (auto simp: lock_and_claim_def Let_def claim_of_def)

lemma filter_ids_length:
  assumes "distinct (map ob_id rows)"
  shows "length (filter (\<lambda>r. ob_id r \<in> set ids \<and> P r) rows) \<le> length ids"
proof -
  let ?xs = "filter (\<lambda>r. ob_id r \<in> set ids \<and> P r) rows"
  have "distinct (map ob_id ?xs)" using assms by (simp add: distinct_map_filter)
  then have "length ?xs = card (set (map ob_id ?xs))" using distinct_card [of "map ob_id ?xs"] by simp
  also have "\<dots> \<le> card (set ids)" by (rule card_mono) auto
  also have "\<dots> \<le> length ids" by (rule card_length)
  finally show ?thesis .
qed

text \<open>A claim takes at most its limit, each message once.\<close>

lemma claimDue_batch:
  assumes "rows_ok b" and "claimDue limit now locked org seen b = (b', cs)"
  shows "length cs \<le> limit \<and> distinct (map (\<lambda>c. ob_id (cl_row c)) cs)"
proof (cases "length (dueRankingSql limit now org seen) = 0")
  case True
  then show ?thesis using assms(2) by (simp add: claimDue_def)
next
  case False
  let ?ids = "dueRankingSql limit now org seen"
  let ?mine = "\<lambda>r. ob_id r \<in> set ?ids \<and> \<not> locked (ob_id r) \<and> deliverable now r"
  have cs: "cs = map (claim_of \<circ> claim_row now (bx_attempts b)) (filter ?mine (bx_rows b))"
    using assms(2) False by (auto simp: claimDue_def lock_and_claim_def Let_def)
  have d: "distinct (map ob_id (bx_rows b))" using assms(1) by (simp add: rows_ok_def)
  have "length cs \<le> length ?ids"
    using filter_ids_length [OF d, of ?ids "\<lambda>r. \<not> locked (ob_id r) \<and> deliverable now r"] by (simp add: cs)
  moreover have "length ?ids \<le> limit" by (simp add: dueRankingSql_def)
  moreover have "map (\<lambda>c. ob_id (cl_row c)) cs = map ob_id (filter ?mine (bx_rows b))" by (simp add: cs claim_of_def)
  ultimately show ?thesis using d by (simp add: distinct_map_filter)
qed

lemma claim_fencing:
  assumes "outbox_inv (b, h)" and "lock_and_claim now locked ids b = (b', cs)"
  shows "fencing (b', h @ cs)"
  using assms(2)
proof (rule lock_and_claimE)
  fix mine
  assume rows: "bx_rows b' = map (\<lambda>r. if mine r then claim_row now (bx_attempts b) r else r) (bx_rows b)"
    and nid: "bx_nextId b' = bx_nextId b"
    and cs: "cs = map (claim_of \<circ> claim_row now (bx_attempts b)) (filter mine (bx_rows b))"
  have ok: "rows_ok b" "fencing (b, h)" using assms(1) by (simp_all add: outbox_inv_def)
  have ids: "distinct (map ob_id (bx_rows b))" using ok(1) by (simp add: rows_ok_def)
  have old: "ob_id (cl_row c) < bx_nextId b"
      "r \<in> set (bx_rows b) \<Longrightarrow> ob_id r = ob_id (cl_row c) \<Longrightarrow> cl_fence c \<le> ob_fence r"
      "r \<in> set (bx_rows b) \<Longrightarrow> ob_id r = ob_id (cl_row c) \<Longrightarrow> cl_fence c = ob_fence r \<Longrightarrow> ob_state r = Ob_sending"
    if "c \<in> set h" for c r using ok(2) that by (auto simp: fencing_def)
  have new: "\<exists>r \<in> set (bx_rows b). mine r \<and> ob_id (cl_row c) = ob_id r \<and> cl_fence c = Suc (ob_fence r)" if "c \<in> set cs" for c
    using that by (auto simp: cs claim_of_def)
  have "map token cs = map (\<lambda>r. (ob_id r, Suc (ob_fence r))) (filter mine (bx_rows b))"
    by (simp add: cs claim_of_def)
  then have dcs: "distinct (map token cs)"
    using ids by (auto simp: distinct_map inj_on_def intro!: distinct_filter)
  have apart: "token c \<noteq> token c'" if held: "c \<in> set h" and fresh: "c' \<in> set cs" for c c'
  proof -
    obtain r where "r \<in> set (bx_rows b)" "ob_id (cl_row c') = ob_id r" "cl_fence c' = Suc (ob_fence r)"
      using new [OF fresh] by blast
    then show ?thesis using old(2) [OF held, of r] by auto
  qed
  have "distinct (map token h)" using ok(2) by (simp add: fencing_def)
  moreover have "set (map token h) \<inter> set (map token cs) = {}"
  proof (rule equals0I)
    fix t assume "t \<in> set (map token h) \<inter> set (map token cs)"
    then obtain c c' where "c \<in> set h" "t = token c" "c' \<in> set cs" "t = token c'" unfolding set_map by blast
    then show False using apart [of c c'] by simp
  qed
  ultimately have dist: "distinct (map token (h @ cs))" using dcs by (simp only: map_append distinct_append)
  have "cl_fence c \<le> ob_fence r' \<and> (cl_fence c = ob_fence r' \<longrightarrow> ob_state r' = Ob_sending)"
    if c: "c \<in> set (h @ cs)" and r': "r' \<in> set (bx_rows b')" and same: "ob_id r' = ob_id (cl_row c)" for c r'
  proof -
    obtain r where r: "r \<in> set (bx_rows b)" "r' = (if mine r then claim_row now (bx_attempts b) r else r)"
      using r' by (auto simp: rows)
    then have id: "ob_id r = ob_id (cl_row c)" using same by (auto split: if_splits)
    show ?thesis
    proof (cases "c \<in> set h")
      case True
      then show ?thesis using old(2,3) [OF True r(1) id] r(2) by (auto split: if_splits)
    next
      case False
      then obtain q where q: "q \<in> set (bx_rows b)" "mine q" "ob_id (cl_row c) = ob_id q" "cl_fence c = Suc (ob_fence q)"
        using new [of c] c by auto
      then have "q = r" using ids id r(1) by (metis distinct_map inj_onD)
      then show ?thesis using q r(2) by simp
    qed
  qed
  moreover have "ob_id (cl_row c) < bx_nextId b'" if "c \<in> set (h @ cs)" for c
    using that old(1) [of c] new [of c] ok(1) by (auto simp: nid rows_ok_def)
  ultimately show "fencing (b', h @ cs)" using dist unfolding fencing_def by simp
qed

lemma claim_inv:
  assumes "outbox_inv (b, h)" and "lock_and_claim now locked ids b = (b', cs)"
  shows "outbox_inv (b', h @ cs)"
  using assms(2)
proof (rule lock_and_claimE)
  fix mine
  assume rows: "bx_rows b' = map (\<lambda>r. if mine r then claim_row now (bx_attempts b) r else r) (bx_rows b)"
    and nid: "bx_nextId b' = bx_nextId b"
    and att: "bx_attempts b' = bx_attempts b @ map (attempt_of now \<circ> claim_row now (bx_attempts b)) (filter mine (bx_rows b))"
  have ok: "rows_ok b" "evidence_ok b" using assms(1) by (simp_all add: outbox_inv_def)
  have "rows_ok b'"
    using ok(1) by (intro rows_ok_map [OF ok(1) _ rows nid]) (auto simp: keeps_identity_def rows_ok_def split: if_splits)
  moreover have "evidence_ok b'"
  proof -
    have "map (\<lambda>a. (at_outboxId a, at_attempt a)) (bx_attempts b') =
        map (\<lambda>a. (at_outboxId a, at_attempt a)) (bx_attempts b) @
        map (\<lambda>r. (ob_id r, ob_attempts (claim_row now (bx_attempts b) r))) (filter mine (bx_rows b))"
      by (simp add: att attempt_of_def)
    moreover have "distinct (map (\<lambda>r. (ob_id r, ob_attempts (claim_row now (bx_attempts b) r))) (filter mine (bx_rows b)))"
      using ok(1) by (auto simp: rows_ok_def distinct_map inj_on_def intro!: distinct_filter)
    ultimately show ?thesis
      using ok(2) claim_row_attempts [of _ "bx_attempts b"] unfolding evidence_ok_def by (fastforce simp: image_iff)
  qed
  ultimately show "outbox_inv (b', h @ cs)" using claim_fencing [OF assms] by (simp add: outbox_inv_def)
qed

lemma owned_unique:
  assumes "rows_ok b" and "r \<in> set (bx_rows b)" and "owned i f r" and "q \<in> set (bx_rows b)" and "owned i f q"
  shows "q = r"
  using assms by (metis rows_ok_def owned_def distinct_map inj_onD)

lemma renew_inv:
  assumes "outbox_inv (b, h)" and "c \<in> set h"
  shows "outbox_inv (fst (renewLease now (ob_id (cl_row c)) (cl_fence c) b), h)"
proof -
  let ?b = "fst (renewLease now (ob_id (cl_row c)) (cl_fence c) b)"
  let ?f = "\<lambda>r. if owned (ob_id (cl_row c)) (cl_fence c) r then r\<lparr>ob_leasedUntil := Some (now + LEASE_MS)\<rparr> else r"
  have b: "bx_rows ?b = map ?f (bx_rows b)" "bx_nextId ?b = bx_nextId b" "bx_attempts ?b = bx_attempts b"
    by (simp_all add: renewLease_def)
  have k: "keeps_identity ?f" by (simp add: keeps_identity_def)
  have "rows_ok ?b" using assms(1) by (intro rows_ok_map [OF _ k b(1,2)]) (auto simp: outbox_inv_def rows_ok_def split: if_splits)
  moreover have "fencing (?b, h)"
    using assms(1) by (intro fencing_map [OF _ k b(1,2)]) (auto simp: outbox_inv_def fencing_def)
  ultimately show ?thesis using assms(1) by (simp add: outbox_inv_def evidence_ok_def b)
qed

text \<open>
  A worker that reports or defers rewrites at most the row it still owns, and takes it
  out of flight.
\<close>

lemma released_inv:
  assumes "outbox_inv (b, h)" and c: "c \<in> set h" and g: "keeps_identity g"
    and fence: "\<And>r. ob_fence (g r) = ob_fence r" and state: "\<And>r. ob_state (g r) \<noteq> Ob_sending"
    and "bx_rows b' = map (\<lambda>r. if owned (ob_id (cl_row c)) (cl_fence c) r then g r else r) (bx_rows b)"
    and "bx_nextId b' = bx_nextId b" and "evidence_ok b'"
  shows "outbox_inv (b', remove1 c h)"
proof -
  let ?f = "\<lambda>r. if owned (ob_id (cl_row c)) (cl_fence c) r then g r else r"
  have ok: "rows_ok b" "fencing (b, h)" "distinct (map token h)" using assms(1) by (simp_all add: outbox_inv_def fencing_def)
  have k: "keeps_identity ?f" using g by (simp add: keeps_identity_def)
  have "rows_ok b'" using ok(1) state by (intro rows_ok_map [OF ok(1) k assms(6,7)]) (auto simp: rows_ok_def split: if_splits)
  moreover have "fencing (b', remove1 c h)"
  proof (rule fencing_map [OF ok(2) k assms(6,7) set_remove1_subset tokens_remove1 [OF ok(3)]])
    fix r c' assume r: "r \<in> set (bx_rows b)" "c' \<in> set (remove1 c h)" "ob_id r = ob_id (cl_row c')"
      "cl_fence c' \<le> ob_fence r" "cl_fence c' = ob_fence r \<Longrightarrow> ob_state r = Ob_sending"
    then show "cl_fence c' \<le> ob_fence (?f r) \<and> (cl_fence c' = ob_fence (?f r) \<longrightarrow> ob_state (?f r) = Ob_sending)"
      using other_token [OF ok(3) c r(2)] by (auto simp: owned_def fence)
  qed
  ultimately show ?thesis using assms(8) by (simp add: outbox_inv_def)
qed

lemma evidence_map:
  assumes "evidence_ok b" and "bx_attempts b' = map g (bx_attempts b)"
    and "\<And>a. at_outboxId (g a) = at_outboxId a \<and> at_attempt (g a) = at_attempt a"
  shows "evidence_ok b'"
proof -
  have "map (\<lambda>a. (at_outboxId a, at_attempt a)) (bx_attempts b') = map (\<lambda>a. (at_outboxId a, at_attempt a)) (bx_attempts b)"
    using assms(2,3) by simp
  then show ?thesis using assms(1) unfolding evidence_ok_def by metis
qed

lemma evidence_filter:
  assumes "evidence_ok b" and "bx_attempts b' = filter P (bx_attempts b)"
  shows "evidence_ok b'"
  using assms by (simp add: evidence_ok_def distinct_map_filter)

lemma outcome_row_sel [simp]:
  "ob_id (outcome_row now mx n rnd out r) = ob_id r" "ob_fence (outcome_row now mx n rnd out r) = ob_fence r"
  "ob_expiresAt (outcome_row now mx n rnd out r) = ob_expiresAt r"
  "ob_idempotencyKey (outcome_row now mx n rnd out r) = ob_idempotencyKey r"
  "ob_attempts (outcome_row now mx n rnd out r) = ob_attempts r"
  "ob_leasedUntil (outcome_row now mx n rnd out r) = None"
  by (simp_all add: outcome_row_def Let_def split: option.splits delivery_outcome.splits)

lemma outcome_row_state:
  "ob_state (outcome_row now mx n rnd out r) =
     (case proposed_state mx n out of Some st \<Rightarrow> st
      | None \<Rightarrow> if over_horizon now (retry_wait n rnd out) r then Ob_expired else Ob_queued)"
  by (simp add: outcome_row_def Let_def split: option.splits delivery_outcome.splits)

lemma outcome_row_not_sending: "ob_state (outcome_row now mx n rnd out r) \<noteq> Ob_sending"
  by (auto simp: outcome_row_state proposed_state_def split: delivery_outcome.splits)

lemma close_attempt_sel [simp]:
  "at_outboxId (close_attempt now out r a) = at_outboxId a" "at_attempt (close_attempt now out r a) = at_attempt a"
  "at_fence (close_attempt now out r a) = at_fence a"
  by (simp_all add: close_attempt_def Let_def split: delivery_outcome.splits)

lemma close_superseded_sel [simp]:
  "at_outboxId (close_superseded now a) = at_outboxId a" "at_attempt (close_superseded now a) = at_attempt a"
  by (simp_all add: close_superseded_def)

text \<open>The two ways a report lands.\<close>

lemma recordOutcome_cases:
  obtains (superseded) "\<forall>r \<in> set (bx_rows b). \<not> owned (ob_id (cl_row c)) (cl_fence c) r"
    and "bx_rows (fst (recordOutcome policy now c out rnd b)) = bx_rows b"
    and "bx_nextId (fst (recordOutcome policy now c out rnd b)) = bx_nextId b"
    and "bx_attempts (fst (recordOutcome policy now c out rnd b)) =
      map (\<lambda>a. if attempt_is (ob_id (cl_row c)) (cl_attempt c) (cl_fence c) a \<and> at_outcome a = At_claimed
               then close_superseded now a else a) (bx_attempts b)"
    and "\<not> rd_committed (snd (recordOutcome policy now c out rnd b))"
  | (committed) row f where "f = outcome_row now (rp_maxAttempts policy) (cl_attempt c) rnd out"
    and "row \<in> set (bx_rows b)" and "owned (ob_id (cl_row c)) (cl_fence c) row"
    and "bx_rows (fst (recordOutcome policy now c out rnd b)) =
      map (\<lambda>r. if owned (ob_id (cl_row c)) (cl_fence c) r then f r else r) (bx_rows b)"
    and "bx_nextId (fst (recordOutcome policy now c out rnd b)) = bx_nextId b"
    and "bx_attempts (fst (recordOutcome policy now c out rnd b)) =
      map (\<lambda>a. if attempt_is (ob_id (cl_row c)) (cl_attempt c) (cl_fence c) a then close_attempt now out (f row) a else a)
        (bx_attempts b)"
    and "rd_committed (snd (recordOutcome policy now c out rnd b))"
    and "rd_state (snd (recordOutcome policy now c out rnd b)) = ob_state (f row)"
proof (cases "List.find (owned (ob_id (cl_row c)) (cl_fence c)) (bx_rows b)")
  case None
  then have "\<forall>r \<in> set (bx_rows b). \<not> owned (ob_id (cl_row c)) (cl_fence c) r" by (auto simp: find_None_iff)
  then show ?thesis using None by (intro superseded) (simp_all add: recordOutcome_def Let_def)
next
  case (Some row)
  then have "row \<in> set (bx_rows b)" "owned (ob_id (cl_row c)) (cl_fence c) row" by (auto simp: find_Some_iff)
  with Some show ?thesis by (intro committed [OF refl]) (simp_all add: recordOutcome_def Let_def)
qed

lemma report_inv:
  assumes "outbox_inv (b, h)" and "c \<in> set h"
  shows "outbox_inv (fst (recordOutcome policy now c out rnd b), remove1 c h)"
proof (cases rule: recordOutcome_cases [of b c policy now out rnd])
  case superseded
  have "evidence_ok (fst (recordOutcome policy now c out rnd b))"
    using assms(1) by (intro evidence_map [OF _ superseded(4)]) (simp_all add: outbox_inv_def)
  moreover have "fencing (fst (recordOutcome policy now c out rnd b), remove1 c h)"
    using assms(1) superseded(2,3) set_remove1_subset [of c h] tokens_remove1 [of h c]
    by (auto simp: outbox_inv_def fencing_def)
  ultimately show ?thesis using assms(1) superseded(2,3) by (simp add: outbox_inv_def rows_ok_def)
next
  case (committed row f)
  have "evidence_ok (fst (recordOutcome policy now c out rnd b))"
    using assms(1) by (intro evidence_map [OF _ committed(6)]) (simp_all add: outbox_inv_def)
  then show ?thesis
    by (intro released_inv [OF assms _ _ _ committed(4,5)])
      (simp_all add: committed(1) keeps_identity_def outcome_row_not_sending)
qed

lemma deferRow_rows:
  obtains g where "keeps_identity g" and "\<And>r. ob_fence (g r) = ob_fence r" and "\<And>r. ob_state (g r) = Ob_queued"
    and "bx_rows (deferRow now c delay b) = map (\<lambda>r. if owned (ob_id (cl_row c)) (cl_fence c) r then g r else r) (bx_rows b)"
    and "bx_nextId (deferRow now c delay b) = bx_nextId b"
    and "bx_attempts (deferRow now c delay b) = filter (\<lambda>a. \<not> (attempt_is (ob_id (cl_row c)) (cl_attempt c) (cl_fence c) a \<and>
      at_outcome a = At_claimed)) (bx_attempts b)"
proof -
  define withdrawn where "withdrawn = (\<lambda>a. attempt_is (ob_id (cl_row c)) (cl_attempt c) (cl_fence c) a \<and> at_outcome a = At_claimed)"
  define g where "g = (\<lambda>r :: outbox_row. r\<lparr>ob_state := Ob_queued, ob_nextAttemptAt := now + delay * 1000, ob_leasedUntil := None,
    ob_attempts := (if \<exists>a \<in> set (bx_attempts b). withdrawn a then ob_attempts r - 1 else ob_attempts r)\<rparr>)"
  have "deferRow now c delay b = b\<lparr>bx_attempts := filter (\<lambda>a. \<not> withdrawn a) (bx_attempts b),
      bx_rows := map (\<lambda>r. if owned (ob_id (cl_row c)) (cl_fence c) r then g r else r) (bx_rows b)\<rparr>"
    unfolding deferRow_def Let_def withdrawn_def g_def ..
  then show ?thesis by (intro that [of g]) (simp_all add: withdrawn_def g_def keeps_identity_def)
qed

lemma defer_inv:
  assumes "outbox_inv (b, h)" and "c \<in> set h"
  shows "outbox_inv (deferRow now c delay b, remove1 c h)"
proof (rule deferRow_rows [of now c delay b])
  fix g
  assume g: "keeps_identity g" "\<And>r. ob_fence (g r) = ob_fence r" "\<And>r. ob_state (g r) = Ob_queued"
    and rows: "bx_rows (deferRow now c delay b) = map (\<lambda>r. if owned (ob_id (cl_row c)) (cl_fence c) r then g r else r) (bx_rows b)"
    and nid: "bx_nextId (deferRow now c delay b) = bx_nextId b"
    and att: "bx_attempts (deferRow now c delay b) = filter (\<lambda>a. \<not> (attempt_is (ob_id (cl_row c)) (cl_attempt c) (cl_fence c) a \<and>
      at_outcome a = At_claimed)) (bx_attempts b)"
  have "evidence_ok (deferRow now c delay b)"
    using assms(1) evidence_filter [OF _ att] by (simp add: outbox_inv_def)
  then show ?thesis by (intro released_inv [OF assms g(1,2) _ rows nid]) (simp_all add: g(3))
qed

lemma expire_inv:
  assumes "outbox_inv (b, h)"
  shows "outbox_inv (fst (expireOverdue now org limit b), h)"
proof -
  let ?b = "fst (expireOverdue now org limit b)"
  let ?ids = "map ob_id (take limit (filter (\<lambda>r. overdue now r \<and> in_scope org (ob_organizationId r)) (bx_rows b)))"
  let ?f = "\<lambda>r. if ob_id r \<in> set ?ids then expire_row r else r"
  have b: "bx_rows ?b = map ?f (bx_rows b)" "bx_nextId ?b = bx_nextId b" "bx_attempts ?b = bx_attempts b"
    by (simp_all add: expireOverdue_def Let_def)
  have k: "keeps_identity ?f" by (simp add: keeps_identity_def expire_row_def)
  have "rows_ok ?b"
    using assms by (intro rows_ok_map [OF _ k b(1,2)]) (auto simp: outbox_inv_def rows_ok_def expire_row_def split: if_splits)
  moreover have "fencing (?b, h)"
  proof (rule fencing_map [OF _ k b(1,2) subset_refl])
    show "fencing (b, h)" "distinct (map token h)" using assms by (simp_all add: outbox_inv_def fencing_def)
    show "cl_fence c \<le> ob_fence (?f r) \<and> (cl_fence c = ob_fence (?f r) \<longrightarrow> ob_state (?f r) = Ob_sending)"
      if "cl_fence c \<le> ob_fence r" "cl_fence c = ob_fence r \<Longrightarrow> ob_state r = Ob_sending" for r c
      using that by (simp add: expire_row_def)
  qed
  ultimately show ?thesis using assms by (simp add: outbox_inv_def evidence_ok_def b)
qed

text \<open>Pruning removes finished rows, each with its evidence.\<close>

lemma prune_rows:
  obtains ids where "bx_rows (fst (pruneNotificationHistory now days limit b)) = filter (\<lambda>r. ob_id r \<notin> ids) (bx_rows b)"
    and "bx_attempts (fst (pruneNotificationHistory now days limit b)) = filter (\<lambda>a. at_outboxId a \<notin> ids) (bx_attempts b)"
    and "bx_nextId (fst (pruneNotificationHistory now days limit b)) = bx_nextId b"
    and "\<And>i. i \<in> ids \<Longrightarrow> \<exists>r \<in> set (bx_rows b). ob_id r = i \<and> ob_state r \<in> set TERMINAL_STATES"
proof -
  define doomed where "doomed = take limit (sort_key ob_createdAt
    (filter (\<lambda>r. ob_state r \<in> set TERMINAL_STATES \<and> ob_createdAt r < now - days * 86400000) (bx_rows b)))"
  have mem: "\<exists>r \<in> set (bx_rows b). ob_id r = i \<and> ob_state r \<in> set TERMINAL_STATES" if i: "i \<in> ob_id ` set doomed" for i
  proof -
    obtain r where "r \<in> set doomed" "i = ob_id r" using i by blast
    then show ?thesis unfolding doomed_def by (force dest: in_set_takeD)
  qed
  have "fst (pruneNotificationHistory now days limit b) =
      b\<lparr>bx_rows := filter (\<lambda>r. ob_id r \<notin> ob_id ` set doomed) (bx_rows b),
        bx_attempts := filter (\<lambda>a. at_outboxId a \<notin> ob_id ` set doomed) (bx_attempts b)\<rparr>"
  proof (cases "doomed = []")
    case True
    then show ?thesis unfolding pruneNotificationHistory_def Let_def doomed_def [symmetric] by simp
  next
    case False
    then show ?thesis unfolding pruneNotificationHistory_def Let_def doomed_def [symmetric] by simp
  qed
  then show ?thesis using mem by (intro that [of "ob_id ` set doomed"]) simp_all
qed

lemma prune_inv:
  assumes "outbox_inv (b, h)"
  shows "outbox_inv (fst (pruneNotificationHistory now days limit b), h)"
proof (rule prune_rows [of now days limit b])
  fix ids
  let ?b = "fst (pruneNotificationHistory now days limit b)"
  assume p: "bx_rows ?b = filter (\<lambda>r. ob_id r \<notin> ids) (bx_rows b)"
    "bx_attempts ?b = filter (\<lambda>a. at_outboxId a \<notin> ids) (bx_attempts b)" "bx_nextId ?b = bx_nextId b"
  have "rows_ok ?b" using assms by (auto simp: outbox_inv_def rows_ok_def p distinct_map_filter)
  moreover have "fencing (?b, h)" using assms by (auto simp: outbox_inv_def fencing_def p)
  ultimately show ?thesis using assms evidence_filter [of b ?b, OF _ p(2)] by (simp add: outbox_inv_def)
qed

lemma sweep_inv:
  assumes "outbox_inv (b, h)"
  shows "outbox_inv (fst (sweepStaleAttempts now olderThan b), h)"
proof -
  let ?b = "fst (sweepStaleAttempts now olderThan b)"
  define g where "g = (\<lambda>a :: attempt_row. if at_outcome a = At_claimed \<and> at_startedAt a < olderThan
    then a\<lparr>at_outcome := At_unknown, at_finishedAt := Some now,
      at_error := Some ''the worker holding this attempt never reported an outcome''\<rparr> else a)"
  have b: "?b = b\<lparr>bx_attempts := map g (bx_attempts b)\<rparr>" by (simp add: sweepStaleAttempts_def Let_def g_def)
  have "evidence_ok ?b"
    using assms by (intro evidence_map [of b ?b g]) (simp_all add: b outbox_inv_def, simp add: g_def)
  then show ?thesis using assms by (simp add: b outbox_inv_def rows_ok_def fencing_def)
qed

lemma crash_inv: "outbox_inv (b, h) \<Longrightarrow> outbox_inv (b, filter kept h)"
  by (auto simp: outbox_inv_def fencing_def tokens_filter)

lemma outbox_step_inv:
  assumes "outbox_step policy w w'" and "outbox_inv w"
  shows "outbox_inv w'"
  using assms
  by cases (blast intro: enqueue_inv claim_inv renew_inv report_inv defer_inv crash_inv expire_inv sweep_inv prune_inv)+

interpretation outbox: state_machine nothing_queued "outbox_step policy" outbox_inv for policy
proof
  show "nothing_queued w \<Longrightarrow> outbox_inv w" for w
    by (simp add: nothing_queued_def outbox_inv_def rows_ok_def evidence_ok_def fencing_def)
  show "outbox_inv w \<Longrightarrow> outbox_step policy w w' \<Longrightarrow> outbox_inv w'" for w w'
    by (rule outbox_step_inv)
qed

section \<open>One row, one number, one owner\<close>

text \<open>
  C27: however many workers claim, report, defer, crash and sweep, in any order: a logical
  notification has one row, an attempt number of a row has one evidence row, at most
  one claim on a row is current, and a row under a current claim is in flight.
\<close>

theorem reachable_outbox_wf:
  assumes "reach nothing_queued (outbox_step policy) (b, h)"
  shows "distinct (map ob_idempotencyKey (bx_rows b)) \<and>
    distinct (map (\<lambda>a. (at_outboxId a, at_attempt a)) (bx_attempts b)) \<and>
    (\<forall>c \<in> set h. \<forall>c' \<in> set h. \<forall>r \<in> set (bx_rows b).
       owned (ob_id (cl_row c)) (cl_fence c) r \<and> owned (ob_id (cl_row c')) (cl_fence c') r \<longrightarrow> c = c' \<and> ob_state r = Ob_sending)"
proof -
  have inv: "outbox_inv (b, h)" by (rule outbox.reach_inv [OF assms])
  have "c = c' \<and> ob_state r = Ob_sending"
    if "c \<in> set h" "c' \<in> set h" "r \<in> set (bx_rows b)" "owned (ob_id (cl_row c)) (cl_fence c) r"
      "owned (ob_id (cl_row c')) (cl_fence c') r" for c c' r
  proof -
    have "token c = token c'" using that by (simp add: owned_def)
    moreover have "inj_on token (set h)" using inv by (simp add: outbox_inv_def fencing_def distinct_map)
    ultimately have "c = c'" using that(1,2) by (meson inj_onD)
    then show ?thesis using inv that by (auto simp: outbox_inv_def fencing_def owned_def)
  qed
  then show ?thesis using inv by (auto simp: outbox_inv_def rows_ok_def evidence_ok_def)
qed

definition sample_policy :: retry_policy where
  "sample_policy = \<lparr>rp_maxAttempts = 20, rp_horizonHours = 6\<rparr>"

definition sample_message :: outbox_message where
  "sample_message =
     \<lparr>om_organizationId = ''org'', om_idempotencyKey = ''incident:0:opened:ada@example.com'', om_channel = Ch_email,
      om_channelId = None, om_provider = None, om_event = Some ''incident.opened'', om_destination = ''ada@example.com'',
      om_payload = JObj [], om_replayOf = None\<rparr>"

definition empty_outbox :: outbox where
  "empty_outbox = \<lparr>bx_rows = [], bx_attempts = [], bx_nextId = 0\<rparr>"

definition one_queued :: outbox where
  "one_queued = fst (enqueue 6 0 sample_message empty_outbox)"

definition one_claimed :: "outbox \<times> claimed_row list" where
  "one_claimed = lock_and_claim 0 (\<lambda>_. False) [0] one_queued"

lemma one_queued_reached: "reach nothing_queued (outbox_step sample_policy) (one_queued, [])"
proof (rule reach_step)
  show "reach nothing_queued (outbox_step sample_policy) (empty_outbox, [])"
    by (rule reach_init) (simp add: nothing_queued_def empty_outbox_def)
  show "outbox_step sample_policy (empty_outbox, []) (one_queued, [])"
    using outbox_step.enqueued [of sample_policy empty_outbox "[]" 0 sample_message]
    by (simp add: one_queued_def sample_policy_def)
qed

lemma one_claimed_reached: "reach nothing_queued (outbox_step sample_policy) one_claimed"
proof (rule reach_step [OF one_queued_reached])
  obtain b cs where "lock_and_claim 0 (\<lambda>_. False) [0] one_queued = (b, cs)" by (cases "lock_and_claim 0 (\<lambda>_. False) [0] one_queued")
  then show "outbox_step sample_policy (one_queued, []) one_claimed"
    using outbox_step.claimed [of 0 "\<lambda>_. False" "[0]" one_queued b cs sample_policy "[]"] by (simp add: one_claimed_def)
qed

theorem reachable_outbox_wf_witness:
  "length (bx_rows (fst one_claimed)) = 1 \<and> length (snd one_claimed) = 1 \<and>
   distinct (map ob_idempotencyKey (bx_rows (fst one_claimed)))"
proof -
  have "length (bx_rows (fst one_claimed)) = 1" "length (snd one_claimed) = 1" by code_simp+
  then show ?thesis
    using reachable_outbox_wf [of sample_policy "fst one_claimed" "snd one_claimed"] one_claimed_reached by simp
qed

section \<open>What is finished stays finished\<close>

definition settled :: "outbox_row \<Rightarrow> outbox \<Rightarrow> bool" where
  "settled r b \<longleftrightarrow> r \<in> set (bx_rows b) \<or> ob_id r < bx_nextId b \<and> (\<forall>q \<in> set (bx_rows b). ob_id q \<noteq> ob_id r)"

lemma terminal_iff: "st \<in> set TERMINAL_STATES \<longleftrightarrow> st \<noteq> Ob_queued \<and> st \<noteq> Ob_sending"
  by (cases st) (simp_all add: TERMINAL_STATES_def)

lemma terminal_not_deliverable: "ob_state r \<in> set TERMINAL_STATES \<Longrightarrow> \<not> deliverable now r"
  by (simp add: terminal_iff deliverable_def)

lemma terminal_not_overdue: "ob_state r \<in> set TERMINAL_STATES \<Longrightarrow> \<not> overdue now r"
  by (simp add: terminal_iff overdue_def)

text \<open>A rewriting in place that leaves the finished row alone.\<close>

lemma settled_map:
  assumes "settled r b" and "keeps_identity f" and "bx_rows b' = map f (bx_rows b)" and "bx_nextId b' = bx_nextId b"
    and "r \<in> set (bx_rows b) \<Longrightarrow> f r = r"
  shows "settled r b'"
proof (cases "r \<in> set (bx_rows b)")
  case True
  then have "r \<in> set (bx_rows b')" using assms(3,5) by (metis image_eqI list.set_map)
  then show ?thesis by (simp add: settled_def)
next
  case False
  then show ?thesis using assms(1-4) by (auto simp: settled_def keeps_identity_def)
qed

lemma current_not_terminal:
  assumes "outbox_inv (b, h)" and "c \<in> set h" and "r \<in> set (bx_rows b)" and "ob_state r \<in> set TERMINAL_STATES"
  shows "\<not> owned (ob_id (cl_row c)) (cl_fence c) r"
  using assms by (auto simp: outbox_inv_def fencing_def owned_def terminal_iff)

lemma expired_row_kept:
  assumes "outbox_inv (b, h)" and "r \<in> set (bx_rows b)" and "ob_state r \<in> set TERMINAL_STATES"
  shows "ob_id r \<notin> set (map ob_id (take limit (filter (\<lambda>r. overdue now r \<and> in_scope org (ob_organizationId r)) (bx_rows b))))"
proof
  assume "ob_id r \<in> set (map ob_id (take limit (filter (\<lambda>r. overdue now r \<and> in_scope org (ob_organizationId r)) (bx_rows b))))"
  then obtain q where "q \<in> set (bx_rows b)" "overdue now q" "ob_id q = ob_id r" by (force dest: in_set_takeD)
  moreover from this have "q = r" using assms(1,2) by (metis outbox_inv_def rows_ok_def fst_conv distinct_map inj_onD)
  ultimately show False using terminal_not_overdue [OF assms(3)] by blast
qed

lemma settled_step:
  assumes "outbox_step policy (b, h) (b', h')" and inv: "outbox_inv (b, h)" and r: "settled r b"
    and fin: "ob_state r \<in> set TERMINAL_STATES"
  shows "settled r b'"
  using assms(1)
proof cases
  case (enqueued now message)
  then show ?thesis using r by (auto simp: settled_def enqueue_def Let_def row_of_def)
next
  case (claimed now locked ids cs)
  from claimed(2) show ?thesis
  proof (rule lock_and_claimE)
    fix mine
    assume m: "mine = (\<lambda>r. ob_id r \<in> set ids \<and> \<not> locked (ob_id r) \<and> deliverable now r)"
      and rows: "bx_rows b' = map (\<lambda>r. if mine r then claim_row now (bx_attempts b) r else r) (bx_rows b)"
      and nid: "bx_nextId b' = bx_nextId b"
    show ?thesis
      by (rule settled_map [OF r _ rows nid]) (simp_all add: keeps_identity_def m terminal_not_deliverable [OF fin])
  qed
next
  case (renewed c now)
  let ?f = "\<lambda>r. if owned (ob_id (cl_row c)) (cl_fence c) r then r\<lparr>ob_leasedUntil := Some (now + LEASE_MS)\<rparr> else r"
  show ?thesis
    by (rule settled_map [OF r, of ?f])
      (use renewed current_not_terminal [OF inv renewed(3) _ fin] in \<open>simp_all add: renewLease_def keeps_identity_def\<close>)
next
  case (reported c now out rnd)
  show ?thesis
  proof (cases rule: recordOutcome_cases [of b c policy now out rnd])
    case superseded
    then show ?thesis using r reported(1) by (simp add: settled_def)
  next
    case (committed row f)
    show ?thesis
      using committed(4,5) current_not_terminal [OF inv reported(3) _ fin] reported(1)
      by (intro settled_map [OF r, of "\<lambda>r. if owned (ob_id (cl_row c)) (cl_fence c) r then f r else r"])
        (simp_all add: keeps_identity_def committed(1))
  qed
next
  case (deferred c now delay)
  show ?thesis
  proof (rule deferRow_rows [of now c delay b])
    fix g
    assume "keeps_identity g"
      and rows: "bx_rows (deferRow now c delay b) = map (\<lambda>r. if owned (ob_id (cl_row c)) (cl_fence c) r then g r else r) (bx_rows b)"
      and nid: "bx_nextId (deferRow now c delay b) = bx_nextId b"
    then show ?thesis
      unfolding deferred(1) using current_not_terminal [OF inv deferred(3) _ fin]
      by (intro settled_map [OF r _ rows nid]) (simp_all add: keeps_identity_def)
  qed
next
  case (crashed kept)
  then show ?thesis using r by simp
next
  case (expired now org limit)
  let ?ids = "map ob_id (take limit (filter (\<lambda>r. overdue now r \<and> in_scope org (ob_organizationId r)) (bx_rows b)))"
  have "bx_rows b' = map (\<lambda>r. if ob_id r \<in> set ?ids then expire_row r else r) (bx_rows b)" "bx_nextId b' = bx_nextId b"
    by (simp_all add: expired(1) expireOverdue_def Let_def)
  then show ?thesis
    by (rule settled_map [OF r, rotated]) (simp_all only: keeps_identity_def expired_row_kept [OF inv _ fin] if_False,
        simp add: expire_row_def)
next
  case (swept now olderThan)
  then show ?thesis using r by (simp add: settled_def sweepStaleAttempts_def Let_def)
next
  case (pruned now days limit)
  show ?thesis
    by (rule prune_rows [of now days limit b]) (use r pruned(1) inv in \<open>auto simp: settled_def outbox_inv_def rows_ok_def\<close>)
qed

lemma settled_steps:
  assumes "(outbox_step policy)\<^sup>*\<^sup>* w w'" and "outbox_inv w" and "settled r (fst w)" and "ob_state r \<in> set TERMINAL_STATES"
  shows "settled r (fst w') \<and> outbox_inv w'"
  using assms
proof (induction rule: rtranclp_induct)
  case (step w1 w2)
  then show ?case
    using settled_step [of policy "fst w1" "snd w1" "fst w2" "snd w2" r] outbox_step_inv by simp
qed simp

text \<open>
  C28: a finished message is never sent again. Once a row is delivered, failed, expired or
  dead-lettered, no later step of any worker changes it, short of retention removing it,
  and no later claim takes it.
\<close>

theorem finished_stays_finished:
  assumes "reach nothing_queued (outbox_step policy) (b, h)" and "r \<in> set (bx_rows b)"
    and "ob_state r \<in> set TERMINAL_STATES" and "(outbox_step policy)\<^sup>*\<^sup>* (b, h) (b', h')"
    and "lock_and_claim now locked ids b' = (b'', cs)"
  shows "(\<forall>q \<in> set (bx_rows b'). ob_id q = ob_id r \<longrightarrow> q = r) \<and> (\<forall>c \<in> set cs. ob_id (cl_row c) \<noteq> ob_id r)"
proof -
  have "settled r b'" and inv: "outbox_inv (b', h')"
    using settled_steps [OF assms(4) outbox.reach_inv [OF assms(1)] _ assms(3)] assms(2) by (simp_all add: settled_def)
  then have same: "q = r" if "q \<in> set (bx_rows b')" "ob_id q = ob_id r" for q
    using that by (metis settled_def outbox_inv_def rows_ok_def fst_conv distinct_map inj_onD)
  have "ob_id (cl_row c) \<noteq> ob_id r" if c: "c \<in> set cs" for c
    by (rule claimed_mem [OF assms(5) c]) (use same terminal_not_deliverable [OF assms(3)] in metis)
  then show ?thesis using same by blast
qed

definition one_delivered :: world where
  "one_delivered =
     (fst (recordOutcome sample_policy 5 (hd (snd one_claimed)) (Delivered (Some ''receipt'') None) 0 (fst one_claimed)),
      remove1 (hd (snd one_claimed)) (snd one_claimed))"

lemma one_delivered_reached: "reach nothing_queued (outbox_step sample_policy) one_delivered"
proof (rule reach_step [OF one_claimed_reached])
  have "snd one_claimed \<noteq> []" by code_simp
  then show "outbox_step sample_policy one_claimed one_delivered"
    unfolding one_delivered_def using outbox_step.reported [of "hd (snd one_claimed)" "snd one_claimed" sample_policy "fst one_claimed"] by simp
qed

theorem finished_stays_finished_witness:
  "\<exists>r. bx_rows (fst one_delivered) = [r] \<and> ob_state r = Ob_delivered \<and>
     snd (lock_and_claim 999999 (\<lambda>_. False) [ob_id r] (fst one_delivered)) = []"
proof -
  have "case bx_rows (fst one_delivered) of [r] \<Rightarrow> ob_state r = Ob_delivered | _ \<Rightarrow> False" by code_simp
  then obtain r where r: "bx_rows (fst one_delivered) = [r]" "ob_state r = Ob_delivered" by (auto split: list.splits)
  obtain b cs where l: "lock_and_claim 999999 (\<lambda>_. False) [ob_id r] (fst one_delivered) = (b, cs)"
    by (cases "lock_and_claim 999999 (\<lambda>_. False) [ob_id r] (fst one_delivered)")
  have "\<forall>c \<in> set cs. ob_id (cl_row c) \<noteq> ob_id r"
    using finished_stays_finished [of sample_policy "fst one_delivered" "snd one_delivered" r
        "fst one_delivered" "snd one_delivered", OF _ _ _ _ l] one_delivered_reached r by (simp add: TERMINAL_STATES_def)
  moreover have "ob_id (cl_row c) = ob_id r" if c: "c \<in> set cs" for c
    by (rule claimed_mem [OF l c]) (simp add: r(1))
  ultimately have "cs = []" by (metis list.set_intros(1) neq_Nil_conv)
  then show ?thesis using r l by auto
qed

end
