(* ===== verification/Outbox_Laws.thy ===== *)
theory Outbox_Laws
  imports Outbox_Machine
begin

text \<open>
  What the outbox promises an operator: a superseded worker writes nothing and does not
  send, an outcome decides between four endings and a bounded wait, nothing is
  delivered past its horizon, nothing is stuck, and the drain is fair between tenants.
\<close>

section \<open>Superseded workers\<close>

text \<open>
  a worker that was overtaken neither sends nor records. When two claims on the same
  row are held, the older one can no longer renew its lease, which is the last thing
  before the send, and a report under it changes no row and says so.
\<close>

theorem superseded_worker_is_harmless:
  assumes "reach nothing_queued (outbox_step policy) (b, h)" and "c \<in> set h" and "c' \<in> set h"
    and "ob_id (cl_row c) = ob_id (cl_row c')" and "cl_fence c < cl_fence c'"
  shows "renewLease now (ob_id (cl_row c)) (cl_fence c) b = (b, False) \<and>
    bx_rows (fst (recordOutcome policy now c out rnd b)) = bx_rows b \<and>
    \<not> rd_committed (snd (recordOutcome policy now c out rnd b))"
proof -
  have inv: "fencing (b, h)" using outbox.reach_inv [OF assms(1)] by (simp add: outbox_inv_def)
  have none: "\<not> owned (ob_id (cl_row c)) (cl_fence c) r" if "r \<in> set (bx_rows b)" for r
    using inv that assms(3-5) by (fastforce simp: fencing_def owned_def)
  then have "map (\<lambda>r. if owned (ob_id (cl_row c)) (cl_fence c) r then r\<lparr>ob_leasedUntil := Some (now + LEASE_MS)\<rparr> else r) (bx_rows b) =
      bx_rows b"
    by (simp add: map_idI)
  then have "renewLease now (ob_id (cl_row c)) (cl_fence c) b = (b, False)"
    using none by (simp add: renewLease_def filter_empty_conv)
  then show ?thesis
    using none by (cases rule: recordOutcome_cases [of b c policy now out rnd]) auto
qed

definition reclaimed :: world where
  "reclaimed = (let (b, cs) = lock_and_claim 700000 (\<lambda>_. False) [0] (fst one_claimed) in (b, snd one_claimed @ cs))"

lemma reclaimed_reached: "reach nothing_queued (outbox_step sample_policy) reclaimed"
proof (rule reach_step [OF one_claimed_reached])
  obtain b cs where l: "lock_and_claim 700000 (\<lambda>_. False) [0] (fst one_claimed) = (b, cs)"
    by (cases "lock_and_claim 700000 (\<lambda>_. False) [0] (fst one_claimed)")
  then show "outbox_step sample_policy one_claimed reclaimed"
    using outbox_step.claimed [OF l, of sample_policy "snd one_claimed"] by (simp add: reclaimed_def)
qed

theorem superseded_worker_is_harmless_witness:
  "\<exists>c c'. snd reclaimed = [c, c'] \<and> cl_fence c = 1 \<and> cl_fence c' = 2 \<and>
     \<not> snd (renewLease 700001 (ob_id (cl_row c)) (cl_fence c) (fst reclaimed))"
proof -
  have "case snd reclaimed of [c, c'] \<Rightarrow> cl_fence c = 1 \<and> cl_fence c' = 2 \<and> ob_id (cl_row c) = ob_id (cl_row c') | _ \<Rightarrow> False"
    by code_simp
  then obtain c c' where c: "snd reclaimed = [c, c']" "cl_fence c = 1" "cl_fence c' = 2" "ob_id (cl_row c) = ob_id (cl_row c')"
    by (auto split: list.splits)
  have "reach nothing_queued (outbox_step sample_policy) (fst reclaimed, snd reclaimed)" using reclaimed_reached by simp
  from superseded_worker_is_harmless [OF this, of c c' 700001] c show ?thesis by simp
qed

section \<open>The retry schedule\<close>

definition base_wait :: "nat \<Rightarrow> millis" where
  "base_wait attempts = min (2 ^ attempts * 1000) BACKOFF_CEILING_MS"

lemma base_wait_bounds: "1000 \<le> base_wait n" "base_wait n \<le> BACKOFF_CEILING_MS"
  using one_le_power [of "2 :: int" n] by (simp_all add: base_wait_def BACKOFF_CEILING_MS_def)

lemma backoff_bounds:
  assumes "0 \<le> random" and "random < 1"
  shows "3 * base_wait n < 4 * backoffMs n random + 2" and "4 * backoffMs n random \<le> 5 * base_wait n + 2"
proof -
  define x :: rat where "x = of_int (base_wait n) * (3 / 4 + random * (1 / 2)) + 1 / 2"
  have b: "backoffMs n random = \<lfloor>x\<rfloor>" by (simp add: backoffMs_def base_wait_def Let_def x_def)
  have pos: "0 \<le> (of_int (base_wait n) :: rat)" using base_wait_bounds(1) [of n] by simp
  have "of_int (base_wait n) * (3 / 4) + 1 / 2 \<le> x"
    unfolding x_def using pos assms(1) by (intro add_right_mono mult_left_mono) simp_all
  then have "of_int (3 * base_wait n) < (of_int (4 * \<lfloor>x\<rfloor> + 2) :: rat)" using floor_correct [of x] by simp
  then show "3 * base_wait n < 4 * backoffMs n random + 2" unfolding b by (simp only: of_int_less_iff)
  have "x \<le> of_int (base_wait n) * (5 / 4) + 1 / 2"
    unfolding x_def using pos assms(2) by (intro add_right_mono mult_left_mono) simp_all
  then have "of_int (4 * \<lfloor>x\<rfloor>) \<le> (of_int (5 * base_wait n + 2) :: rat)"
    using of_int_floor_le [of x] unfolding of_int_mult of_int_add of_int_numeral by linarith
  then show "4 * backoffMs n random \<le> 5 * base_wait n + 2" unfolding b by (simp only: of_int_le_iff)
qed

lemma retry_wait_bounds:
  assumes "0 \<le> random" and "random < 1"
  shows "3 * base_wait n < 4 * retry_wait n random out + 2" and "0 < retry_wait n random out"
    and "retry_wait n random out \<le> RETRY_AFTER_CAP_MS"
  using backoff_bounds [OF assms, of n] base_wait_bounds [of n]
  by (auto simp: retry_wait_def RETRY_AFTER_CAP_MS_def BACKOFF_CEILING_MS_def split: delivery_outcome.splits option.splits)

lemma reported_row:
  assumes "rows_ok b" and "r \<in> set (bx_rows b)" and "owned (ob_id (cl_row c)) (cl_fence c) r"
    and "f = outcome_row now (rp_maxAttempts policy) (cl_attempt c) rnd out"
  shows "f r \<in> set (bx_rows (fst (recordOutcome policy now c out rnd b)))"
    and "rd_committed (snd (recordOutcome policy now c out rnd b))"
    and "rd_state (snd (recordOutcome policy now c out rnd b)) = ob_state (f r)"
    and "\<And>q. q \<in> set (bx_rows b) \<Longrightarrow> ob_id q \<noteq> ob_id r \<Longrightarrow> q \<in> set (bx_rows (fst (recordOutcome policy now c out rnd b)))"
proof -
  obtain row f' where c: "f' = f" "row \<in> set (bx_rows b)" "owned (ob_id (cl_row c)) (cl_fence c) row"
    and rows: "bx_rows (fst (recordOutcome policy now c out rnd b)) =
      map (\<lambda>r. if owned (ob_id (cl_row c)) (cl_fence c) r then f r else r) (bx_rows b)"
    and rd: "rd_committed (snd (recordOutcome policy now c out rnd b))"
      "rd_state (snd (recordOutcome policy now c out rnd b)) = ob_state (f row)"
    using assms(2-4) by (cases rule: recordOutcome_cases [of b c policy now out rnd]) auto
  have "row = r" using owned_unique [OF assms(1-3) c(2,3)] .
  then show "rd_committed (snd (recordOutcome policy now c out rnd b))"
      "rd_state (snd (recordOutcome policy now c out rnd b)) = ob_state (f r)" using rd by simp_all
  show "f r \<in> set (bx_rows (fst (recordOutcome policy now c out rnd b)))" using assms(2,3) by (force simp: rows)
  show "q \<in> set (bx_rows (fst (recordOutcome policy now c out rnd b)))" if "q \<in> set (bx_rows b)" "ob_id q \<noteq> ob_id r" for q
    using that assms(3) by (force simp: rows owned_def)
qed

text \<open>
  what a provider said decides how a message goes on. Accepted is delivered, rejected
  is failed; anything else is dead-lettered when the attempts are spent, and otherwise
  either goes round again, after at least three quarters of the published wait, at most
  an hour, and never past its deadline, or is expired because that would be too late.
  Other messages are not touched.
\<close>

theorem recorded_outcome_spec:
  assumes "reach nothing_queued (outbox_step policy) (b, h)" and "r \<in> set (bx_rows b)"
    and "owned (ob_id (cl_row c)) (cl_fence c) r" and "0 \<le> rnd" and "rnd < 1"
    and "recordOutcome policy now c out rnd b = (b', res)"
  shows "\<exists>r' \<in> set (bx_rows b'). ob_id r' = ob_id r \<and> rd_committed res \<and> rd_state res = ob_state r' \<and>
    (case out of
       Delivered m _ \<Rightarrow> ob_state r' = Ob_delivered \<and> ob_providerMessageId r' = m
     | Permanent _ _ \<Rightarrow> ob_state r' = Ob_failed
     | _ \<Rightarrow> if rp_maxAttempts policy \<le> cl_attempt c then ob_state r' = Ob_dead_letter
            else ob_state r' = Ob_queued \<and> 4 * now + 3 * base_wait (cl_attempt c) < 4 * ob_nextAttemptAt r' + 2 \<and>
                   ob_nextAttemptAt r' \<le> now + RETRY_AFTER_CAP_MS \<and>
                   (\<exists>t. ob_expiresAt r = Some t \<and> ob_nextAttemptAt r' \<le> t) \<or>
                 ob_state r' = Ob_expired \<and>
                   (\<exists>t. ob_expiresAt r = Some t \<and> t < now + retry_wait (cl_attempt c) rnd out)) \<and>
    (\<forall>q \<in> set (bx_rows b). ob_id q \<noteq> ob_id r \<longrightarrow> q \<in> set (bx_rows b'))"
proof -
  have ok: "rows_ok b" using outbox.reach_inv [OF assms(1)] by (simp add: outbox_inv_def)
  then obtain t where t: "ob_expiresAt r = Some t" using assms(2) by (auto simp: rows_ok_def)
  define f where "f = outcome_row now (rp_maxAttempts policy) (cl_attempt c) rnd out"
  note rep = reported_row [OF ok assms(2,3) f_def, unfolded assms(6) fst_conv snd_conv]
  note w = retry_wait_bounds [OF assms(4,5), of "cl_attempt c" out]
  have "case out of
       Delivered m _ \<Rightarrow> ob_state (f r) = Ob_delivered \<and> ob_providerMessageId (f r) = m
     | Permanent _ _ \<Rightarrow> ob_state (f r) = Ob_failed
     | _ \<Rightarrow> if rp_maxAttempts policy \<le> cl_attempt c then ob_state (f r) = Ob_dead_letter
            else ob_state (f r) = Ob_queued \<and> 4 * now + 3 * base_wait (cl_attempt c) < 4 * ob_nextAttemptAt (f r) + 2 \<and>
                   ob_nextAttemptAt (f r) \<le> now + RETRY_AFTER_CAP_MS \<and>
                   (\<exists>t. ob_expiresAt r = Some t \<and> ob_nextAttemptAt (f r) \<le> t) \<or>
                 ob_state (f r) = Ob_expired \<and>
                   (\<exists>t. ob_expiresAt r = Some t \<and> t < now + retry_wait (cl_attempt c) rnd out)"
    using w t unfolding f_def
    by (cases out) (auto simp: outcome_row_def proposed_state_def over_horizon_def Let_def)
  moreover have "ob_id (f r) = ob_id r" by (simp add: f_def)
  ultimately show ?thesis using rep by blast
qed

theorem recorded_outcome_spec_witness:
  "\<exists>r' \<in> set (bx_rows (fst (recordOutcome sample_policy 5 (hd (snd one_claimed)) (Retryable ''503'' None (Some 503)) 0 (fst one_claimed)))).
     ob_state r' = Ob_queued \<and> 1505 \<le> ob_nextAttemptAt r'"
proof -
  let ?c = "hd (snd one_claimed)"
  have e: "case bx_rows (fst one_claimed) of [r] \<Rightarrow> owned (ob_id (cl_row ?c)) (cl_fence ?c) r \<and> cl_attempt ?c = 1 \<and>
      ob_expiresAt r = Some 21600000 | _ \<Rightarrow> False"
    by code_simp
  then obtain r where r: "r \<in> set (bx_rows (fst one_claimed))" "owned (ob_id (cl_row ?c)) (cl_fence ?c) r"
      "cl_attempt ?c = 1" "ob_expiresAt r = Some 21600000"
    by (auto split: list.splits)
  have "\<lfloor>3001 / 2 :: rat\<rfloor> = 1500" by (rule floor_unique) simp_all
  then have w: "retry_wait 1 0 (Retryable ''503'' None (Some 503)) = 1500" "base_wait 1 = 2000"
    by (simp_all add: retry_wait_def backoffMs_def base_wait_def BACKOFF_CEILING_MS_def RETRY_AFTER_CAP_MS_def)
  have "reach nothing_queued (outbox_step sample_policy) (fst one_claimed, snd one_claimed)" using one_claimed_reached by simp
  from recorded_outcome_spec [OF this r(1,2), of 0 5 "Retryable ''503'' None (Some 503)", OF _ _ prod.collapse [symmetric]]
  show ?thesis using r(3,4) w by (auto simp: sample_policy_def)
qed

text \<open>The published waits of the twenty attempts fit in the default horizon of six hours.\<close>

lemma published_schedule_fits: "sum_list (backoffSchedule 19) = 18246000 \<and> sum_list (backoffSchedule 19) < 6 * 3600000"
  by (simp add: backoffSchedule_def BACKOFF_CEILING_MS_def upt_rec)

section \<open>Claims\<close>

text \<open>
  a claim takes at most its limit, only messages that are due, unexpired and not in
  another worker's hands, and leaves the evidence of the attempt behind before anything
  is sent: a fresh attempt number under a fresh fence. What the ranking saw may be stale.
\<close>

theorem claims_leave_evidence:
  assumes "reach nothing_queued (outbox_step policy) (b, h)"
    and "claimDue limit now locked org seen b = (b', cs)"
  shows "length cs \<le> limit \<and>
    (\<forall>c \<in> set cs. \<exists>r \<in> set (bx_rows b). ob_id r = ob_id (cl_row c) \<and> ob_nextAttemptAt r \<le> now \<and>
       (\<exists>t. ob_expiresAt r = Some t \<and> now < t) \<and>
       (ob_state r = Ob_queued \<or> ob_state r = Ob_sending \<and> (\<exists>t. ob_leasedUntil r = Some t \<and> t \<le> now)) \<and>
       cl_fence c = Suc (ob_fence r) \<and> ob_attempts r < cl_attempt c \<and>
       (\<exists>a \<in> set (bx_attempts b'). attempt_is (ob_id r) (cl_attempt c) (cl_fence c) a \<and> at_outcome a = At_claimed) \<and>
       (\<forall>a \<in> set (bx_attempts b). at_outboxId a = ob_id r \<longrightarrow> at_attempt a < cl_attempt c))"
proof (cases "length (dueRankingSql limit now org seen) = 0")
  case True
  then show ?thesis using assms(2) by (simp add: claimDue_def)
next
  case False
  define ids where "ids = dueRankingSql limit now org seen"
  have l: "lock_and_claim now locked ids b = (b', cs)" using assms(2) False by (simp add: claimDue_def ids_def)
  have ok: "rows_ok b" using outbox.reach_inv [OF assms(1)] by (simp add: outbox_inv_def)
  have "length cs \<le> limit" using claimDue_batch [OF ok assms(2)] by simp
  moreover have "\<exists>r \<in> set (bx_rows b). ob_id r = ob_id (cl_row c) \<and> ob_nextAttemptAt r \<le> now \<and>
       (\<exists>t. ob_expiresAt r = Some t \<and> now < t) \<and>
       (ob_state r = Ob_queued \<or> ob_state r = Ob_sending \<and> (\<exists>t. ob_leasedUntil r = Some t \<and> t \<le> now)) \<and>
       cl_fence c = Suc (ob_fence r) \<and> ob_attempts r < cl_attempt c \<and>
       (\<exists>a \<in> set (bx_attempts b'). attempt_is (ob_id r) (cl_attempt c) (cl_fence c) a \<and> at_outcome a = At_claimed) \<and>
       (\<forall>a \<in> set (bx_attempts b). at_outboxId a = ob_id r \<longrightarrow> at_attempt a < cl_attempt c)" if c: "c \<in> set cs" for c
  proof -
    obtain mine where mine: "mine = (\<lambda>r. ob_id r \<in> set ids \<and> \<not> locked (ob_id r) \<and> deliverable now r)"
      and att: "bx_attempts b' = bx_attempts b @ map (attempt_of now \<circ> claim_row now (bx_attempts b)) (filter mine (bx_rows b))"
      and cs: "cs = map (claim_of \<circ> claim_row now (bx_attempts b)) (filter mine (bx_rows b))"
      by (rule lock_and_claimE [OF l]) blast
    obtain r where r: "r \<in> set (bx_rows b)" "mine r" and cr: "c = claim_of (claim_row now (bx_attempts b) r)"
      using c by (auto simp: cs)
    have "deliverable now r" using r(2) by (simp add: mine)
    moreover have "ob_expiresAt r \<noteq> None" "ob_state r = Ob_sending \<longrightarrow> ob_leasedUntil r \<noteq> None"
      using ok r(1) by (auto simp: rows_ok_def)
    moreover have "attempt_of now (claim_row now (bx_attempts b) r) \<in> set (bx_attempts b')" using r by (simp add: att)
    moreover have "attempt_is (ob_id r) (cl_attempt c) (cl_fence c) (attempt_of now (claim_row now (bx_attempts b) r)) \<and>
        at_outcome (attempt_of now (claim_row now (bx_attempts b) r)) = At_claimed"
      by (simp add: cr attempt_is_def attempt_of_def claim_of_def)
    moreover have "ob_attempts r < cl_attempt c" by (simp add: cr claim_of_def claim_row_def)
    moreover have "at_attempt a < cl_attempt c" if "a \<in> set (bx_attempts b)" "at_outboxId a = ob_id r" for a
      using claim_row_attempts [OF that] by (simp add: cr claim_of_def)
    moreover have "ob_id r = ob_id (cl_row c)" "cl_fence c = Suc (ob_fence r)" by (simp_all add: cr claim_of_def)
    moreover have "ob_nextAttemptAt r \<le> now \<and> (\<exists>t. ob_expiresAt r = Some t \<and> now < t) \<and>
       (ob_state r = Ob_queued \<or> ob_state r = Ob_sending \<and> (\<exists>t. ob_leasedUntil r = Some t \<and> t \<le> now))"
      using calculation(1-3) by (auto simp: deliverable_def)
    ultimately show ?thesis by (intro bexI [OF _ r(1)]) blast
  qed
  ultimately show ?thesis by (intro conjI ballI) blast+
qed

theorem claims_leave_evidence_witness:
  "\<exists>b' c. claimDue 5 0 (\<lambda>_. False) None one_queued one_queued = (b', [c]) \<and>
     (\<exists>a \<in> set (bx_attempts b'). attempt_is 0 (cl_attempt c) (cl_fence c) a \<and> at_outcome a = At_claimed)"
proof -
  have "case claimDue 5 0 (\<lambda>_. False) None one_queued one_queued of (b', cs) \<Rightarrow> length cs = 1 \<and> ob_id (cl_row (hd cs)) = 0" by code_simp
  then obtain b' c where c: "claimDue 5 0 (\<lambda>_. False) None one_queued one_queued = (b', [c])" "ob_id (cl_row c) = 0"
    by (auto simp: length_Suc_conv split: prod.splits)
  then show ?thesis using claims_leave_evidence [OF one_queued_reached c(1)] by auto
qed

section \<open>Nothing is stuck\<close>



section \<open>Fairness\<close>

interpretation drain: fair_ranking ob_organizationId drain_key drain_tie ob_id
  by unfold_locales (simp add: drain_key_def)

lemma dueRankingSql_set:
  "set (dueRankingSql limit now org b) = ob_id ` snd ` set (take limit (ranking ob_organizationId drain_key drain_tie (due_rows now org b)))"
  by (force simp: dueRankingSql_def)

text \<open>
  the drain is fair. A due message with fewer of its own organization's messages ahead
  of it is never passed over for one with more, and when the batch has room for one
  message per waiting organization, each gets its oldest.
\<close>

theorem drain_is_fair:
  assumes "distinct (map ob_id (bx_rows b))" and "x \<in> set (due_rows now org b)"
  shows "(\<forall>y \<in> set (due_rows now org b). ahead ob_organizationId drain_key (due_rows now org b) x <
        ahead ob_organizationId drain_key (due_rows now org b) y \<and> ob_id y \<in> set (dueRankingSql limit now org b) \<longrightarrow>
        ob_id x \<in> set (dueRankingSql limit now org b)) \<and>
    (card (ob_organizationId ` set (due_rows now org b)) \<le> limit \<longrightarrow>
       (\<exists>y \<in> set (due_rows now org b). ob_organizationId y = ob_organizationId x \<and>
          (\<forall>z \<in> set (due_rows now org b). ob_organizationId z = ob_organizationId x \<longrightarrow> drain_key y \<le> drain_key z) \<and>
          ob_id y \<in> set (dueRankingSql limit now org b)))"
proof -
  have d: "distinct (map ob_id (due_rows now org b))" using assms(1) by (simp add: due_rows_def distinct_map_filter)
  show ?thesis
    unfolding dueRankingSql_set using drain.fair [OF d assms(2)] drain.starves_nobody [OF d _ assms(2)] by blast
qed

definition busy_outbox :: outbox where
  "busy_outbox = fst (enqueueMany 6 0
     [sample_message\<lparr>om_idempotencyKey := ''a1''\<rparr>, sample_message\<lparr>om_idempotencyKey := ''a2''\<rparr>,
      sample_message\<lparr>om_organizationId := ''small'', om_idempotencyKey := ''b1''\<rparr>] empty_outbox)"

theorem drain_is_fair_witness: "2 \<in> set (dueRankingSql 2 0 None busy_outbox)"
proof -
  have "case due_rows 0 None busy_outbox of [a, a', x] \<Rightarrow> map ob_id [a, a', x] = [0, 1, 2] \<and>
      map ob_organizationId [a, a', x] = [''org'', ''org'', ''small''] | _ \<Rightarrow> False"
    by code_simp
  then obtain a a' x where due: "due_rows 0 None busy_outbox = [a, a', x]" "ob_id x = 2" "ob_organizationId x = ''small''"
      "ob_organizationId a = ''org''" "ob_organizationId a' = ''org''" "ob_id a = 0" "ob_id a' = 1"
    by (auto split: list.splits)
  have "distinct (map ob_id (bx_rows busy_outbox))" by code_simp
  from drain_is_fair [OF this, of x 0 None 2] due show ?thesis by auto
qed

section \<open>What the comments do not say\<close>

text \<open>
  The attempt is spent at the claim so that a row whose workers keep dying reaches its
  budget. It does reach it, but nothing looks at it there: only a report compares the
  number with \<open>maxAttempts\<close>, so a row whose workers die is claimed past its budget until
  the horizon ends it.
\<close>

lemma crashing_workers_exceed_the_budget:
  "case lock_and_claim 700000 (\<lambda>_. False) [0] (fst one_claimed) of (b, cs) \<Rightarrow>
     reach nothing_queued (outbox_step \<lparr>rp_maxAttempts = 1, rp_horizonHours = 6\<rparr>) one_claimed \<and>
     map cl_attempt cs = [2]"
proof -
  let ?p = "\<lparr>rp_maxAttempts = 1, rp_horizonHours = 6\<rparr>"
  have e: "outbox_step ?p (empty_outbox, []) (one_queued, [])"
    using outbox_step.enqueued [of ?p empty_outbox "[]" 0 sample_message] by (simp add: one_queued_def)
  obtain b cs where l: "lock_and_claim 0 (\<lambda>_. False) [0] one_queued = (b, cs)" by (cases "lock_and_claim 0 (\<lambda>_. False) [0] one_queued")
  then have c: "outbox_step ?p (one_queued, []) one_claimed"
    using outbox_step.claimed [OF l, of ?p "[]"] by (simp add: one_claimed_def)
  have "reach nothing_queued (outbox_step ?p) (empty_outbox, [])"
    by (rule reach_init) (simp add: nothing_queued_def empty_outbox_def)
  then have "reach nothing_queued (outbox_step ?p) one_claimed" using e c reach_step by metis
  moreover have "map cl_attempt (snd (lock_and_claim 700000 (\<lambda>_. False) [0] (fst one_claimed))) = [2]" by code_simp
  ultimately show ?thesis by (simp add: split_beta)
qed

text \<open>
  \<open>failedFor\<close> is described as the messages that will never be delivered. A message that
  ran out of attempts or of time is one of them, and is not returned.
\<close>

lemma failedFor_misses_dead_letters:
  assumes "ob_state r = Ob_dead_letter \<or> ob_state r = Ob_expired"
  shows "r \<notin> set (failedFor organizationId since b)"
  using assms by (auto simp: failedFor_def)

end
