(* ===== verification/Conditions.thy ===== *)
theory Conditions
  imports Vigil_Prelude
begin

text \<open>
  The shared condition engine, \<open>src/modules/monitors/types/conditions.ts\<close>, over the
  data of \<open>types/contract.ts\<close>: facts, probe results and assertions. Every check
  type funnels through \<open>judge\<close>; the lemmas below characterise its verdict, its
  reason and the list of failed assertions completely, and the locale \<open>check_type\<close>
  states what a list of assertions owes the engine. The interpretations are in the
  theory of the check types.
\<close>

section \<open>Data\<close>

datatype fact_value = FStr string | FNum int | FBool bool | FNull

datatype fact = FOne fact_value | FList "fact_value list"

type_synonym fact_bag = "string \<rightharpoonup> fact"

text \<open>What a probe keeps of its own run. The engine never looks inside.\<close>

typedecl evidence

record probe_result =
  pr_facts :: fact_bag
  pr_responseTimeMs :: "int option"
  pr_error :: "string option"
  pr_unavailable :: "string option"
  pr_statusCode :: "int option"
  pr_evidence :: "evidence option"

datatype severity = SevDown | SevDegraded

record 'c assertion =
  as_id :: string
  as_fact :: string
  as_severity :: severity
  as_applies :: "('c \<Rightarrow> bool) option"
  as_evaluate :: "fact option \<Rightarrow> 'c \<Rightarrow> string option"

datatype failure_class = Transport | Assertion | Misconfigured

datatype verdict = VUp | VDegraded | VDown | VIndeterminate

record judgement =
  j_verdict :: verdict
  j_ok :: bool
  j_degraded :: bool
  j_failureClass :: "failure_class option"
  j_error :: "string option"
  j_failedAssertions :: "string list"

section \<open>The engine\<close>

text \<open>
  The loop over the assertions. The two accumulators are the source's \<open>failedDown\<close>
  and \<open>failedDegraded\<close>, each an (id, message) list in declaration order.
\<close>

fun judge_loop ::
  "'c assertion list \<Rightarrow> 'c \<Rightarrow> fact_bag \<Rightarrow> (string \<times> string) list \<Rightarrow> (string \<times> string) list
    \<Rightarrow> (string \<times> string) list \<times> (string \<times> string) list" where
  "judge_loop [] config facts failedDown failedDegraded = (failedDown, failedDegraded)"
| "judge_loop (a # as) config facts failedDown failedDegraded =
     (if (case as_applies a of None \<Rightarrow> False | Some ap \<Rightarrow> \<not> ap config)
      then judge_loop as config facts failedDown failedDegraded
      else (case as_evaluate a (facts (as_fact a)) config of
              None \<Rightarrow> judge_loop as config facts failedDown failedDegraded
            | Some message \<Rightarrow>
                (if as_severity a = SevDown
                 then judge_loop as config facts (failedDown @ [(as_id a, message)]) failedDegraded
                 else judge_loop as config facts failedDown
                        (failedDegraded @ [(as_id a, message)]))))"

definition judge :: "'c assertion list \<Rightarrow> 'c \<Rightarrow> probe_result \<Rightarrow> judgement" where
  "judge assertions config result =
     (if truthy (pr_unavailable result) then
        \<lparr>j_verdict = VIndeterminate, j_ok = False, j_degraded = False,
         j_failureClass = Some Misconfigured, j_error = pr_unavailable result,
         j_failedAssertions = []\<rparr>
      else if truthy (pr_error result) then
        \<lparr>j_verdict = VDown, j_ok = False, j_degraded = False,
         j_failureClass = Some Transport, j_error = pr_error result,
         j_failedAssertions = []\<rparr>
      else
        (let (failedDown, failedDegraded) = judge_loop assertions config (pr_facts result) [] [];
             failedAssertions = map fst (failedDown @ failedDegraded)
         in case failedDown of
              (_, message) # _ \<Rightarrow>
                \<lparr>j_verdict = VDown, j_ok = False, j_degraded = False,
                 j_failureClass = Some Assertion, j_error = Some message,
                 j_failedAssertions = failedAssertions\<rparr>
            | [] \<Rightarrow>
                (case failedDegraded of
                   (_, message) # _ \<Rightarrow>
                     \<lparr>j_verdict = VDegraded, j_ok = True, j_degraded = True,
                      j_failureClass = None, j_error = Some message,
                      j_failedAssertions = failedAssertions\<rparr>
                 | [] \<Rightarrow>
                     \<lparr>j_verdict = VUp, j_ok = True, j_degraded = False,
                      j_failureClass = None, j_error = None, j_failedAssertions = []\<rparr>)))"

text \<open>Reading one fact: \<open>typeof value === "number"\<close> and its kin.\<close>

fun as_num :: "fact option \<Rightarrow> int option" where
  "as_num (Some (FOne (FNum n))) = Some n"
| "as_num _ = None"

fun as_str :: "fact option \<Rightarrow> string option" where
  "as_str (Some (FOne (FStr s))) = Some s"
| "as_str _ = None"

definition numberFact :: "fact_bag \<Rightarrow> string \<Rightarrow> int option" where
  "numberFact facts key = as_num (facts key)"

fun list_strings :: "fact_value list \<Rightarrow> string list" where
  "list_strings [] = []"
| "list_strings (FStr s # vs) = s # list_strings vs"
| "list_strings (_ # vs) = list_strings vs"

definition listFact :: "fact_bag \<Rightarrow> string \<Rightarrow> string list" where
  "listFact facts key =
     (case facts key of
        Some (FList vs) \<Rightarrow> list_strings vs
      | Some (FOne (FStr s)) \<Rightarrow> [s]
      | _ \<Rightarrow> [])"

section \<open>The specification of a judgment\<close>

text \<open>
  An assertion is violated when it applies to the config and its evaluation of the
  fact it names yields a message.
\<close>

definition message_of :: "'c \<Rightarrow> fact_bag \<Rightarrow> 'c assertion \<Rightarrow> string option" where
  "message_of config facts a =
     (if (case as_applies a of None \<Rightarrow> True | Some ap \<Rightarrow> ap config)
      then as_evaluate a (facts (as_fact a)) config else None)"

definition violated :: "severity \<Rightarrow> 'c \<Rightarrow> fact_bag \<Rightarrow> 'c assertion list \<Rightarrow> 'c assertion list" where
  "violated sev config facts as =
     filter (\<lambda>a. as_severity a = sev \<and> message_of config facts a \<noteq> None) as"

definition failures :: "'c \<Rightarrow> fact_bag \<Rightarrow> 'c assertion list \<Rightarrow> (string \<times> string) list" where
  "failures config facts as = map (\<lambda>a. (as_id a, the (message_of config facts a))) as"

lemma judge_loop_violated:
  "judge_loop as config facts fd fg =
     (fd @ failures config facts (violated SevDown config facts as),
      fg @ failures config facts (violated SevDegraded config facts as))"
proof (induction as arbitrary: fd fg)
  case Nil
  show ?case by (simp add: failures_def violated_def)
next
  case (Cons a as)
  have sev: "as_severity a = SevDown \<or> as_severity a = SevDegraded"
    by (cases "as_severity a") auto
  show ?case
    using Cons.IH sev
    by (auto simp: failures_def violated_def message_of_def split: option.splits)
qed

lemma failures_Nil [simp]: "failures config facts as = [] \<longleftrightarrow> as = []"
  by (simp add: failures_def)

lemma map_fst_failures [simp]: "map fst (failures config facts as) = map as_id as"
  by (simp add: failures_def comp_def)

lemma mem_violated:
  "a \<in> set (violated s c facts as) \<longleftrightarrow>
     a \<in> set as \<and> as_severity a = s \<and> (\<exists>m. message_of c facts a = Some m)"
  by (auto simp: violated_def)

lemma message_hd_violated:
  assumes "violated s c facts as \<noteq> []"
  shows "\<exists>m. message_of c facts (hd (violated s c facts as)) = Some m"
  using hd_in_set [OF assms] by (simp add: mem_violated)

text \<open>
  The three answers that decide everything, in the order the engine asks them.
\<close>

lemma judge_unavailable:
  "truthy (pr_unavailable r) \<Longrightarrow>
   judge as c r = \<lparr>j_verdict = VIndeterminate, j_ok = False, j_degraded = False,
     j_failureClass = Some Misconfigured, j_error = pr_unavailable r, j_failedAssertions = []\<rparr>"
  by (simp add: judge_def)

lemma judge_transport:
  "\<not> truthy (pr_unavailable r) \<Longrightarrow> truthy (pr_error r) \<Longrightarrow>
   judge as c r = \<lparr>j_verdict = VDown, j_ok = False, j_degraded = False,
     j_failureClass = Some Transport, j_error = pr_error r, j_failedAssertions = []\<rparr>"
  by (simp add: judge_def)

lemma judge_measured:
  assumes "\<not> truthy (pr_unavailable r)" and "\<not> truthy (pr_error r)"
  shows "judge as c r =
    (let vd = violated SevDown c (pr_facts r) as; vg = violated SevDegraded c (pr_facts r) as
     in if vd \<noteq> [] then
          \<lparr>j_verdict = VDown, j_ok = False, j_degraded = False, j_failureClass = Some Assertion,
           j_error = message_of c (pr_facts r) (hd vd), j_failedAssertions = map as_id (vd @ vg)\<rparr>
        else if vg \<noteq> [] then
          \<lparr>j_verdict = VDegraded, j_ok = True, j_degraded = True, j_failureClass = None,
           j_error = message_of c (pr_facts r) (hd vg), j_failedAssertions = map as_id vg\<rparr>
        else
          \<lparr>j_verdict = VUp, j_ok = True, j_degraded = False, j_failureClass = None,
           j_error = None, j_failedAssertions = []\<rparr>)"
proof -
  have some_the: "x = Some (the x)" if "\<exists>m. x = Some m" for x :: "string option"
    using that by auto
  show ?thesis
  proof (cases "violated SevDown c (pr_facts r) as")
    case (Cons a vd)
    then have "\<exists>m. message_of c (pr_facts r) a = Some m"
      using message_hd_violated [of SevDown c "pr_facts r" as] by simp
    from some_the [OF this] show ?thesis
      using assms Cons
      by (simp add: judge_def judge_loop_violated failures_def comp_def)
  next
    case down: Nil
    show ?thesis
    proof (cases "violated SevDegraded c (pr_facts r) as")
      case (Cons a vg)
      then have "\<exists>m. message_of c (pr_facts r) a = Some m"
        using message_hd_violated [of SevDegraded c "pr_facts r" as] by simp
      from some_the [OF this] show ?thesis
        using assms Cons down
        by (simp add: judge_def judge_loop_violated failures_def comp_def)
    next
      case Nil
      with assms down show ?thesis
        by (simp add: judge_def judge_loop_violated failures_def)
    qed
  qed
qed

lemmas judge_cases = judge_unavailable judge_transport judge_measured

lemma judge_verdict:
  "j_verdict (judge as c r) =
     (if truthy (pr_unavailable r) then VIndeterminate
      else if truthy (pr_error r) \<or> violated SevDown c (pr_facts r) as \<noteq> [] then VDown
      else if violated SevDegraded c (pr_facts r) as \<noteq> [] then VDegraded
      else VUp)"
  by (cases "truthy (pr_unavailable r)"; cases "truthy (pr_error r)")
    (simp_all add: judge_cases Let_def)

lemma judge_failed:
  "j_failedAssertions (judge as c r) =
     (if truthy (pr_unavailable r) \<or> truthy (pr_error r) then []
      else map as_id (violated SevDown c (pr_facts r) as @ violated SevDegraded c (pr_facts r) as))"
  by (cases "truthy (pr_unavailable r)"; cases "truthy (pr_error r)")
    (simp_all add: judge_cases Let_def)

text \<open>What every judgment satisfies, whatever produced it.\<close>

definition judgment_wf :: "judgement \<Rightarrow> bool" where
  "judgment_wf j \<longleftrightarrow>
     (j_ok j \<longleftrightarrow> j_verdict j = VUp \<or> j_verdict j = VDegraded) \<and>
     (j_degraded j \<longleftrightarrow> j_verdict j = VDegraded) \<and>
     (j_failureClass j = None \<longleftrightarrow> j_ok j) \<and>
     (j_failureClass j = Some Misconfigured \<longleftrightarrow> j_verdict j = VIndeterminate) \<and>
     (j_error j = None \<longleftrightarrow> j_verdict j = VUp) \<and>
     (j_failedAssertions j \<noteq> [] \<longleftrightarrow> j_degraded j \<or> j_failureClass j = Some Assertion)"

lemma judge_wf: "judgment_wf (judge as c r)"
  using message_hd_violated [of SevDown c "pr_facts r" as]
    message_hd_violated [of SevDegraded c "pr_facts r" as]
  by (cases "truthy (pr_unavailable r)"; cases "truthy (pr_error r)")
    (auto simp: judge_cases judgment_wf_def Let_def)

section \<open>What a check type owes the engine\<close>

text \<open>
  The engine reports failed assertions by id, so a type's assertions must be named
  apart. Under that law the report identifies the violated assertions exactly.
\<close>

locale check_type =
  fixes assertions :: "'c assertion list"
  assumes ids_distinct: "distinct (map as_id assertions)"
begin

lemma ids_inj: "inj_on as_id (set assertions)"
  using ids_distinct by (simp add: distinct_map)

lemma violated_subset: "set (violated s c f assertions) \<subseteq> set assertions"
  by (simp add: violated_def)

lemma failed_distinct: "distinct (j_failedAssertions (judge assertions c r))"
proof -
  have "distinct (map as_id (violated s c f assertions))" for s f
    using ids_distinct unfolding violated_def by (rule distinct_map_filter)
  moreover have "as_id ` set (violated SevDown c f assertions) \<inter>
      as_id ` set (violated SevDegraded c f assertions) = {}" for f
  proof -
    have "set (violated SevDown c f assertions) \<inter> set (violated SevDegraded c f assertions) = {}"
      by (auto simp: mem_violated)
    then show ?thesis
      using inj_on_image_Int [OF ids_inj violated_subset violated_subset, of SevDown c f SevDegraded c f]
      by simp
  qed
  ultimately show ?thesis by (simp add: judge_failed)
qed

lemma failed_iff:
  assumes "\<not> truthy (pr_unavailable r)" and "\<not> truthy (pr_error r)" and "a \<in> set assertions"
  shows "as_id a \<in> set (j_failedAssertions (judge assertions c r)) \<longleftrightarrow>
    message_of c (pr_facts r) a \<noteq> None"
proof -
  have "as_id a \<in> as_id ` set (violated s c (pr_facts r) assertions) \<longleftrightarrow>
      a \<in> set (violated s c (pr_facts r) assertions)" for s
    by (rule inj_on_image_mem_iff [OF ids_inj assms(3) violated_subset])
  with assms show ?thesis
    by (cases "as_severity a") (auto simp: judge_failed mem_violated)
qed

lemma up_iff:
  "j_verdict (judge assertions c r) = VUp \<longleftrightarrow>
     \<not> truthy (pr_unavailable r) \<and> \<not> truthy (pr_error r) \<and>
     (\<forall>a \<in> set assertions. message_of c (pr_facts r) a = None)"
proof -
  have "violated SevDown c f assertions = [] \<and> violated SevDegraded c f assertions = [] \<longleftrightarrow>
      (\<forall>a \<in> set assertions. message_of c f a = None)" for f
    by (auto simp: violated_def filter_nil_iff) (metis severity.exhaust)
  from this [of "pr_facts r", symmetric] show ?thesis
    by (simp add: judge_verdict del: not_None_eq)
qed

end

end
