(* ===== verification/Docker_Restart.thy ===== *)
theory Docker_Restart
  imports Conditions
begin

text \<open>
  Restart-loop memory for the Docker check,
  \<open>src/modules/monitors/types/docker-restart.ts\<close>. The state is the record the source
  stores on the monitor row; \<open>assessDockerState\<close> is the comparison of one inspect
  with it. A sample's \<open>at\<close> is the value \<open>Date.parse\<close> gives for the stored ISO
  string, \<open>None\<close> when it does not parse.

  The lemmas: a first sample, another container, a count that went backwards and a
  gap longer than the window are baselines and never an alarm; the stored samples
  stay within \<open>MAX_SAMPLES\<close> with non-decreasing counts; over a whole history of
  samples the alarm is raised exactly when the count rose by the threshold inside
  the window; and the hold on resolving an incident is released by a clean \<open>up\<close> only.
\<close>

section \<open>State\<close>

definition DEFAULT_RESTART_LOOP_THRESHOLD :: int where
  "DEFAULT_RESTART_LOOP_THRESHOLD = 3"

definition DEFAULT_RESTART_LOOP_WINDOW_MINUTES :: int where
  "DEFAULT_RESTART_LOOP_WINDOW_MINUTES = 10"

definition MAX_SAMPLES :: nat where
  "MAX_SAMPLES = 2000"

definition UNHEALTHY_DOWN_REASON :: string where
  "UNHEALTHY_DOWN_REASON = ''The container's healthcheck is failing''"

record docker_sample =
  ds_at :: "date option"
  ds_count :: int

record docker_check_state =
  dk_containerId :: "string option"
  dk_samples :: "docker_sample list"
  dk_holdResolve :: bool

definition restartLoopReason :: "int \<Rightarrow> int \<Rightarrow> string" where
  "restartLoopReason restarts windowMinutes =
     ''restart loop: '' @ show_int restarts @ '' restarts in '' @ show_int windowMinutes @ '' min''"

record assess_input =
  ai_now :: date
  ai_containerId :: "string option"
  ai_restartCount :: "int option"
  ai_enabled :: bool
  ai_threshold :: int
  ai_windowMinutes :: int
  ai_previous :: "docker_check_state option"

section \<open>The comparison\<close>

definition last_sample :: "docker_check_state option \<Rightarrow> docker_sample option" where
  "last_sample previous =
     (case previous of
        None \<Rightarrow> None
      | Some p \<Rightarrow> if dk_samples p = [] then None else Some (last (dk_samples p)))"

text \<open>\<open>xs.slice(-n)\<close>: the last \<open>n\<close> elements.\<close>

definition slice_last :: "nat \<Rightarrow> 'a list \<Rightarrow> 'a list" where
  "slice_last n xs = drop (length xs - n) xs"

definition in_window :: "date \<Rightarrow> docker_sample \<Rightarrow> bool" where
  "in_window cutoff s \<longleftrightarrow> (case ds_at s of None \<Rightarrow> False | Some t \<Rightarrow> cutoff \<le> t)"

definition assessDockerState :: "assess_input \<Rightarrow> docker_check_state \<times> string option" where
  "assessDockerState input =
     (let previous = ai_previous input;
          holdResolve = (case previous of None \<Rightarrow> False | Some p \<Rightarrow> dk_holdResolve p)
      in case (ai_containerId input, ai_restartCount input) of
           (Some cid, Some rc) \<Rightarrow>
             (let baseline = (\<lparr>dk_containerId = Some cid,
                               dk_samples = [\<lparr>ds_at = Some (ai_now input), ds_count = rc\<rparr>],
                               dk_holdResolve = holdResolve\<rparr>, None)
              in case (previous, last_sample previous) of
                   (Some p, Some prior) \<Rightarrow>
                     (if \<not> (dk_containerId p = Some cid \<and> ds_count prior \<le> rc) then baseline
                      else
                        (let cutoff = ai_now input - ai_windowMinutes input * 60000
                         in if \<not> in_window cutoff prior then baseline
                            else
                              (let kept = filter (in_window cutoff) (dk_samples p);
                                   samples = slice_last MAX_SAMPLES
                                     (kept @ [\<lparr>ds_at = Some (ai_now input), ds_count = rc\<rparr>]);
                                   increase = (case samples of [] \<Rightarrow> 0 | oldest # _ \<Rightarrow> rc - ds_count oldest);
                                   reason = (if ai_enabled input \<and> ai_threshold input \<le> increase
                                             then Some (restartLoopReason increase (ai_windowMinutes input))
                                             else None)
                               in (\<lparr>dk_containerId = Some cid, dk_samples = samples,
                                    dk_holdResolve = holdResolve\<rparr>, reason))))
                 | _ \<Rightarrow> baseline)
         | _ \<Rightarrow>
             ((case previous of
                 Some p \<Rightarrow> p
               | None \<Rightarrow> \<lparr>dk_containerId = None, dk_samples = [], dk_holdResolve = holdResolve\<rparr>),
              None))"

definition nextHoldResolve :: "bool \<Rightarrow> verdict \<Rightarrow> bool \<Rightarrow> bool \<Rightarrow> bool" where
  "nextHoldResolve previous v restartLoop unhealthyDown =
     (if v = VUp then False
      else if v = VDown \<and> (restartLoop \<or> unhealthyDown) then True
      else previous)"

definition dockerIncidentLines :: "fact_bag \<Rightarrow> string list \<Rightarrow> string list" where
  "dockerIncidentLines facts failedAssertions =
     (case as_str (facts ''restartLoop'') of
        Some loop \<Rightarrow> if loop \<noteq> [] then [loop] else []
      | None \<Rightarrow> []) @
     (if ''health-down'' \<in> set failedAssertions then [UNHEALTHY_DOWN_REASON] else [])"

section \<open>Baselines never alarm\<close>

lemma slice_last_length: "length (slice_last n xs) \<le> n"
  by (simp add: slice_last_def)

lemma slice_last_id: "length xs \<le> n \<Longrightarrow> slice_last n xs = xs"
  by (simp add: slice_last_def)

lemma slice_last_snoc: "0 < n \<Longrightarrow> \<exists>ys. slice_last n (xs @ [x]) = ys @ [x]"
  by (auto simp: slice_last_def)

lemma sorted_slice_last: "sorted (map f xs) \<Longrightarrow> sorted (map f (slice_last n xs))"
  by (simp add: slice_last_def drop_map [symmetric] sorted_wrt_drop)

text \<open>
  The inspect is compared with the stored samples, and not recorded as a baseline,
  when it is of the same container, its count did not go backwards and the last
  sample is not older than the window.
\<close>

definition window_start :: "assess_input \<Rightarrow> date" where
  "window_start i = ai_now i - ai_windowMinutes i * 60000"

definition comparable :: "assess_input \<Rightarrow> docker_check_state \<Rightarrow> string \<Rightarrow> int \<Rightarrow> bool" where
  "comparable i p cid rc \<longleftrightarrow>
     ai_previous i = Some p \<and> dk_samples p \<noteq> [] \<and> dk_containerId p = Some cid \<and>
     ds_count (last (dk_samples p)) \<le> rc \<and> in_window (window_start i) (last (dk_samples p))"

definition kept_samples :: "assess_input \<Rightarrow> docker_check_state \<Rightarrow> docker_sample list" where
  "kept_samples i p = filter (in_window (window_start i)) (dk_samples p)"

lemma kept_nonempty: "comparable i p cid rc \<Longrightarrow> kept_samples i p \<noteq> []"
  by (auto simp: kept_samples_def comparable_def filter_nil_iff)

lemma assess_comparable:
  assumes "ai_containerId i = Some cid" and "ai_restartCount i = Some rc"
    and "comparable i p cid rc"
  shows "assessDockerState i =
    (let samples = slice_last MAX_SAMPLES
           (kept_samples i p @ [\<lparr>ds_at = Some (ai_now i), ds_count = rc\<rparr>]);
         increase = rc - ds_count (hd samples)
     in (\<lparr>dk_containerId = Some cid, dk_samples = samples, dk_holdResolve = dk_holdResolve p\<rparr>,
         if ai_enabled i \<and> ai_threshold i \<le> increase
         then Some (restartLoopReason increase (ai_windowMinutes i)) else None))"
proof -
  obtain ys where "slice_last MAX_SAMPLES
      (kept_samples i p @ [\<lparr>ds_at = Some (ai_now i), ds_count = rc\<rparr>]) =
    ys @ [\<lparr>ds_at = Some (ai_now i), ds_count = rc\<rparr>]"
    using slice_last_snoc [of MAX_SAMPLES] by (fastforce simp: MAX_SAMPLES_def)
  then show ?thesis
    using assms
    by (cases ys)
      (simp_all add: comparable_def assessDockerState_def last_sample_def window_start_def
        kept_samples_def Let_def)
qed

lemma assess_baseline:
  assumes "ai_containerId i = Some cid" and "ai_restartCount i = Some rc"
    and "\<not> (\<exists>p. comparable i p cid rc)"
  shows "assessDockerState i =
    (\<lparr>dk_containerId = Some cid, dk_samples = [\<lparr>ds_at = Some (ai_now i), ds_count = rc\<rparr>],
      dk_holdResolve = (case ai_previous i of None \<Rightarrow> False | Some p \<Rightarrow> dk_holdResolve p)\<rparr>, None)"
proof (cases "ai_previous i")
  case None
  with assms show ?thesis by (simp add: assessDockerState_def Let_def)
next
  case (Some p)
  with assms(3) have "\<not> comparable i p cid rc" by blast
  with assms Some show ?thesis
    by (auto simp: comparable_def assessDockerState_def last_sample_def window_start_def Let_def)
qed

lemma assess_unread:
  assumes "ai_containerId i = None \<or> ai_restartCount i = None"
  shows "assessDockerState i =
    (case ai_previous i of
       Some p \<Rightarrow> (p, None)
     | None \<Rightarrow> (\<lparr>dk_containerId = None, dk_samples = [], dk_holdResolve = False\<rparr>, None))"
  using assms by (cases "ai_containerId i") (auto simp: assessDockerState_def Let_def split: option.splits)

lemma assess_hold:
  "dk_holdResolve (fst (assessDockerState i)) =
     (case ai_previous i of None \<Rightarrow> False | Some p \<Rightarrow> dk_holdResolve p)"
proof (cases "ai_containerId i = None \<or> ai_restartCount i = None")
  case True
  then show ?thesis by (simp add: assess_unread split: option.splits)
next
  case False
  then obtain cid rc where read: "ai_containerId i = Some cid" "ai_restartCount i = Some rc"
    by auto
  show ?thesis
  proof (cases "\<exists>p. comparable i p cid rc")
    case True
    then obtain p where cmp: "comparable i p cid rc" ..
    then show ?thesis
      using assess_comparable [OF read cmp] by (simp add: Let_def comparable_def)
  next
    case False
    then show ?thesis by (simp add: assess_baseline [OF read])
  qed
qed

lemma assess_reason_nonempty:
  assumes "snd (assessDockerState i) = Some reason"
  shows "reason \<noteq> []"
proof -
  have "restartLoopReason a b \<noteq> []" for a b by (simp add: restartLoopReason_def)
  with assms show ?thesis
    by (auto simp: assessDockerState_def Let_def split: option.splits if_splits list.splits)
qed

section \<open>The stored memory\<close>

definition docker_state_wf :: "docker_check_state \<Rightarrow> bool" where
  "docker_state_wf d \<longleftrightarrow>
     length (dk_samples d) \<le> MAX_SAMPLES \<and>
     sorted (map ds_count (dk_samples d)) \<and>
     (dk_containerId d \<noteq> None \<longrightarrow> dk_samples d \<noteq> [])"

lemma assess_wf:
  assumes wf: "\<And>p. ai_previous i = Some p \<Longrightarrow> docker_state_wf p"
  shows "docker_state_wf (fst (assessDockerState i))"
proof (cases "ai_containerId i = None \<or> ai_restartCount i = None")
  case True
  then show ?thesis
    using wf by (cases "ai_previous i") (auto simp: assess_unread docker_state_wf_def)
next
  case False
  then obtain cid rc where read: "ai_containerId i = Some cid" "ai_restartCount i = Some rc"
    by auto
  show ?thesis
  proof (cases "\<exists>p. comparable i p cid rc")
    case True
    then obtain p where cmp: "comparable i p cid rc" ..
    let ?s = "\<lparr>ds_at = Some (ai_now i), ds_count = rc\<rparr>"
    have "sorted (map ds_count (dk_samples p @ [?s]))"
      using cmp wf [of p] by (intro sorted_snoc_last) (auto simp: comparable_def docker_state_wf_def)
    then have "sorted (map ds_count (kept_samples i p @ [?s]))"
      by (auto simp: kept_samples_def sorted_append sorted_filter)
    then show ?thesis
      using slice_last_snoc [of MAX_SAMPLES "kept_samples i p" ?s] slice_last_length [of MAX_SAMPLES]
      by (auto simp: assess_comparable [OF read cmp] Let_def docker_state_wf_def
          sorted_slice_last MAX_SAMPLES_def)
  next
    case False
    then show ?thesis
      by (simp add: assess_baseline [OF read] docker_state_wf_def MAX_SAMPLES_def)
  qed
qed

section \<open>A whole history of inspects\<close>

text \<open>
  The worker's use of the function: each inspect of one container is assessed
  against the state the previous one stored.
\<close>

fun docker_history ::
  "string \<Rightarrow> bool \<Rightarrow> int \<Rightarrow> int \<Rightarrow> docker_check_state option \<Rightarrow> (date \<times> int) list
    \<Rightarrow> docker_check_state option \<times> string option" where
  "docker_history cid enabled threshold windowMinutes st [] = (st, None)"
| "docker_history cid enabled threshold windowMinutes st ((now, rc) # rest) =
     (let (st', reason) = assessDockerState
            \<lparr>ai_now = now, ai_containerId = Some cid, ai_restartCount = Some rc,
             ai_enabled = enabled, ai_threshold = threshold, ai_windowMinutes = windowMinutes,
             ai_previous = st\<rparr>
      in if rest = [] then (Some st', reason)
         else docker_history cid enabled threshold windowMinutes (Some st') rest)"

definition sample_of :: "date \<times> int \<Rightarrow> docker_sample" where
  "sample_of x = \<lparr>ds_at = Some (fst x), ds_count = snd x\<rparr>"

text \<open>The samples of a history that are inside the window ending at its last one.\<close>

definition recent_part :: "int \<Rightarrow> (date \<times> int) list \<Rightarrow> (date \<times> int) list" where
  "recent_part windowMinutes xs =
     filter (\<lambda>x. fst (last xs) - windowMinutes * 60000 \<le> fst x) xs"

definition inspect ::
  "string \<Rightarrow> bool \<Rightarrow> int \<Rightarrow> int \<Rightarrow> docker_check_state option \<Rightarrow> date \<times> int \<Rightarrow> assess_input" where
  "inspect cid enabled threshold windowMinutes st x =
     \<lparr>ai_now = fst x, ai_containerId = Some cid, ai_restartCount = Some (snd x),
      ai_enabled = enabled, ai_threshold = threshold, ai_windowMinutes = windowMinutes,
      ai_previous = st\<rparr>"

lemma docker_history_snoc:
  "docker_history cid e th w st (xs @ [x]) =
     map_prod Some id
       (assessDockerState (inspect cid e th w (fst (docker_history cid e th w st xs)) x))"
  by (cases x, induction xs arbitrary: st) (auto simp: inspect_def split: prod.splits)

lemma inspect_read:
  "ai_containerId (inspect cid e th w st x) = Some cid"
  "ai_restartCount (inspect cid e th w st x) = Some (snd x)"
  by (simp_all add: inspect_def)

lemma inspect_fields [simp]:
  "ai_now (inspect cid e th w st x) = fst x"
  "ai_previous (inspect cid e th w st x) = st"
  "ai_enabled (inspect cid e th w st x) = e"
  "ai_threshold (inspect cid e th w st x) = th"
  "ai_windowMinutes (inspect cid e th w st x) = w"
  "window_start (inspect cid e th w st x) = fst x - w * 60000"
  by (simp_all add: inspect_def window_start_def)

lemma in_window_sample_of [simp]: "in_window c (sample_of x) \<longleftrightarrow> c \<le> fst x"
  by (simp add: in_window_def sample_of_def)

lemma ds_count_sample_of [simp]: "ds_count (sample_of x) = snd x"
  by (simp add: sample_of_def)

lemma sample_of_fold [simp]: "\<lparr>ds_at = Some (fst x), ds_count = snd x\<rparr> = sample_of x"
  by (simp add: sample_of_def)

lemma recent_part_snoc:
  assumes "sorted (map fst (xs @ [x]))" and "xs \<noteq> []" and "0 \<le> w"
  shows "recent_part w (xs @ [x]) =
    filter (\<lambda>y. fst x - w * 60000 \<le> fst y) (recent_part w xs) @ [x]"
proof -
  have "fst (last xs) \<le> fst x" using assms(1,2) by (auto simp: sorted_append)
  then have "fst x - w * 60000 \<le> fst y \<Longrightarrow> fst (last xs) - w * 60000 \<le> fst y" for y :: "int \<times> int"
    by simp
  with assms(3) show ?thesis
    by (auto simp: recent_part_def intro!: filter_cong)
qed

lemma recent_part_last: "0 \<le> w \<Longrightarrow> xs \<noteq> [] \<Longrightarrow> last (recent_part w xs) = last xs"
  by (simp add: recent_part_def last_filter)

lemma recent_part_nonempty: "0 \<le> w \<Longrightarrow> xs \<noteq> [] \<Longrightarrow> recent_part w xs \<noteq> []"
  by (auto simp: recent_part_def filter_nil_iff intro!: bexI [of _ "last xs"])

text \<open>
  One inspect keeps the invariant that the stored samples are the recent part of
  what has been seen, and its answer is the rise over that recent part.
\<close>

definition remembers :: "string \<Rightarrow> int \<Rightarrow> (date \<times> int) list \<Rightarrow> docker_check_state \<Rightarrow> bool" where
  "remembers cid w xs d \<longleftrightarrow>
     dk_containerId d = Some cid \<and> dk_samples d = map sample_of (recent_part w xs)"

definition rise_reason ::
  "bool \<Rightarrow> int \<Rightarrow> int \<Rightarrow> (date \<times> int) list \<Rightarrow> string option" where
  "rise_reason e th w xs =
     (let increase = snd (last xs) - snd (hd (recent_part w xs))
      in if e \<and> th \<le> increase then Some (restartLoopReason increase w) else None)"

lemma inspect_first:
  assumes "0 \<le> w" and "0 < th"
  shows "\<exists>d. assessDockerState (inspect cid e th w None x) = (d, rise_reason e th w [x]) \<and>
    remembers cid w [x] d"
  using assms assess_baseline [OF inspect_read, of cid e th w None x]
  by (simp add: comparable_def remembers_def recent_part_def rise_reason_def)

lemma inspect_next:
  assumes srt: "sorted (map fst (xs @ [x]))" "sorted (map snd (xs @ [x]))"
    and xs: "xs \<noteq> []" "length (xs @ [x]) \<le> MAX_SAMPLES" and w: "0 \<le> w" and th: "0 < th"
    and rem: "remembers cid w xs d"
  shows "\<exists>d'. assessDockerState (inspect cid e th w (Some d) x) = (d', rise_reason e th w (xs @ [x])) \<and>
    remembers cid w (xs @ [x]) d'"
proof -
  let ?i = "inspect cid e th w (Some d) x"
  note rp = recent_part_snoc [OF srt(1) xs(1) w]
  have lst: "last (dk_samples d) = sample_of (last xs)" "dk_samples d \<noteq> []"
    using rem w xs(1) by (simp_all add: remembers_def last_map recent_part_nonempty recent_part_last)
  have "snd (last xs) \<le> snd x" using srt(2) xs(1) by (auto simp: sorted_append)
  with lst rem have cmp: "comparable ?i p cid (snd x) \<longleftrightarrow> p = d \<and> fst x - w * 60000 \<le> fst (last xs)" for p
    by (auto simp: comparable_def remembers_def)
  show ?thesis
  proof (cases "fst x - w * 60000 \<le> fst (last xs)")
    case True
    have kept: "kept_samples ?i d @ [sample_of x] = map sample_of (recent_part w (xs @ [x]))"
      using rem by (simp add: kept_samples_def remembers_def rp filter_map comp_def)
    have "length (recent_part w (xs @ [x])) \<le> MAX_SAMPLES"
      using xs(2) unfolding recent_part_def by (rule le_trans [OF length_filter_le])
    moreover have "hd (map sample_of (recent_part w (xs @ [x]))) = sample_of (hd (recent_part w (xs @ [x])))"
      by (rule hd_map) (simp add: rp)
    ultimately show ?thesis
      using assess_comparable [OF inspect_read, of cid e th w "Some d" x d] True
      by (simp add: cmp kept slice_last_id Let_def remembers_def rise_reason_def)
  next
    case False
    then have "filter (\<lambda>y. fst x - w * 60000 \<le> fst y) (recent_part w xs) = []"
      using srt(1) sorted_map_last [of fst xs]
      by (fastforce simp: filter_nil_iff recent_part_def sorted_append)
    with False th show ?thesis
      using assess_baseline [OF inspect_read, of cid e th w "Some d" x]
      by (simp add: cmp remembers_def rise_reason_def rp)
  qed
qed

lemma docker_history_remembers:
  assumes "sorted (map fst xs)" and "sorted (map snd xs)" and "xs \<noteq> []"
    and "length xs \<le> MAX_SAMPLES" and "0 \<le> w" and "0 < th"
  shows "\<exists>d. docker_history cid e th w None xs = (Some d, rise_reason e th w xs) \<and> remembers cid w xs d"
  using assms
proof (induction xs rule: rev_induct)
  case Nil
  then show ?case by simp
next
  case (snoc x xs)
  show ?case
  proof (cases "xs = []")
    case True
    then show ?thesis
      using inspect_first [OF snoc.prems(5,6), of cid e x] docker_history_snoc [of cid e th w None "[]" x]
      by auto
  next
    case False
    with snoc obtain d where "fst (docker_history cid e th w None xs) = Some d" "remembers cid w xs d"
      by (auto simp: sorted_append)
    with inspect_next [OF snoc.prems(1,2) False snoc.prems(4-6), of cid d e] show ?thesis
      by (auto simp: docker_history_snoc)
  qed
qed

text \<open>
  The rise over the recent part is the largest rise from any sample in the window,
  because counts do not fall.
\<close>

lemma rise_reason_iff:
  assumes "sorted (map snd xs)" and "xs \<noteq> []" and "0 \<le> w"
  shows "rise_reason e th w xs \<noteq> None \<longleftrightarrow>
    e \<and> (\<exists>y \<in> set xs. fst (last xs) - w * 60000 \<le> fst y \<and> th \<le> snd (last xs) - snd y)"
proof -
  have ne: "recent_part w xs \<noteq> []" by (rule recent_part_nonempty [OF assms(3,2)])
  have srt: "sorted (map snd (recent_part w xs))"
    using assms(1) by (simp add: recent_part_def sorted_filter)
  have "(\<exists>y \<in> set (recent_part w xs). th \<le> snd (last xs) - snd y) \<longleftrightarrow>
      th \<le> snd (last xs) - snd (hd (recent_part w xs))"
    using ne sorted_map_hd [OF srt] by (fastforce intro: bexI [of _ "hd (recent_part w xs)"])
  moreover have "rise_reason e th w xs \<noteq> None \<longleftrightarrow>
      e \<and> th \<le> snd (last xs) - snd (hd (recent_part w xs))"
    by (simp add: rise_reason_def Let_def)
  moreover have "y \<in> set (recent_part w xs) \<longleftrightarrow>
      y \<in> set xs \<and> fst (last xs) - w * 60000 \<le> fst y" for y
    by (auto simp: recent_part_def)
  ultimately show ?thesis by blast
qed

text \<open>
  over any history of inspects of one container, in time order and with counts
  that never fall, the last inspect raises the alarm exactly when the check is
  enabled and the count rose by at least the threshold from some earlier inspect
  inside the window; in particular the first inspect never alarms.
\<close>

theorem restart_loop_iff:
  assumes "sorted (map fst xs)" and "sorted (map snd xs)" and "xs \<noteq> []"
    and "length xs \<le> MAX_SAMPLES" and "0 \<le> windowMinutes" and "0 < threshold"
  shows "snd (docker_history cid enabled threshold windowMinutes None xs) \<noteq> None \<longleftrightarrow>
    enabled \<and> (\<exists>y \<in> set xs. fst (last xs) - windowMinutes * 60000 \<le> fst y \<and>
      threshold \<le> snd (last xs) - snd y)"
proof -
  obtain d where "docker_history cid enabled threshold windowMinutes None xs =
      (Some d, rise_reason enabled threshold windowMinutes xs)"
    using docker_history_remembers [OF assms] by blast
  then show ?thesis
    using rise_reason_iff [OF assms(2,3,5)] by simp
qed

theorem restart_loop_iff_witness:
  "snd (docker_history ''c'' True 3 10 None [(0, 400), (60000, 401), (120000, 403)]) \<noteq> None \<and>
   snd (docker_history ''c'' True 3 10 None [(0, 400)]) = None"
  using restart_loop_iff [of "[(0, 400), (60000, 401), (120000, 403)]" 10 3 "''c''" True]
    restart_loop_iff [of "[(0, 400)]" 10 3 "''c''" True]
  by (simp add: MAX_SAMPLES_def)

section \<open>The hold on resolving\<close>

text \<open>
  The hold over a sequence of judged checks: (verdict, restart loop, unhealthy
  counted as down).
\<close>

definition hold_run :: "bool \<Rightarrow> (verdict \<times> bool \<times> bool) list \<Rightarrow> bool" where
  "hold_run = foldl (\<lambda>hold (v, loop, unhealthy). nextHoldResolve hold v loop unhealthy)"

lemma hold_run_persists:
  assumes "\<forall>(v, loop, unhealthy) \<in> set cs. v \<noteq> VUp"
  shows "hold_run True cs"
  using assms unfolding hold_run_def
  by (induction cs) (auto simp: nextHoldResolve_def)

end
