(* ===== verification/Check_Types.thy ===== *)
theory Check_Types
  imports Docker_Restart
begin

text \<open>
  The check types whose judgement is pure: \<open>types/specs/http.ts\<close>, \<open>tcp.ts\<close>, \<open>push.ts\<close>,
  \<open>manual.ts\<close>, \<open>group.ts\<close>, \<open>docker.ts\<close> and the assertions of \<open>shared.ts\<close>. Each type is
  its config record, its assertion list and, for the kinds that dial nothing, the
  function that turns stored state into facts (\<open>observe\<close>, \<open>derive\<close>, \<open>declare\<close>). Every
  assertion list is an instance of the locale \<open>check_type\<close>. The lemmas give the
  verdict of each type in the operator's terms.
\<close>

section \<open>The monitor row as a check type sees it\<close>

datatype http_method = GET | HEAD

record monitor_row_view =
  rv_checkType :: string
  rv_url :: string
  rv_port :: "int option"
  rv_method :: http_method
  rv_intervalSeconds :: int
  rv_timeoutMs :: int
  rv_degradedThresholdMs :: int
  rv_expectedStatusCode :: "int option"
  rv_bodyKeyword :: "string option"
  rv_keywordAbsent :: bool
  rv_tlsCheck :: bool
  rv_tlsWarnDays :: int
  rv_config :: json

datatype monitor_status = SUp | SDown | SDegraded | SUnknown

section \<open>Assertions several types share\<close>

definition latencyAssertion :: "('c \<Rightarrow> int) \<Rightarrow> string \<Rightarrow> 'c assertion" where
  "latencyAssertion threshold label =
     \<lparr>as_id = ''latency'', as_fact = ''responseTimeMs'', as_severity = SevDegraded,
      as_applies = None,
      as_evaluate = (\<lambda>value config.
        case as_num value of
          None \<Rightarrow> None
        | Some v \<Rightarrow>
            if threshold config < v
            then Some (label @ '' in '' @ show_int v @ ''ms, over the ''
                       @ show_int (threshold config) @ ''ms threshold'')
            else None)\<rparr>"

definition plural_days :: "int \<Rightarrow> string" where
  "plural_days n = (if n = 1 then ''day'' else ''days'')"

definition expiryAssertions :: "('c \<Rightarrow> int) \<Rightarrow> string \<Rightarrow> 'c assertion list" where
  "expiryAssertions warnDays subject =
     [\<lparr>as_id = ''not-expired'', as_fact = ''daysRemaining'', as_severity = SevDown,
       as_applies = None,
       as_evaluate = (\<lambda>value config.
         case as_num value of
           None \<Rightarrow> None
         | Some v \<Rightarrow>
             if 0 < v then None
             else if v = 0 then Some (''The '' @ subject @ '' expires today'')
             else Some (''The '' @ subject @ '' expired '' @ show_int \<bar>v\<bar> @ '' ''
                        @ plural_days \<bar>v\<bar> @ '' ago''))\<rparr>,
      \<lparr>as_id = ''expiring-soon'', as_fact = ''daysRemaining'', as_severity = SevDegraded,
       as_applies = None,
       as_evaluate = (\<lambda>value config.
         case as_num value of
           None \<Rightarrow> None
         | Some v \<Rightarrow>
             if v \<le> 0 then None
             else if v < warnDays config
             then Some (''The '' @ subject @ '' expires in '' @ show_int v @ '' '' @ plural_days v)
             else None)\<rparr>]"

section \<open>HTTP\<close>

record http_config =
  hc_method :: http_method
  hc_expectedStatusCode :: "int option"
  hc_degradedThresholdMs :: int
  hc_bodyKeyword :: "string option"
  hc_keywordAbsent :: bool
  hc_tlsCheck :: bool
  hc_tlsWarnDays :: int

definition evaluateKeyword :: "string \<Rightarrow> bool \<Rightarrow> string \<Rightarrow> string option" where
  "evaluateKeyword keyword absent body =
     (let present = str_includes body keyword
      in if absent
         then (if present then Some (''Body unexpectedly contains \"'' @ keyword @ ''\"'') else None)
         else (if present then None else Some (''Body does not contain \"'' @ keyword @ ''\"'')))"

definition http_status_assertion :: "http_config assertion" where
  "http_status_assertion =
     \<lparr>as_id = ''status'', as_fact = ''statusCode'', as_severity = SevDown, as_applies = None,
      as_evaluate = (\<lambda>value config.
        case as_num value of
          None \<Rightarrow> Some ''No status code in the response''
        | Some v \<Rightarrow>
            (let holds = (case hc_expectedStatusCode config of
                            Some e \<Rightarrow> v = e
                          | None \<Rightarrow> 200 \<le> v \<and> v \<le> 399)
             in if holds then None else Some (''Unexpected status '' @ show_int v)))\<rparr>"

definition http_keyword_assertion :: "http_config assertion" where
  "http_keyword_assertion =
     \<lparr>as_id = ''keyword'', as_fact = ''keywordPresent'', as_severity = SevDown,
      as_applies = Some (\<lambda>config. hc_bodyKeyword config \<noteq> None \<and> hc_method config = GET),
      as_evaluate = (\<lambda>value config.
        (let keyword = (case hc_bodyKeyword config of None \<Rightarrow> [] | Some k \<Rightarrow> k);
             present = (value = Some (FOne (FBool True)))
         in if hc_keywordAbsent config
            then (if present then Some (''Body unexpectedly contains \"'' @ keyword @ ''\"'') else None)
            else (if present then None else Some (''Body does not contain \"'' @ keyword @ ''\"''))))\<rparr>"

definition http_tls_assertion :: "http_config assertion" where
  "http_tls_assertion =
     \<lparr>as_id = ''tls-expiry'', as_fact = ''tlsDaysRemaining'', as_severity = SevDegraded,
      as_applies = Some hc_tlsCheck,
      as_evaluate = (\<lambda>value config.
        case as_num value of
          None \<Rightarrow> None
        | Some v \<Rightarrow>
            if v < hc_tlsWarnDays config
            then Some (''TLS certificate expires in '' @ show_int v @ '' '' @ plural_days v)
            else None)\<rparr>"

definition http_assertions :: "http_config assertion list" where
  "http_assertions =
     [http_status_assertion, http_keyword_assertion,
      latencyAssertion hc_degradedThresholdMs ''Responded'', http_tls_assertion]"

text \<open>\<open>url.toLowerCase().startsWith("https:")\<close>, on the ASCII letters a scheme can hold.\<close>

definition lower :: "char \<Rightarrow> char" where
  "lower c = (if CHR ''A'' \<le> c \<and> c \<le> CHR ''Z'' then char_of (of_char c + (32::nat)) else c)"

definition http_fromRow :: "monitor_row_view \<Rightarrow> http_config" where
  "http_fromRow row =
     \<lparr>hc_method = rv_method row,
      hc_expectedStatusCode = rv_expectedStatusCode row,
      hc_degradedThresholdMs = rv_degradedThresholdMs row,
      hc_bodyKeyword = rv_bodyKeyword row,
      hc_keywordAbsent = rv_keywordAbsent row,
      hc_tlsCheck = (rv_tlsCheck row \<and> take 6 (map lower (rv_url row)) = ''https:''),
      hc_tlsWarnDays = rv_tlsWarnDays row\<rparr>"

section \<open>TCP\<close>

record tcp_config =
  tc_degradedThresholdMs :: int

definition tcp_assertions :: "tcp_config assertion list" where
  "tcp_assertions = [latencyAssertion tc_degradedThresholdMs ''Connected'']"

definition tcp_fromRow :: "monitor_row_view \<Rightarrow> tcp_config" where
  "tcp_fromRow row = \<lparr>tc_degradedThresholdMs = rv_degradedThresholdMs row\<rparr>"

section \<open>Push heartbeats\<close>

record push_config =
  pc_token :: string
  pc_graceSeconds :: int
  pc_intervalSeconds :: int
  pc_degradedThresholdMs :: int

definition heartbeatDeadlineSeconds :: "push_config \<Rightarrow> int" where
  "heartbeatDeadlineSeconds config = pc_intervalSeconds config + pc_graceSeconds config"

definition describeSeconds :: "int \<Rightarrow> string" where
  "describeSeconds seconds =
     (if seconds < 120 then show_int seconds @ ''s''
      else if seconds < 7200 then show_int (js_round_div seconds 60) @ '' minutes''
      else show_int (js_round_div seconds 3600) @ '' hours'')"

definition heartbeatOverdue :: "push_config assertion" where
  "heartbeatOverdue =
     \<lparr>as_id = ''heartbeat-overdue'', as_fact = ''secondsSinceHeartbeat'', as_severity = SevDown,
      as_applies = None,
      as_evaluate = (\<lambda>value config.
        case as_num value of
          None \<Rightarrow> None
        | Some v \<Rightarrow>
            (let deadline = heartbeatDeadlineSeconds config
             in if v \<le> deadline then None
                else Some (''No heartbeat for '' @ describeSeconds v @ ''; one was due within ''
                           @ describeSeconds deadline)))\<rparr>"

definition reportedFailure :: "push_config assertion" where
  "reportedFailure =
     \<lparr>as_id = ''reported-failure'', as_fact = ''reportedStatus'', as_severity = SevDown,
      as_applies = None,
      as_evaluate = (\<lambda>value config.
        if value = Some (FOne (FStr ''down'')) then Some ''The last heartbeat reported a failure''
        else None)\<rparr>"

definition push_assertions :: "push_config assertion list" where
  "push_assertions =
     [heartbeatOverdue, reportedFailure, latencyAssertion pc_degradedThresholdMs ''The job finished'']"

definition DEFAULT_HEARTBEAT_GRACE_SECONDS :: int where
  "DEFAULT_HEARTBEAT_GRACE_SECONDS = 30"

text \<open>
  \<open>fromRow\<close>: the stored blob goes through a zod schema, a parameter here
  (\<open>safeParse\<close>, the token and the grace period it accepted); \<open>newPushToken\<close> is the
  platform's random generator.
\<close>

definition push_fromRow ::
  "(json \<Rightarrow> (string \<times> int) option) \<Rightarrow> string \<Rightarrow> monitor_row_view \<Rightarrow> push_config" where
  "push_fromRow safeParse newPushToken row =
     (let stored = safeParse (if rv_config row = JNull then JObj [] else rv_config row)
      in \<lparr>pc_token = (case stored of Some (t, _) \<Rightarrow> t | None \<Rightarrow> newPushToken),
          pc_graceSeconds = (case stored of Some (_, g) \<Rightarrow> g | None \<Rightarrow> DEFAULT_HEARTBEAT_GRACE_SECONDS),
          pc_intervalSeconds = rv_intervalSeconds row,
          pc_degradedThresholdMs = rv_degradedThresholdMs row\<rparr>)"

datatype reported_status = ReportedUp | ReportedDown

fun reported_text :: "reported_status \<Rightarrow> string" where
  "reported_text ReportedUp = ''up''"
| "reported_text ReportedDown = ''down''"

record heartbeat_report =
  hr_status :: reported_status
  hr_message :: "string option"
  hr_responseTimeMs :: "int option"

definition opt_num :: "int option \<Rightarrow> fact" where
  "opt_num x = FOne (case x of None \<Rightarrow> FNull | Some n \<Rightarrow> FNum n)"

definition opt_str :: "string option \<Rightarrow> fact" where
  "opt_str x = FOne (case x of None \<Rightarrow> FNull | Some s \<Rightarrow> FStr s)"

definition seconds_since :: "date option \<Rightarrow> date \<Rightarrow> date \<Rightarrow> int" where
  "seconds_since lastHeartbeatAt since now =
     max 0 ((now - (case lastHeartbeatAt of Some t \<Rightarrow> t | None \<Rightarrow> since)) div 1000)"

definition push_observe ::
  "push_config \<Rightarrow> date option \<Rightarrow> heartbeat_report option \<Rightarrow> date \<Rightarrow> date \<Rightarrow> probe_result" where
  "push_observe config lastHeartbeatAt reported since now =
     (let secondsSinceHeartbeat = seconds_since lastHeartbeatAt since now;
          reportedTime = (case reported of None \<Rightarrow> None | Some r \<Rightarrow> hr_responseTimeMs r);
          facts = [''heartbeatReceived'' \<mapsto> FOne (FBool (lastHeartbeatAt \<noteq> None)),
                   ''secondsSinceHeartbeat'' \<mapsto> FOne (FNum secondsSinceHeartbeat),
                   ''reportedStatus'' \<mapsto> opt_str (map_option (reported_text \<circ> hr_status) reported),
                   ''reportedMessage'' \<mapsto> opt_str (case reported of None \<Rightarrow> None | Some r \<Rightarrow> hr_message r),
                   ''responseTimeMs'' \<mapsto> opt_num reportedTime]
      in if lastHeartbeatAt = None \<and> secondsSinceHeartbeat \<le> heartbeatDeadlineSeconds config
         then \<lparr>pr_facts = facts, pr_responseTimeMs = None, pr_error = None,
               pr_unavailable = Some (''Waiting for the first heartbeat. Point your job at this ''
                 @ ''monitor's push endpoint.''),
               pr_statusCode = None, pr_evidence = None\<rparr>
         else \<lparr>pr_facts = facts, pr_responseTimeMs = reportedTime, pr_error = None,
               pr_unavailable = None, pr_statusCode = None, pr_evidence = None\<rparr>)"

section \<open>Manual monitors\<close>

datatype manual_status = ManualUp | ManualDegraded | ManualDown

fun manual_text :: "manual_status \<Rightarrow> string" where
  "manual_text ManualUp = ''up''"
| "manual_text ManualDegraded = ''degraded''"
| "manual_text ManualDown = ''down''"

record manual_config =
  mc_status :: manual_status
  mc_note :: "string option"

definition withNote :: "string \<Rightarrow> string option \<Rightarrow> string" where
  "withNote sentence note = (case note of None \<Rightarrow> sentence | Some n \<Rightarrow> sentence @ '': '' @ n)"

definition declaredDown :: "manual_config assertion" where
  "declaredDown =
     \<lparr>as_id = ''declared-down'', as_fact = ''declaredStatus'', as_severity = SevDown,
      as_applies = None,
      as_evaluate = (\<lambda>value config.
        if value \<noteq> Some (FOne (FStr ''down'')) then None
        else Some (withNote ''An operator marked this monitor down'' (mc_note config)))\<rparr>"

definition declaredDegraded :: "manual_config assertion" where
  "declaredDegraded =
     \<lparr>as_id = ''declared-degraded'', as_fact = ''declaredStatus'', as_severity = SevDegraded,
      as_applies = None,
      as_evaluate = (\<lambda>value config.
        if value \<noteq> Some (FOne (FStr ''degraded'')) then None
        else Some (withNote ''An operator marked this monitor degraded'' (mc_note config)))\<rparr>"

definition manual_assertions :: "manual_config assertion list" where
  "manual_assertions = [declaredDown, declaredDegraded]"

definition manual_fromRow ::
  "(json \<Rightarrow> manual_config option) \<Rightarrow> monitor_row_view \<Rightarrow> manual_config" where
  "manual_fromRow safeParse row =
     (case safeParse (if rv_config row = JNull then JObj [] else rv_config row) of
        Some stored \<Rightarrow> stored
      | None \<Rightarrow> \<lparr>mc_status = ManualUp, mc_note = None\<rparr>)"

definition manual_declare :: "manual_config \<Rightarrow> probe_result" where
  "manual_declare config =
     \<lparr>pr_facts = [''declaredStatus'' \<mapsto> FOne (FStr (manual_text (mc_status config))),
                  ''declaredNote'' \<mapsto> opt_str (mc_note config)],
      pr_responseTimeMs = None, pr_error = None, pr_unavailable = None,
      pr_statusCode = None, pr_evidence = None\<rparr>"

section \<open>Groups\<close>

record child_state =
  ch_id :: string
  ch_name :: string
  ch_status :: monitor_status
  ch_paused :: bool
  ch_intervalSeconds :: int

text \<open>\<open>SEVERITY_ORDER.indexOf(status)\<close> for \<open>["down", "degraded", "unknown", "up"]\<close>.\<close>

fun severity_index :: "monitor_status \<Rightarrow> nat" where
  "severity_index SDown = 0"
| "severity_index SDegraded = 1"
| "severity_index SUnknown = 2"
| "severity_index SUp = 3"

definition countedMembers :: "child_state list \<Rightarrow> child_state list" where
  "countedMembers children = filter (\<lambda>c. \<not> ch_paused c) children"

definition anyMemberDown :: "unit assertion" where
  "anyMemberDown =
     \<lparr>as_id = ''member-down'', as_fact = ''downMembers'', as_severity = SevDown, as_applies = None,
      as_evaluate = (\<lambda>value _.
        case as_num value of
          None \<Rightarrow> None
        | Some v \<Rightarrow>
            if v = 0 then None
            else if v = 1 then Some ''One member is down''
            else Some (show_int v @ '' members are down''))\<rparr>"

definition anyMemberDegraded :: "unit assertion" where
  "anyMemberDegraded =
     \<lparr>as_id = ''member-degraded'', as_fact = ''degradedMembers'', as_severity = SevDegraded,
      as_applies = None,
      as_evaluate = (\<lambda>value _.
        case as_num value of
          None \<Rightarrow> None
        | Some v \<Rightarrow>
            if v = 0 then None
            else if v = 1 then Some ''One member is degraded''
            else Some (show_int v @ '' members are degraded''))\<rparr>"

definition group_assertions :: "unit assertion list" where
  "group_assertions = [anyMemberDown, anyMemberDegraded]"

definition count_status :: "monitor_status \<Rightarrow> child_state list \<Rightarrow> int" where
  "count_status st cs = int (length (filter (\<lambda>c. ch_status c = st) cs))"

definition group_derive :: "child_state list \<Rightarrow> probe_result" where
  "group_derive children =
     (let counted = countedMembers children
      in if counted = [] then
           \<lparr>pr_facts = [''memberCount'' \<mapsto> FOne (FNum 0), ''downMembers'' \<mapsto> FOne (FNum 0),
                        ''degradedMembers'' \<mapsto> FOne (FNum 0), ''unmeasuredMembers'' \<mapsto> FOne (FNum 0),
                        ''worstMember'' \<mapsto> FOne FNull, ''memberIntervalSeconds'' \<mapsto> FOne FNull],
            pr_responseTimeMs = None, pr_error = None,
            pr_unavailable = Some (if children = [] then ''This group has no members yet.''
                                   else ''Every member of this group is paused.''),
            pr_statusCode = None, pr_evidence = None\<rparr>
         else
           (let unmeasuredMembers = count_status SUnknown counted;
                worst = hd (sort_key (\<lambda>c. severity_index (ch_status c)) counted)
            in \<lparr>pr_facts = [''memberCount'' \<mapsto> FOne (FNum (int (length counted))),
                            ''downMembers'' \<mapsto> FOne (FNum (count_status SDown counted)),
                            ''degradedMembers'' \<mapsto> FOne (FNum (count_status SDegraded counted)),
                            ''unmeasuredMembers'' \<mapsto> FOne (FNum unmeasuredMembers),
                            ''worstMember'' \<mapsto> FOne (FStr (ch_name worst)),
                            ''memberIntervalSeconds'' \<mapsto>
                              FOne (FNum (Max (set (map ch_intervalSeconds counted))))],
                pr_responseTimeMs = None, pr_error = None,
                pr_unavailable = (if unmeasuredMembers = int (length counted)
                                  then Some ''No member of this group has been measured yet.''
                                  else None),
                pr_statusCode = None, pr_evidence = None\<rparr>))"

section \<open>Docker containers\<close>

record docker_config =
  dc_containerName :: "string option"
  dc_socketPath :: string
  dc_degradedThresholdMs :: int
  dc_restartLoopEnabled :: bool
  dc_restartLoopThreshold :: int
  dc_restartLoopWindowMinutes :: int
  dc_unhealthyIsDown :: bool

definition docker_isRunning :: "docker_config assertion" where
  "docker_isRunning =
     \<lparr>as_id = ''running'', as_fact = ''running'', as_severity = SevDown, as_applies = None,
      as_evaluate = (\<lambda>value config.
        if value = Some (FOne (FBool True)) then None
        else if value = Some (FOne (FBool False))
        then Some ((case dc_containerName config of None \<Rightarrow> ''The container'' | Some n \<Rightarrow> n)
                   @ '' is not running'')
        else Some ''The daemon reported no state for this container'')\<rparr>"

definition unhealthy :: "fact option \<Rightarrow> docker_config \<Rightarrow> string option" where
  "unhealthy value config =
     (if value = Some (FOne (FStr ''unhealthy'')) then Some UNHEALTHY_DOWN_REASON else None)"

definition unhealthyDown :: "docker_config assertion" where
  "unhealthyDown =
     \<lparr>as_id = ''health-down'', as_fact = ''health'', as_severity = SevDown,
      as_applies = Some dc_unhealthyIsDown, as_evaluate = unhealthy\<rparr>"

definition unhealthyDegraded :: "docker_config assertion" where
  "unhealthyDegraded =
     \<lparr>as_id = ''health'', as_fact = ''health'', as_severity = SevDegraded,
      as_applies = Some (\<lambda>c. \<not> dc_unhealthyIsDown c), as_evaluate = unhealthy\<rparr>"

definition restartLoop :: "docker_config assertion" where
  "restartLoop =
     \<lparr>as_id = ''restart-loop'', as_fact = ''restartLoop'', as_severity = SevDown, as_applies = None,
      as_evaluate = (\<lambda>value config.
        case as_str value of
          Some s \<Rightarrow> if s \<noteq> [] then Some s else None
        | None \<Rightarrow> None)\<rparr>"

definition docker_assertions :: "docker_config assertion list" where
  "docker_assertions =
     [docker_isRunning, restartLoop, unhealthyDown, unhealthyDegraded,
      latencyAssertion dc_degradedThresholdMs ''Answered'']"

section \<open>Every type meets the engine's contract\<close>

lemmas assertion_defs =
  http_status_assertion_def http_keyword_assertion_def http_tls_assertion_def
  latencyAssertion_def heartbeatOverdue_def reportedFailure_def declaredDown_def
  declaredDegraded_def anyMemberDown_def anyMemberDegraded_def docker_isRunning_def
  unhealthyDown_def unhealthyDegraded_def restartLoop_def expiryAssertions_def

lemmas assertion_lists =
  http_assertions_def tcp_assertions_def push_assertions_def manual_assertions_def
  group_assertions_def docker_assertions_def

interpretation http: check_type http_assertions
  by unfold_locales (simp add: assertion_lists assertion_defs)

interpretation tcp: check_type tcp_assertions
  by unfold_locales (simp add: assertion_lists assertion_defs)

interpretation push: check_type push_assertions
  by unfold_locales (simp add: assertion_lists assertion_defs)

interpretation manual: check_type manual_assertions
  by unfold_locales (simp add: assertion_lists assertion_defs)

interpretation grp: check_type group_assertions
  by unfold_locales (simp add: assertion_lists assertion_defs)

interpretation docker: check_type docker_assertions
  by unfold_locales (simp add: assertion_lists assertion_defs)

interpretation expiry: check_type "expiryAssertions warnDays subject" for warnDays subject
  by unfold_locales (simp add: assertion_lists assertion_defs)

section \<open>When each assertion is violated\<close>

definition over :: "fact option \<Rightarrow> int \<Rightarrow> bool" where
  "over value limit \<longleftrightarrow> (\<exists>v. as_num value = Some v \<and> limit < v)"

lemma over_num: "over (Some (FOne (FNum v))) limit \<longleftrightarrow> limit < v"
  by (simp add: over_def)

definition http_status_ok :: "http_config \<Rightarrow> fact_bag \<Rightarrow> bool" where
  "http_status_ok c facts \<longleftrightarrow>
     (\<exists>v. as_num (facts ''statusCode'') = Some v \<and>
        (case hc_expectedStatusCode c of Some e \<Rightarrow> v = e | None \<Rightarrow> 200 \<le> v \<and> v \<le> 399))"

definition http_keyword_ok :: "http_config \<Rightarrow> fact_bag \<Rightarrow> bool" where
  "http_keyword_ok c facts \<longleftrightarrow>
     hc_bodyKeyword c = None \<or> hc_method c = HEAD \<or>
     (facts ''keywordPresent'' = Some (FOne (FBool True))) \<noteq> hc_keywordAbsent c"

definition http_tls_ok :: "http_config \<Rightarrow> fact_bag \<Rightarrow> bool" where
  "http_tls_ok c facts \<longleftrightarrow>
     (hc_tlsCheck c \<longrightarrow>
       \<not> (\<exists>v. as_num (facts ''tlsDaysRemaining'') = Some v \<and> v < hc_tlsWarnDays c))"

named_theorems messages "when an assertion yields a message"

lemma severities [messages]:
  "as_severity http_status_assertion = SevDown"
  "as_severity http_keyword_assertion = SevDown"
  "as_severity http_tls_assertion = SevDegraded"
  "as_severity (latencyAssertion thr l) = SevDegraded"
  "as_severity heartbeatOverdue = SevDown"
  "as_severity reportedFailure = SevDown"
  "as_severity declaredDown = SevDown"
  "as_severity declaredDegraded = SevDegraded"
  "as_severity anyMemberDown = SevDown"
  "as_severity anyMemberDegraded = SevDegraded"
  "as_severity docker_isRunning = SevDown"
  "as_severity restartLoop = SevDown"
  "as_severity unhealthyDown = SevDown"
  "as_severity unhealthyDegraded = SevDegraded"
  by (simp_all add: assertion_defs)

lemma msg_latency [messages]:
  "message_of c f (latencyAssertion thr l) = None \<longleftrightarrow> \<not> over (f ''responseTimeMs'') (thr c)"
  by (auto simp: message_of_def latencyAssertion_def over_def split: option.splits)

lemma msg_http_status [messages]:
  "message_of c f http_status_assertion = None \<longleftrightarrow> http_status_ok c f"
  by (auto simp: message_of_def http_status_assertion_def http_status_ok_def Let_def
      split: option.splits)

lemma msg_http_keyword [messages]:
  "message_of c f http_keyword_assertion = None \<longleftrightarrow> http_keyword_ok c f"
  by (cases "hc_method c")
    (auto simp: message_of_def http_keyword_assertion_def http_keyword_ok_def Let_def)

lemma msg_http_tls [messages]:
  "message_of c f http_tls_assertion = None \<longleftrightarrow> http_tls_ok c f"
  by (auto simp: message_of_def http_tls_assertion_def http_tls_ok_def split: option.splits)

lemma msg_push [messages]:
  "message_of c f heartbeatOverdue = None \<longleftrightarrow>
     \<not> over (f ''secondsSinceHeartbeat'') (heartbeatDeadlineSeconds c)"
  "message_of c f reportedFailure = None \<longleftrightarrow> f ''reportedStatus'' \<noteq> Some (FOne (FStr ''down''))"
  by (auto simp: message_of_def heartbeatOverdue_def reportedFailure_def over_def Let_def not_le
      split: option.splits)

lemma msg_manual [messages]:
  "message_of c f declaredDown = None \<longleftrightarrow> f ''declaredStatus'' \<noteq> Some (FOne (FStr ''down''))"
  "message_of c f declaredDegraded = None \<longleftrightarrow> f ''declaredStatus'' \<noteq> Some (FOne (FStr ''degraded''))"
  by (simp_all add: message_of_def declaredDown_def declaredDegraded_def)

lemma msg_group [messages]:
  "message_of c f anyMemberDown = None \<longleftrightarrow> as_num (f ''downMembers'') \<in> {None, Some 0}"
  "message_of c f anyMemberDegraded = None \<longleftrightarrow> as_num (f ''degradedMembers'') \<in> {None, Some 0}"
  by (auto simp: message_of_def anyMemberDown_def anyMemberDegraded_def split: option.splits)

lemma msg_docker [messages]:
  "message_of c f docker_isRunning = None \<longleftrightarrow> f ''running'' = Some (FOne (FBool True))"
  "message_of c f restartLoop = None \<longleftrightarrow> \<not> truthy (as_str (f ''restartLoop''))"
  "message_of c f unhealthyDown = None \<longleftrightarrow>
     \<not> dc_unhealthyIsDown c \<or> f ''health'' \<noteq> Some (FOne (FStr ''unhealthy''))"
  "message_of c f unhealthyDegraded = None \<longleftrightarrow>
     dc_unhealthyIsDown c \<or> f ''health'' \<noteq> Some (FOne (FStr ''unhealthy''))"
  by (auto simp: message_of_def docker_isRunning_def restartLoop_def unhealthyDown_def
      unhealthyDegraded_def unhealthy_def split: option.splits)

section \<open>The verdict of each type\<close>

lemma count_status_zero: "count_status st cs = 0 \<longleftrightarrow> (\<forall>c \<in> set cs. ch_status c \<noteq> st)"
  by (simp add: count_status_def filter_nil_iff)

lemma count_status_all:
  "count_status st cs = int (length cs) \<longleftrightarrow> (\<forall>c \<in> set cs. ch_status c = st)"
  by (simp add: count_status_def length_filter_all)

text \<open>The verdict over a list of assertions, one violation at a time.\<close>

lemma violated_simps [messages]:
  "violated s c f [] = []"
  "violated s c f (a # as) =
     (if as_severity a = s \<and> message_of c f a \<noteq> None then a # violated s c f as
      else violated s c f as)"
  by (simp_all add: violated_def)

lemma group_facts:
  fixes children
  defines "counted \<equiv> countedMembers children"
  shows "pr_error (group_derive children) = None"
    and "pr_facts (group_derive children) ''downMembers'' = Some (FOne (FNum (count_status SDown counted)))"
    and "pr_facts (group_derive children) ''degradedMembers'' =
      Some (FOne (FNum (count_status SDegraded counted)))"
    and "truthy (pr_unavailable (group_derive children)) \<longleftrightarrow> (\<forall>c \<in> set counted. ch_status c = SUnknown)"
  by (simp_all add: group_derive_def counted_def Let_def count_status_all)
    (simp_all add: count_status_def)

text \<open>
  a group is down when a counted member is down, degraded when one is degraded
  and none is down, up when a member is up and none is down or degraded, and
  unmeasured when no counted member establishes a state; the answer depends on the
  set of members only, not on their order.
\<close>

theorem group_verdict:
  "j_verdict (judge group_assertions () (group_derive children)) =
     (let counted = {c \<in> set children. \<not> ch_paused c}
      in if \<forall>c \<in> counted. ch_status c = SUnknown then VIndeterminate
         else if \<exists>c \<in> counted. ch_status c = SDown then VDown
         else if \<exists>c \<in> counted. ch_status c = SDegraded then VDegraded
         else VUp)"
proof -
  have counted: "{c \<in> set children. \<not> ch_paused c} = set (countedMembers children)"
    by (auto simp: countedMembers_def)
  show ?thesis
    unfolding counted judge_verdict group_assertions_def
    by (simp add: messages group_facts count_status_zero Let_def del: not_None_eq)
qed

theorem group_verdict_witness:
  "j_verdict (judge group_assertions () (group_derive
     [\<lparr>ch_id = ''api'', ch_name = ''api'', ch_status = SUp, ch_paused = False, ch_intervalSeconds = 60\<rparr>,
      \<lparr>ch_id = ''db'', ch_name = ''db'', ch_status = SDown, ch_paused = False, ch_intervalSeconds = 300\<rparr>,
      \<lparr>ch_id = ''old'', ch_name = ''old'', ch_status = SDown, ch_paused = True, ch_intervalSeconds = 900\<rparr>])) = VDown"
  by (simp add: group_verdict Let_def conj_disj_distribR ex_disj_distrib imp_conjL all_conj_distrib)

lemma hd_sort_key:
  assumes "xs \<noteq> []"
  shows "hd (sort_key f xs) = hd (filter (\<lambda>x. f x = Min (f ` set xs)) xs)"
proof -
  let ?k = "Min (f ` set xs)" and ?ys = "sort_key f xs"
  have ne: "?ys \<noteq> []" using assms by (metis length_0_conv length_sort)
  have mem: "hd ?ys \<in> set xs" using hd_in_set [OF ne] by simp
  have "f (hd ?ys) \<le> f y" if "y \<in> set xs" for y
    using that by (intro sorted_map_hd) simp_all
  with mem have "f (hd ?ys) = ?k"
    by (intro Min_eqI [symmetric]) auto
  then have "hd (filter (\<lambda>x. f x = ?k) ?ys) = hd ?ys"
    using ne by (cases ?ys) auto
  then show ?thesis by (simp add: sort_key_stable)
qed

text \<open>
  the member a group names on the timeline is the first, in creation order, of
  the counted members with the worst status, and its cadence is the slowest counted
  member's.
\<close>

theorem group_worst_member:
  assumes "countedMembers children \<noteq> []"
  shows "pr_facts (group_derive children) ''worstMember'' =
      Some (FOne (FStr (ch_name (hd (filter
        (\<lambda>c. severity_index (ch_status c) =
          Min ((\<lambda>m. severity_index (ch_status m)) ` set (countedMembers children)))
        (countedMembers children)))))) \<and>
    (\<exists>n. numberFact (pr_facts (group_derive children)) ''memberIntervalSeconds'' = Some n \<and>
      (\<forall>c \<in> set (countedMembers children). ch_intervalSeconds c \<le> n) \<and>
      (\<exists>c \<in> set (countedMembers children). ch_intervalSeconds c = n))"
proof -
  let ?cs = "countedMembers children"
  have "Max (ch_intervalSeconds ` set ?cs) \<in> ch_intervalSeconds ` set ?cs"
    using assms by (intro Max_in) simp_all
  then obtain c where "c \<in> set ?cs" "ch_intervalSeconds c = Max (ch_intervalSeconds ` set ?cs)"
    by auto
  then show ?thesis
    using assms hd_sort_key [OF assms, of "\<lambda>c. severity_index (ch_status c)"]
    by (auto simp: group_derive_def Let_def numberFact_def)
qed

theorem group_worst_member_witness:
  "pr_facts (group_derive
     [\<lparr>ch_id = ''api'', ch_name = ''api'', ch_status = SUp, ch_paused = False, ch_intervalSeconds = 60\<rparr>,
      \<lparr>ch_id = ''db'', ch_name = ''db'', ch_status = SDown, ch_paused = False, ch_intervalSeconds = 300\<rparr>,
      \<lparr>ch_id = ''old'', ch_name = ''old'', ch_status = SDown, ch_paused = True, ch_intervalSeconds = 900\<rparr>]) ''worstMember'' =
   Some (FOne (FStr ''db''))"
  using group_worst_member [of "[\<lparr>ch_id = ''api'', ch_name = ''api'', ch_status = SUp, ch_paused = False, ch_intervalSeconds = 60\<rparr>,
      \<lparr>ch_id = ''db'', ch_name = ''db'', ch_status = SDown, ch_paused = False, ch_intervalSeconds = 300\<rparr>,
      \<lparr>ch_id = ''old'', ch_name = ''old'', ch_status = SDown, ch_paused = True, ch_intervalSeconds = 900\<rparr>]"]
  by (simp add: countedMembers_def)

lemma push_facts:
  "pr_error (push_observe c b r s n) = None"
  "truthy (pr_unavailable (push_observe c b r s n)) \<longleftrightarrow>
     b = None \<and> seconds_since None s n \<le> heartbeatDeadlineSeconds c"
  "pr_facts (push_observe c b r s n) ''secondsSinceHeartbeat'' = Some (FOne (FNum (seconds_since b s n)))"
  "pr_facts (push_observe c b r s n) ''reportedStatus'' =
     Some (opt_str (map_option (reported_text \<circ> hr_status) r))"
  "pr_facts (push_observe c b r s n) ''responseTimeMs'' =
     Some (opt_num (case r of None \<Rightarrow> None | Some x \<Rightarrow> hr_responseTimeMs x))"
  by (cases b; simp add: push_observe_def Let_def)+

text \<open>
  a push monitor is pending until the first heartbeat is overdue, down when the
  silence exceeds the deadline or the last beat reported a failure, degraded when
  the job took longer than its threshold, and up otherwise.
\<close>

theorem push_verdict:
  "j_verdict (judge push_assertions config (push_observe config lastBeat reported since now)) =
     (let silence = seconds_since lastBeat since now; deadline = heartbeatDeadlineSeconds config
      in if lastBeat = None \<and> silence \<le> deadline then VIndeterminate
         else if deadline < silence \<or> map_option hr_status reported = Some ReportedDown then VDown
         else if \<exists>r ms. reported = Some r \<and> hr_responseTimeMs r = Some ms \<and>
                pc_degradedThresholdMs config < ms then VDegraded
         else VUp)"
proof -
  have rt: "reported_text s = ''down'' \<longleftrightarrow> s = ReportedDown" for s by (cases s) simp_all
  have st: "opt_str (map_option (reported_text \<circ> hr_status) reported) = FOne (FStr ''down'') \<longleftrightarrow>
      map_option hr_status reported = Some ReportedDown"
    by (cases reported) (simp_all add: opt_str_def rt)
  have tm: "over (Some (opt_num (case reported of None \<Rightarrow> None | Some x \<Rightarrow> hr_responseTimeMs x))) k \<longleftrightarrow>
      (\<exists>r ms. reported = Some r \<and> hr_responseTimeMs r = Some ms \<and> k < ms)" for k
    by (cases reported; cases "hr_responseTimeMs (the reported)") (simp_all add: opt_num_def over_def)
  define late slow failed where "late = (heartbeatDeadlineSeconds config < seconds_since lastBeat since now)"
    and "slow = (\<exists>r ms. reported = Some r \<and> hr_responseTimeMs r = Some ms \<and>
      pc_degradedThresholdMs config < ms)"
    and "failed = (map_option hr_status reported = Some ReportedDown)"
  then show ?thesis
    unfolding judge_verdict push_assertions_def Let_def
    by (cases lastBeat; cases late; cases slow; cases failed)
      (simp_all add: messages push_facts st tm over_num del: not_None_eq ex_simps map_option_eq_Some)
qed

text \<open>
  a manual monitor's verdict is the status the operator declared.
\<close>

theorem manual_verdict:
  "j_verdict (judge manual_assertions config (manual_declare config)) =
     (case mc_status config of ManualUp \<Rightarrow> VUp | ManualDegraded \<Rightarrow> VDegraded | ManualDown \<Rightarrow> VDown)"
  unfolding judge_verdict manual_assertions_def
  by (cases "mc_status config") (simp_all add: messages manual_declare_def del: not_None_eq)

text \<open>
  an HTTP check that measured something is down exactly when the status code is
  missing or not the expected one, or the keyword rule is broken on a GET; degraded
  when it is merely slow or its certificate is about to expire.
\<close>

theorem http_verdict:
  assumes "\<not> truthy (pr_unavailable r)" and "\<not> truthy (pr_error r)"
  shows "j_verdict (judge http_assertions c r) =
    (if \<not> http_status_ok c (pr_facts r) \<or> \<not> http_keyword_ok c (pr_facts r) then VDown
     else if over (pr_facts r ''responseTimeMs'') (hc_degradedThresholdMs c) \<or>
       \<not> http_tls_ok c (pr_facts r) then VDegraded
     else VUp)"
  unfolding judge_verdict http_assertions_def
  using assms by (simp add: messages del: not_None_eq)

theorem http_verdict_witness:
  "j_verdict (judge http_assertions
     \<lparr>hc_method = GET, hc_expectedStatusCode = None, hc_degradedThresholdMs = 1000, hc_bodyKeyword = None,
       hc_keywordAbsent = False, hc_tlsCheck = True, hc_tlsWarnDays = 14\<rparr>
     \<lparr>pr_facts = [''statusCode'' \<mapsto> FOne (FNum 503), ''responseTimeMs'' \<mapsto> FOne (FNum 40)],
       pr_responseTimeMs = Some 40, pr_error = None, pr_unavailable = None, pr_statusCode = None, pr_evidence = None\<rparr>) = VDown"
  using http_verdict [of
     "\<lparr>pr_facts = [''statusCode'' \<mapsto> FOne (FNum 503), ''responseTimeMs'' \<mapsto> FOne (FNum 40)],
       pr_responseTimeMs = Some 40, pr_error = None, pr_unavailable = None, pr_statusCode = None, pr_evidence = None\<rparr>"
     "\<lparr>hc_method = GET, hc_expectedStatusCode = None, hc_degradedThresholdMs = 1000, hc_bodyKeyword = None,
       hc_keywordAbsent = False, hc_tlsCheck = True, hc_tlsWarnDays = 14\<rparr>"]
  by (simp add: truthy_def http_status_ok_def)

text \<open>
  a container check that reached its daemon is down exactly when the container is
  not running, a restart loop was found, or it is unhealthy and that counts as down;
  an unhealthy container is degraded when it does not.
\<close>

theorem docker_verdict:
  assumes "\<not> truthy (pr_unavailable r)" and "\<not> truthy (pr_error r)"
  shows "j_verdict (judge docker_assertions c r) =
    (let f = pr_facts r; sick = (f ''health'' = Some (FOne (FStr ''unhealthy'')))
     in if f ''running'' \<noteq> Some (FOne (FBool True)) \<or> truthy (as_str (f ''restartLoop'')) \<or>
          sick \<and> dc_unhealthyIsDown c then VDown
        else if sick \<or> over (f ''responseTimeMs'') (dc_degradedThresholdMs c) then VDegraded
        else VUp)"
  unfolding judge_verdict docker_assertions_def Let_def
  using assms by (auto simp: messages simp del: not_None_eq)

theorem docker_verdict_witness:
  "j_verdict (judge docker_assertions
     \<lparr>dc_containerName = None, dc_socketPath = ''/var/run/docker.sock'', dc_degradedThresholdMs = 1000,
       dc_restartLoopEnabled = True, dc_restartLoopThreshold = 3, dc_restartLoopWindowMinutes = 10, dc_unhealthyIsDown = False\<rparr>
     \<lparr>pr_facts = [''running'' \<mapsto> FOne (FBool True), ''health'' \<mapsto> FOne (FStr ''unhealthy'')],
       pr_responseTimeMs = Some 40, pr_error = None, pr_unavailable = None, pr_statusCode = None, pr_evidence = None\<rparr>) = VDegraded"
  using docker_verdict [of
     "\<lparr>pr_facts = [''running'' \<mapsto> FOne (FBool True), ''health'' \<mapsto> FOne (FStr ''unhealthy'')],
       pr_responseTimeMs = Some 40, pr_error = None, pr_unavailable = None, pr_statusCode = None, pr_evidence = None\<rparr>"
     "\<lparr>dc_containerName = None, dc_socketPath = ''/var/run/docker.sock'', dc_degradedThresholdMs = 1000,
       dc_restartLoopEnabled = True, dc_restartLoopThreshold = 3, dc_restartLoopWindowMinutes = 10, dc_unhealthyIsDown = False\<rparr>"]
  by (simp add: truthy_def)

end
