(* ===== verification/Status_Controller.thy ===== *)
theory Status_Controller
  imports Check_Types
begin

text \<open>
  The level-triggered status controller, \<open>src/modules/monitors/status-controller.ts\<close>,
  and the adaptive scheduling policy, \<open>src/modules/monitors/scheduling.ts\<close>. Both are
  pure functions of stored state.

  The lemmas run the controller over a whole history of observations: the start of
  the failure run is the first failure since the target was last seen healthy, and
  the derived status is \<open>down\<close> exactly when the last observation failed and that run
  is at least as long as the failure window. The policy's answer is always inside
  its clamp, tightens only on a recent failure and relaxes only on a clean run.
\<close>

section \<open>Status\<close>

record observed_state =
  os_verdict :: verdict
  os_firstFailureAt :: "date option"
  os_previousStatus :: monitor_status
  os_now :: date
  os_degradedResolves :: "bool option"

definition deriveStatus :: "int \<Rightarrow> observed_state \<Rightarrow> monitor_status" where
  "deriveStatus failureWindowSeconds observed =
     (case os_verdict observed of
        VUp \<Rightarrow> SUp
      | VDegraded \<Rightarrow> SDegraded
      | VIndeterminate \<Rightarrow> SUnknown
      | VDown \<Rightarrow>
          (let failingForMs = (case os_firstFailureAt observed of
                                 None \<Rightarrow> 0
                               | Some t \<Rightarrow> os_now observed - t)
           in if failureWindowSeconds * 1000 \<le> failingForMs then SDown
              else os_previousStatus observed))"

definition advanceFailureRun :: "date option \<Rightarrow> verdict \<Rightarrow> date \<Rightarrow> date option" where
  "advanceFailureRun previous v now =
     (if v = VDown then (case previous of Some t \<Rightarrow> Some t | None \<Rightarrow> Some now)
      else if v = VIndeterminate then previous
      else None)"

record reconciliation =
  rc_status :: monitor_status
  rc_openIncident :: bool
  rc_resolveIncidents :: bool

definition reconcile :: "int \<Rightarrow> observed_state \<Rightarrow> reconciliation" where
  "reconcile failureWindowSeconds observed =
     (let status = deriveStatus failureWindowSeconds observed
      in \<lparr>rc_status = status,
          rc_openIncident = (status = SDown),
          rc_resolveIncidents =
            (os_verdict observed = VUp \<or>
             os_verdict observed = VDegraded \<and> os_degradedResolves observed \<noteq> Some False)\<rparr>)"

section \<open>Scheduling\<close>

definition MIN_EVALUATION_MS :: int where "MIN_EVALUATION_MS = 500"
definition MAX_EVALUATION_MS :: int where "MAX_EVALUATION_MS = 6 * 60 * 60 * 1000"
definition SUSPICION_DIVISOR :: int where "SUSPICION_DIVISOR = 16"
definition CALM_MULTIPLIER :: int where "CALM_MULTIPLIER = 2"
definition CALM_RUN_LENGTH :: nat where "CALM_RUN_LENGTH = 10"

record recent_observation =
  ro_ok :: bool
  ro_verdict :: "verdict option"

definition suspicious :: "recent_observation list \<Rightarrow> bool" where
  "suspicious recent \<longleftrightarrow> (\<exists>x \<in> set recent. \<not> ro_ok x \<and> ro_verdict x \<noteq> Some VIndeterminate)"

definition calm :: "recent_observation list \<Rightarrow> bool" where
  "calm recent \<longleftrightarrow>
     CALM_RUN_LENGTH \<le> length recent \<and>
     (\<forall>x \<in> set (take CALM_RUN_LENGTH recent). ro_ok x \<and> ro_verdict x \<noteq> Some VDegraded)"

definition delay_ms :: "int \<Rightarrow> monitor_status option \<Rightarrow> recent_observation list \<Rightarrow> int" where
  "delay_ms intervalSeconds currentStatus recent =
     (let baselineMs = intervalSeconds * 1000;
          settled = (currentStatus = Some SDown)
      in if \<not> settled \<and> suspicious recent then js_round_div baselineMs SUSPICION_DIVISOR
         else if calm recent then baselineMs * CALM_MULTIPLIER
         else baselineMs)"

definition nextEvaluationAt ::
  "int \<Rightarrow> monitor_status option \<Rightarrow> recent_observation list \<Rightarrow> date \<Rightarrow> date" where
  "nextEvaluationAt intervalSeconds currentStatus recent now =
     now + min MAX_EVALUATION_MS
             (max MIN_EVALUATION_MS (delay_ms intervalSeconds currentStatus recent))"

section \<open>A history of observations\<close>

text \<open>
  What the recorder does with each judged observation: advance the failure run,
  reconcile, store both. The state is the pair the monitor row keeps.
\<close>

definition observe_step ::
  "int \<Rightarrow> date option \<times> monitor_status \<Rightarrow> verdict \<times> date \<Rightarrow> date option \<times> monitor_status" where
  "observe_step w = (\<lambda>(ff, st) (v, now).
     (let ff' = advanceFailureRun ff v now
      in (ff', rc_status (reconcile w
            \<lparr>os_verdict = v, os_firstFailureAt = ff', os_previousStatus = st, os_now = now,
             os_degradedResolves = None\<rparr>))))"

definition observe_run ::
  "int \<Rightarrow> monitor_status \<Rightarrow> (verdict \<times> date) list \<Rightarrow> date option \<times> monitor_status" where
  "observe_run w st0 obs = foldl (observe_step w) (None, st0) obs"

text \<open>
  The specification: the failures since the target was last seen healthy, where an
  observation that could not be made says nothing either way.
\<close>

definition unhealthy_tail :: "(verdict \<times> date) list \<Rightarrow> (verdict \<times> date) list" where
  "unhealthy_tail obs = rev (takeWhile (\<lambda>(v, _). v = VDown \<or> v = VIndeterminate) (rev obs))"

definition failing_since :: "(verdict \<times> date) list \<Rightarrow> date option" where
  "failing_since obs = map_option snd (find (\<lambda>(v, _). v = VDown) (unhealthy_tail obs))"

lemma observe_run_snoc: "observe_run w st0 (obs @ [x]) = observe_step w (observe_run w st0 obs) x"
  by (simp add: observe_run_def)

lemma unhealthy_tail_snoc:
  "unhealthy_tail (obs @ [(v, t)]) =
     (if v = VDown \<or> v = VIndeterminate then unhealthy_tail obs @ [(v, t)] else [])"
  by (simp add: unhealthy_tail_def)

lemma find_append: "find P (xs @ ys) = (case find P xs of None \<Rightarrow> find P ys | Some x \<Rightarrow> Some x)"
  by (induction xs) auto

lemma failing_since_snoc:
  "failing_since (obs @ [(v, t)]) = advanceFailureRun (failing_since obs) v t"
  by (cases v)
    (auto simp: failing_since_def unhealthy_tail_snoc advanceFailureRun_def find_append
      split: option.splits)

lemma observe_run_failing_since: "fst (observe_run w st0 obs) = failing_since obs"
proof (induction obs rule: rev_induct)
  case Nil
  show ?case by (simp add: observe_run_def failing_since_def unhealthy_tail_def)
next
  case (snoc x obs)
  then show ?case
    by (cases x; cases "observe_run w st0 obs")
      (simp add: observe_run_snoc failing_since_snoc observe_step_def Let_def)
qed

lemma failing_since_le:
  assumes "sorted (map snd obs)" and "failing_since obs = Some t"
  shows "obs \<noteq> [] \<and> t \<le> snd (last obs)"
proof -
  from assms(2) obtain x where "find (\<lambda>(v, _). v = VDown) (unhealthy_tail obs) = Some x" "t = snd x"
    by (auto simp: failing_since_def)
  then have "x \<in> set (unhealthy_tail obs)"
    by (auto simp: find_Some_iff in_set_conv_nth)
  then have "x \<in> set obs"
    by (auto simp: unhealthy_tail_def dest: set_takeWhileD)
  with assms(1) \<open>t = snd x\<close> show ?thesis
    using sorted_map_last by fastforce
qed

definition window_elapsed :: "int \<Rightarrow> (verdict \<times> date) list \<Rightarrow> bool" where
  "window_elapsed w obs \<longleftrightarrow>
     (\<exists>t. failing_since obs = Some t \<and> w * 1000 \<le> snd (last obs) - t)"

text \<open>
  C38: over any time-ordered history, the derived status is down exactly when the last
  observation failed and the failures since the target was last seen healthy began
  at least one failure window ago.
\<close>

theorem status_down_iff:
  assumes "sorted (map snd obs)" and "st0 \<noteq> SDown"
  shows "snd (observe_run w st0 obs) = SDown \<longleftrightarrow>
    obs \<noteq> [] \<and> fst (last obs) = VDown \<and> window_elapsed w obs"
  using assms
proof (induction obs rule: rev_induct)
  case Nil
  then show ?case by (simp add: observe_run_def)
next
  case (snoc x obs)
  obtain v now where x: "x = (v, now)" by (cases x)
  have srt: "sorted (map snd obs)" using snoc.prems by (simp add: sorted_append)
  have run: "observe_run w st0 obs = (failing_since obs, snd (observe_run w st0 obs))"
    by (metis observe_run_failing_since prod.collapse)
  have step: "snd (observe_run w st0 (obs @ [x])) =
      deriveStatus w \<lparr>os_verdict = v, os_firstFailureAt = failing_since (obs @ [x]),
        os_previousStatus = snd (observe_run w st0 obs), os_now = now, os_degradedResolves = None\<rparr>"
    by (subst observe_run_snoc, subst run)
      (simp add: x observe_step_def Let_def reconcile_def failing_since_snoc)
  show ?case
  proof (cases v)
    case VDown
    obtain t where t: "failing_since (obs @ [x]) = Some t"
      using VDown by (cases "failing_since obs") (auto simp: x failing_since_snoc advanceFailureRun_def)
    have "w * 1000 \<le> now - t" if "snd (observe_run w st0 obs) = SDown"
    proof -
      from that snoc.IH [OF srt snoc.prems(2)] have "obs \<noteq> []" "window_elapsed w obs" by auto
      moreover from this have "failing_since obs = Some t"
        using t by (auto simp: x window_elapsed_def failing_since_snoc advanceFailureRun_def VDown)
      moreover have "snd (last obs) \<le> now"
        using snoc.prems(1) \<open>obs \<noteq> []\<close> by (auto simp: x sorted_append)
      ultimately show ?thesis by (auto simp: window_elapsed_def)
    qed
    then show ?thesis
      using VDown t unfolding step by (auto simp: deriveStatus_def window_elapsed_def x)
  qed (use step x in \<open>auto simp: deriveStatus_def\<close>)
qed

theorem status_down_iff_witness:
  "sorted (map snd [(VUp, 0 :: int), (VDown, 1000), (VIndeterminate, 2000), (VDown, 61000)]) \<and>
   snd (observe_run 60 SUnknown [(VUp, 0), (VDown, 1000), (VIndeterminate, 2000), (VDown, 61000)]) = SDown"
  using status_down_iff [of "[(VUp, 0), (VDown, 1000), (VIndeterminate, 2000), (VDown, 61000)]" SUnknown 60]
  by (simp add: window_elapsed_def failing_since_def unhealthy_tail_def)

text \<open>
  the controller never asks for an incident to be opened and resolved at once, it
  asks for one only on a failed probe, and feeding its own answer back as the stored
  status changes nothing.
\<close>

theorem reconcile_level_triggered:
  "\<not> (rc_openIncident (reconcile w ob) \<and> rc_resolveIncidents (reconcile w ob)) \<and>
   (rc_openIncident (reconcile w ob) \<longrightarrow> os_verdict ob = VDown) \<and>
   (rc_resolveIncidents (reconcile w ob) \<longrightarrow> os_verdict ob = VUp \<or> os_verdict ob = VDegraded) \<and>
   reconcile w (ob\<lparr>os_previousStatus := rc_status (reconcile w ob)\<rparr>) = reconcile w ob"
  by (cases ob; cases "os_verdict ob"; cases "os_firstFailureAt ob")
    (auto simp: reconcile_def deriveStatus_def Let_def)

theorem reconcile_level_triggered_witness:
  "rc_openIncident (reconcile 60
     \<lparr>os_verdict = VDown, os_firstFailureAt = Some 0, os_previousStatus = SUp, os_now = 60000, os_degradedResolves = None\<rparr>) \<and>
   \<not> rc_resolveIncidents (reconcile 60
     \<lparr>os_verdict = VDown, os_firstFailureAt = Some 0, os_previousStatus = SUp, os_now = 60000, os_degradedResolves = None\<rparr>)"
  using reconcile_level_triggered [of 60
     "\<lparr>os_verdict = VDown, os_firstFailureAt = Some 0, os_previousStatus = SUp, os_now = 60000, os_degradedResolves = None\<rparr>"]
  by (simp add: reconcile_def deriveStatus_def)

section \<open>The policy's answer\<close>

lemma delay_ms_cases:
  assumes "0 \<le> intervalSeconds"
  shows "delay_ms intervalSeconds st recent \<le> CALM_MULTIPLIER * (intervalSeconds * 1000)"
    and "js_round_div (intervalSeconds * 1000) SUSPICION_DIVISOR \<le> delay_ms intervalSeconds st recent"
  using assms by (auto simp: delay_ms_def Let_def js_round_div_def SUSPICION_DIVISOR_def CALM_MULTIPLIER_def)

text \<open>
  the next evaluation is never sooner than the clamp's floor and never later than
  its ceiling; inside the clamp it is at most twice the configured interval and at
  least a sixteenth of it; it beats the baseline only when the recent observations
  hold a real failure of a monitor that is not already down, and exceeds the
  baseline only after ten clean ones.
\<close>

theorem next_evaluation_bounds:
  assumes "1 \<le> intervalSeconds"
  shows "now + MIN_EVALUATION_MS \<le> nextEvaluationAt intervalSeconds st recent now \<and>
    nextEvaluationAt intervalSeconds st recent now \<le> now + MAX_EVALUATION_MS \<and>
    (nextEvaluationAt intervalSeconds st recent now < now + min MAX_EVALUATION_MS (intervalSeconds * 1000)
       \<longrightarrow> st \<noteq> Some SDown \<and> suspicious recent) \<and>
    (now + intervalSeconds * 1000 < nextEvaluationAt intervalSeconds st recent now
       \<longrightarrow> calm recent \<and> nextEvaluationAt intervalSeconds st recent now \<le> now + 2 * (intervalSeconds * 1000))"
  using assms
  by (auto simp: nextEvaluationAt_def delay_ms_def Let_def js_round_div_def SUSPICION_DIVISOR_def
      CALM_MULTIPLIER_def MIN_EVALUATION_MS_def MAX_EVALUATION_MS_def)

theorem next_evaluation_bounds_witness:
  "nextEvaluationAt 60 (Some SUp) [\<lparr>ro_ok = False, ro_verdict = Some VDown\<rparr>] 0 = 3750 \<and>
   (3750::int) < 0 + min MAX_EVALUATION_MS (60 * 1000)"
proof -
  have e: "nextEvaluationAt 60 (Some SUp) [\<lparr>ro_ok = False, ro_verdict = Some VDown\<rparr>] 0 = 3750"
    by (simp add: nextEvaluationAt_def delay_ms_def suspicious_def js_round_div_def
        SUSPICION_DIVISOR_def MIN_EVALUATION_MS_def MAX_EVALUATION_MS_def)
  show ?thesis
    using next_evaluation_bounds [of 60 0 "Some SUp" "[\<lparr>ro_ok = False, ro_verdict = Some VDown\<rparr>]"]
    by (simp add: e MAX_EVALUATION_MS_def)
qed

text \<open>
  A monitor that is suspicious can never be calm as well: the two readings of the
  recent window exclude each other on the observations both look at.
\<close>

lemma calm_not_recently_failed:
  "calm recent \<Longrightarrow> \<not> suspicious (take CALM_RUN_LENGTH recent)"
  by (auto simp: calm_def suspicious_def)

end
