(* ===== verification/Check.thy ===== *)
theory Check
  imports Status_Controller
begin

text \<open>
  One check, from dispatch to judged result: \<open>src/modules/monitors/check.ts\<close>. The
  registry entry of a type is a record of its label, its assertions, its \<open>fromRow\<close>
  and the one function its kind is evaluated by; a probe, which dials the network,
  is the argument of the constructor \<open>Active\<close>. The lemmas show that whatever the
  probe returns, the result is internally consistent, that a check which was never
  made is never an outage, and what the Docker restart memory adds.
\<close>

section \<open>Data\<close>

record check_result =
  cr_ok :: bool
  cr_degraded :: bool
  cr_statusCode :: "int option"
  cr_responseTimeMs :: "int option"
  cr_error :: "string option"
  cr_tlsDaysRemaining :: "int option option"
  cr_verdict :: verdict
  cr_failureClass :: "failure_class option"
  cr_facts :: fact_bag
  cr_failedAssertions :: "string list"
  cr_evidence :: "evidence option"
  cr_dockerState :: "docker_check_state option"

record check_spec =
  sp_checkType :: string
  sp_url :: string
  sp_port :: "int option"
  sp_method :: http_method
  sp_timeoutMs :: int
  sp_degradedThresholdMs :: int
  sp_expectedStatusCode :: "int option"
  sp_bodyKeyword :: "string option"
  sp_keywordAbsent :: "bool option"
  sp_tlsCheck :: "bool option"
  sp_tlsWarnDays :: "int option"
  sp_intervalSeconds :: int
  sp_config :: "json option"

text \<open>\<open>CheckOptions.dockerMemory\<close>: the clock and the state stored by the previous check.\<close>

type_synonym docker_memory = "(date \<times> docker_check_state option) option"

datatype 'c evaluator =
    Active "check_spec \<Rightarrow> 'c \<Rightarrow> probe_result"
  | Passive "'c \<Rightarrow> date option \<Rightarrow> heartbeat_report option \<Rightarrow> date \<Rightarrow> date \<Rightarrow> probe_result"
  | Aggregate "'c \<Rightarrow> child_state list \<Rightarrow> probe_result"
  | Manual "'c \<Rightarrow> probe_result"

record 'c check_definition =
  cd_label :: string
  cd_assertions :: "'c assertion list"
  cd_fromRow :: "monitor_row_view \<Rightarrow> 'c"
  cd_evaluator :: "'c evaluator"

section \<open>Operations\<close>

definition or_default :: "'a \<Rightarrow> 'a option \<Rightarrow> 'a" where
  "or_default d x = (case x of None \<Rightarrow> d | Some v \<Rightarrow> v)"

definition rowView :: "check_spec \<Rightarrow> monitor_row_view" where
  "rowView spec =
     \<lparr>rv_checkType = sp_checkType spec, rv_url = sp_url spec, rv_port = sp_port spec,
      rv_method = sp_method spec, rv_intervalSeconds = sp_intervalSeconds spec,
      rv_timeoutMs = sp_timeoutMs spec, rv_degradedThresholdMs = sp_degradedThresholdMs spec,
      rv_expectedStatusCode = sp_expectedStatusCode spec,
      rv_bodyKeyword = sp_bodyKeyword spec,
      rv_keywordAbsent = or_default False (sp_keywordAbsent spec),
      rv_tlsCheck = or_default False (sp_tlsCheck spec),
      rv_tlsWarnDays = or_default 14 (sp_tlsWarnDays spec),
      rv_config = or_default JNull (sp_config spec)\<rparr>"

text \<open>The answer for a check that was not made: not an outage, a configuration problem.\<close>

definition not_probed :: "string \<Rightarrow> check_result" where
  "not_probed message =
     \<lparr>cr_ok = False, cr_degraded = False, cr_statusCode = None, cr_responseTimeMs = None,
      cr_error = Some message, cr_tlsDaysRemaining = None, cr_verdict = VIndeterminate,
      cr_failureClass = Some Misconfigured, cr_facts = Map.empty, cr_failedAssertions = [],
      cr_evidence = None, cr_dockerState = None\<rparr>"

definition tls_days :: "fact_bag \<Rightarrow> int option option" where
  "tls_days facts =
     (case facts ''tlsDaysRemaining'' of
        Some (FOne (FNum n)) \<Rightarrow> Some (Some n)
      | Some (FOne FNull) \<Rightarrow> Some None
      | _ \<Rightarrow> None)"

definition judgeMeasurement :: "'c assertion list \<Rightarrow> 'c \<Rightarrow> probe_result \<Rightarrow> check_result" where
  "judgeMeasurement assertions config result =
     (let v = judge assertions config result
      in \<lparr>cr_ok = j_ok v, cr_degraded = j_degraded v, cr_statusCode = pr_statusCode result,
          cr_responseTimeMs = pr_responseTimeMs result, cr_error = j_error v,
          cr_tlsDaysRemaining = tls_days (pr_facts result), cr_verdict = j_verdict v,
          cr_failureClass = j_failureClass v, cr_facts = pr_facts result,
          cr_failedAssertions = j_failedAssertions v, cr_evidence = pr_evidence result,
          cr_dockerState = None\<rparr>)"

definition docker_input ::
  "docker_config \<Rightarrow> probe_result \<Rightarrow> date \<Rightarrow> docker_check_state option \<Rightarrow> assess_input" where
  "docker_input docker probe now previous =
     \<lparr>ai_now = now,
      ai_containerId = as_str (pr_facts probe ''containerId''),
      ai_restartCount = as_num (pr_facts probe ''restartCount''),
      ai_enabled = dc_restartLoopEnabled docker,
      ai_threshold = dc_restartLoopThreshold docker,
      ai_windowMinutes = dc_restartLoopWindowMinutes docker,
      ai_previous = previous\<rparr>"

definition foldDockerRestart ::
  "string \<Rightarrow> docker_config \<Rightarrow> probe_result \<Rightarrow> docker_memory \<Rightarrow> probe_result \<times> docker_check_state option" where
  "foldDockerRestart checkType docker probe memory =
     (case memory of
        None \<Rightarrow> (probe, None)
      | Some (now, previous) \<Rightarrow>
          (if checkType \<noteq> ''docker'' then (probe, None)
           else
             (let (state, reason) = assessDockerState (docker_input docker probe now previous)
              in (probe\<lparr>pr_facts := (pr_facts probe)(''restartLoop'' \<mapsto> opt_str reason)\<rparr>, Some state))))"

text \<open>
  \<open>performCheck\<close>. \<open>definition\<close> is the registry's answer for the spec's type and
  \<open>dockerCast\<close> the source's \<open>config as DockerConfig\<close>, applied only when the type is
  \<open>docker\<close>.
\<close>

definition performCheck ::
  "('c \<Rightarrow> docker_config) \<Rightarrow> 'c check_definition option \<Rightarrow> check_spec \<Rightarrow> docker_memory \<Rightarrow> check_result" where
  "performCheck dockerCast found spec memory =
     (case found of
        None \<Rightarrow> not_probed (''Check type \"'' @ sp_checkType spec @ ''\" is not available in this build.'')
      | Some d \<Rightarrow>
          (case cd_evaluator d of
             Active probe \<Rightarrow>
               (let config = cd_fromRow d (rowView spec);
                    result = probe spec config;
                    folded = foldDockerRestart (sp_checkType spec) (dockerCast config) result memory;
                    judged = judgeMeasurement (cd_assertions d) config (fst folded)
                in case snd folded of
                     None \<Rightarrow> judged
                   | Some state \<Rightarrow>
                       judged\<lparr>cr_dockerState := Some (state\<lparr>dk_holdResolve :=
                         nextHoldResolve (dk_holdResolve state) (cr_verdict judged)
                           (truthy (as_str (cr_facts judged ''restartLoop'')))
                           (''health-down'' \<in> set (cr_failedAssertions judged))\<rparr>)\<rparr>)
           | _ \<Rightarrow> not_probed (''A '' @ cd_label d @ '' monitor is not probed.'')))"

text \<open>\<open>evaluateResponse\<close>: status and latency of an HTTP response, without running one.\<close>

definition evaluateResponse :: "int option \<Rightarrow> int \<Rightarrow> int \<Rightarrow> int \<Rightarrow> bool \<times> bool" where
  "evaluateResponse expectedStatusCode degradedThresholdMs statusCode responseTimeMs =
     (let v = judge http_assertions
                \<lparr>hc_method = HEAD, hc_expectedStatusCode = expectedStatusCode,
                 hc_degradedThresholdMs = degradedThresholdMs, hc_bodyKeyword = None,
                 hc_keywordAbsent = False, hc_tlsCheck = False, hc_tlsWarnDays = 14\<rparr>
                \<lparr>pr_facts = [''statusCode'' \<mapsto> FOne (FNum statusCode),
                            ''responseTimeMs'' \<mapsto> FOne (FNum responseTimeMs)],
                 pr_responseTimeMs = Some responseTimeMs, pr_error = None,
                 pr_unavailable = None, pr_statusCode = Some statusCode, pr_evidence = None\<rparr>
      in (j_ok v, j_degraded v))"

section \<open>Results are consistent\<close>

definition check_result_wf :: "check_result \<Rightarrow> bool" where
  "check_result_wf r \<longleftrightarrow>
     (cr_ok r \<longleftrightarrow> cr_verdict r = VUp \<or> cr_verdict r = VDegraded) \<and>
     (cr_degraded r \<longleftrightarrow> cr_verdict r = VDegraded) \<and>
     (cr_failureClass r = None \<longleftrightarrow> cr_ok r) \<and>
     (cr_failureClass r = Some Misconfigured \<longleftrightarrow> cr_verdict r = VIndeterminate) \<and>
     (cr_error r = None \<longleftrightarrow> cr_verdict r = VUp)"

lemma judgeMeasurement_wf: "check_result_wf (judgeMeasurement as c r)"
  using judge_wf [of as c r]
  by (simp add: check_result_wf_def judgment_wf_def judgeMeasurement_def Let_def)

lemma not_probed_wf: "check_result_wf (not_probed m)"
  by (simp add: check_result_wf_def not_probed_def)

lemma check_result_wf_docker [simp]:
  "check_result_wf (r\<lparr>cr_dockerState := d\<rparr>) \<longleftrightarrow> check_result_wf r"
  by (simp add: check_result_wf_def)

text \<open>
  C39: whatever the registry answers and whatever a probe returns, a check's result is
  consistent: it is passing exactly on up or degraded, carries a failure class
  exactly when it is not passing, is misconfigured exactly when indeterminate, and
  gives a reason for every verdict but up.
\<close>

theorem performCheck_wf: "check_result_wf (performCheck dockerCast found spec memory)"
  by (auto simp: performCheck_def Let_def judgeMeasurement_wf not_probed_wf
      split: option.splits evaluator.splits)

text \<open>
  a type this build does not have, and a type that has nothing to dial, are
  answered \<open>indeterminate\<close> and never as an outage, without consulting any probe.
\<close>

theorem performCheck_never_invents_outage:
  assumes "\<And>d probe. found = Some d \<Longrightarrow> cd_evaluator d \<noteq> Active probe"
  shows "cr_verdict (performCheck dockerCast found spec memory) = VIndeterminate \<and>
    cr_facts (performCheck dockerCast found spec memory) = Map.empty"
  using assms
  by (auto simp: performCheck_def not_probed_def split: option.splits evaluator.splits)

theorem performCheck_never_invents_outage_witness:
  "cr_verdict (performCheck (\<lambda>_. undefined) (None :: unit check_definition option)
     \<lparr>sp_checkType = ''gone'', sp_url = [], sp_port = None, sp_method = GET, sp_timeoutMs = 0,
      sp_degradedThresholdMs = 0, sp_expectedStatusCode = None, sp_bodyKeyword = None,
      sp_keywordAbsent = None, sp_tlsCheck = None, sp_tlsWarnDays = None, sp_intervalSeconds = 60,
      sp_config = None\<rparr> None) = VIndeterminate"
  by (rule performCheck_never_invents_outage [THEN conjunct1]) simp

text \<open>The parts of a Docker check with memory.\<close>

lemma docker_input_previous [simp]: "ai_previous (docker_input c r now previous) = previous"
  by (simp add: docker_input_def)

lemma performCheck_docker:
  fixes d :: "docker_config check_definition" and probe
  assumes "cd_evaluator d = Active probe" and "sp_checkType spec = ''docker''"
    and "assessDockerState (docker_input c (probe spec c) now previous) = (state, reason)"
    and "c = cd_fromRow d (rowView spec)"
    and "judged = judgeMeasurement (cd_assertions d) c ((probe spec c)
      \<lparr>pr_facts := (pr_facts (probe spec c))(''restartLoop'' \<mapsto> opt_str reason)\<rparr>)"
  shows "performCheck id (Some d) spec (Some (now, previous)) =
    judged\<lparr>cr_dockerState := Some (state\<lparr>dk_holdResolve :=
      nextHoldResolve (dk_holdResolve state) (cr_verdict judged)
        (truthy (as_str (cr_facts judged ''restartLoop'')))
        (''health-down'' \<in> set (cr_failedAssertions judged))\<rparr>)\<rparr>"
  using assms by (simp add: performCheck_def foldDockerRestart_def Let_def)

text \<open>
  a Docker check with memory always stores the next memory; one that reached its
  daemon and found a restart loop is down, puts the loop on the incident timeline
  and withholds resolution; a clean \<open>up\<close> releases the hold, and a degraded or
  indeterminate sample keeps whatever it was.
\<close>

theorem docker_check_memory:
  fixes d :: "docker_config check_definition"
  assumes "cd_evaluator d = Active probe" and "cd_assertions d = docker_assertions"
    and "sp_checkType spec = ''docker''"
  shows "\<exists>st. cr_dockerState (performCheck id (Some d) spec (Some (now, previous))) = Some st \<and>
    (let out = performCheck id (Some d) spec (Some (now, previous));
         c = cd_fromRow d (rowView spec); res = probe spec c
     in (\<forall>reason. snd (assessDockerState (docker_input c res now previous)) = Some reason \<and>
           \<not> truthy (pr_unavailable res) \<and> \<not> truthy (pr_error res) \<longrightarrow>
           cr_verdict out = VDown \<and> dk_holdResolve st \<and>
           reason \<in> set (dockerIncidentLines (cr_facts out) (cr_failedAssertions out))) \<and>
        (cr_verdict out = VUp \<longrightarrow> \<not> dk_holdResolve st) \<and>
        (cr_verdict out = VDegraded \<or> cr_verdict out = VIndeterminate \<longrightarrow>
           dk_holdResolve st = (case previous of None \<Rightarrow> False | Some p \<Rightarrow> dk_holdResolve p)))"
proof -
  let ?c = "cd_fromRow d (rowView spec)"
  let ?res = "probe spec ?c"
  obtain state reason where a: "assessDockerState (docker_input ?c ?res now previous) = (state, reason)"
    by fastforce
  let ?res' = "?res\<lparr>pr_facts := (pr_facts ?res)(''restartLoop'' \<mapsto> opt_str reason)\<rparr>"
  have hold: "dk_holdResolve state = (case previous of None \<Rightarrow> False | Some p \<Rightarrow> dk_holdResolve p)"
    using assess_hold [of "docker_input ?c ?res now previous"] by (simp add: a)
  have down: "j_verdict (judge docker_assertions ?c ?res') = VDown"
    if "reason = Some s" "\<not> truthy (pr_unavailable ?res)" "\<not> truthy (pr_error ?res)" for s
  proof -
    have "s \<noteq> []" using assess_reason_nonempty [of "docker_input ?c ?res now previous"] a that by simp
    then have "restartLoop \<in> set (violated SevDown ?c (pr_facts ?res') docker_assertions)"
      using that(1) by (simp add: mem_violated docker_assertions_def messages
          message_of_def restartLoop_def opt_str_def)
    with that show ?thesis by (auto simp: judge_verdict)
  qed
  have ne: "s \<noteq> []" if "reason = Some s" for s
    using assess_reason_nonempty [of "docker_input ?c ?res now previous"] a that by simp
  show ?thesis
    using assms down ne
    by (auto simp: performCheck_docker [OF assms(1,3) a refl refl] a hold Let_def
        judgeMeasurement_def nextHoldResolve_def dockerIncidentLines_def opt_str_def) blast
qed

definition example_docker :: "docker_config check_definition" where
  "example_docker =
     \<lparr>cd_label = ''Docker'', cd_assertions = docker_assertions,
      cd_fromRow = (\<lambda>_. \<lparr>dc_containerName = None, dc_socketPath = ''/var/run/docker.sock'',
        dc_degradedThresholdMs = 1000, dc_restartLoopEnabled = True, dc_restartLoopThreshold = 3,
        dc_restartLoopWindowMinutes = 10, dc_unhealthyIsDown = True\<rparr>),
      cd_evaluator = Active (\<lambda>_ _. \<lparr>pr_facts = [''running'' \<mapsto> FOne (FBool True),
          ''containerId'' \<mapsto> FOne (FStr ''c''), ''restartCount'' \<mapsto> FOne (FNum 7)],
        pr_responseTimeMs = Some 5, pr_error = None, pr_unavailable = None, pr_statusCode = None,
        pr_evidence = None\<rparr>)\<rparr>"

definition example_spec :: "string \<Rightarrow> check_spec" where
  "example_spec type =
     \<lparr>sp_checkType = type, sp_url = ''host'', sp_port = None, sp_method = GET, sp_timeoutMs = 5000,
      sp_degradedThresholdMs = 1000, sp_expectedStatusCode = None, sp_bodyKeyword = None,
      sp_keywordAbsent = None, sp_tlsCheck = None, sp_tlsWarnDays = None, sp_intervalSeconds = 60,
      sp_config = None\<rparr>"

theorem docker_check_memory_witness:
  "\<exists>st. cr_dockerState (performCheck id (Some example_docker) (example_spec ''docker'')
      (Some (60000, Some \<lparr>dk_containerId = Some ''c'',
         dk_samples = [\<lparr>ds_at = Some 0, ds_count = 2\<rparr>], dk_holdResolve = False\<rparr>))) = Some st \<and>
    dk_holdResolve st"
proof -
  let ?m = "\<lparr>dk_containerId = Some ''c'', dk_samples = [\<lparr>ds_at = Some 0, ds_count = 2\<rparr>],
    dk_holdResolve = False\<rparr>"
  have "snd (assessDockerState (docker_input (cd_fromRow example_docker r)
      \<lparr>pr_facts = [''running'' \<mapsto> FOne (FBool True),
          ''containerId'' \<mapsto> FOne (FStr ''c''), ''restartCount'' \<mapsto> FOne (FNum 7)],
        pr_responseTimeMs = Some 5, pr_error = None, pr_unavailable = None, pr_statusCode = None,
        pr_evidence = None\<rparr> 60000 (Some ?m))) = Some (restartLoopReason 5 10)" for r
    by (simp add: docker_input_def assessDockerState_def last_sample_def in_window_def
        slice_last_def MAX_SAMPLES_def example_docker_def)
  moreover have "cd_evaluator example_docker = Active (\<lambda>_ _. \<lparr>pr_facts = [''running'' \<mapsto> FOne (FBool True),
          ''containerId'' \<mapsto> FOne (FStr ''c''), ''restartCount'' \<mapsto> FOne (FNum 7)],
        pr_responseTimeMs = Some 5, pr_error = None, pr_unavailable = None, pr_statusCode = None,
        pr_evidence = None\<rparr>)" "cd_assertions example_docker = docker_assertions"
    "sp_checkType (example_spec ''docker'') = ''docker''"
    by (simp_all add: example_docker_def example_spec_def)
  ultimately show ?thesis
    using docker_check_memory [of example_docker _ "example_spec ''docker''" 60000 "Some ?m"]
    by (fastforce simp: Let_def)
qed

text \<open>
  the shortcut that judges a bare status and latency agrees with the HTTP rule:
  passing exactly on the expected code (or any 2xx or 3xx when none is set), and
  degraded exactly when it passes over the latency threshold.
\<close>

theorem evaluateResponse_spec:
  "evaluateResponse expected threshold status ms =
     (let holds = (case expected of Some e \<Rightarrow> status = e | None \<Rightarrow> 200 \<le> status \<and> status \<le> 399)
      in (holds, holds \<and> threshold < ms))"
proof -
  let ?c = "\<lparr>hc_method = HEAD, hc_expectedStatusCode = expected,
    hc_degradedThresholdMs = threshold, hc_bodyKeyword = None,
    hc_keywordAbsent = False, hc_tlsCheck = False, hc_tlsWarnDays = 14\<rparr>"
  let ?r = "\<lparr>pr_facts = [''statusCode'' \<mapsto> FOne (FNum status), ''responseTimeMs'' \<mapsto> FOne (FNum ms)],
    pr_responseTimeMs = Some ms, pr_error = None, pr_unavailable = None,
    pr_statusCode = Some status, pr_evidence = None\<rparr>"
  have v: "j_verdict (judge http_assertions ?c ?r) =
      (if \<not> http_status_ok ?c (pr_facts ?r) then VDown else if threshold < ms then VDegraded else VUp)"
    unfolding judge_verdict http_assertions_def
    by (simp add: messages over_num http_keyword_ok_def http_tls_ok_def del: not_None_eq)
  have ok: "j_ok (judge http_assertions ?c ?r) \<longleftrightarrow> j_verdict (judge http_assertions ?c ?r) \<in> {VUp, VDegraded}"
    "j_degraded (judge http_assertions ?c ?r) \<longleftrightarrow> j_verdict (judge http_assertions ?c ?r) = VDegraded"
    using judge_wf [of http_assertions ?c ?r] by (simp_all add: judgment_wf_def)
  show ?thesis
    unfolding evaluateResponse_def Let_def ok v
    by (cases expected) (auto simp: http_status_ok_def)
qed

end
