(* ===== verification/Canonical_Json.thy ===== *)
theory Canonical_Json
  imports Vigil_Prelude "HOL-Library.List_Lexorder"
begin

text \<open>
  Deterministic JSON, \<open>canonicalize\<close> of \<open>src/modules/ledger/chain.ts\<close>, with
  \<open>JSON.stringify\<close> on the scalars it is applied to. The normal form of a value forgets
  the order of an object's entries and its \<open>undefined\<close> entries, at every depth; the
  two results are that the text depends on the normal form only, and that it
  determines the normal form, so hashing the text commits to the content and to
  nothing else.
\<close>

section \<open>The printer\<close>

definition hex_digit :: "nat \<Rightarrow> char" where
  "hex_digit d = ''0123456789abcdef'' ! d"

text \<open>One character inside a JSON string literal, as \<open>JSON.stringify\<close> writes it.\<close>

definition esc :: "char \<Rightarrow> string" where
  "esc c =
     (if c = CHR 0x22 then [CHR 0x5C, CHR 0x22]
      else if c = CHR 0x5C then [CHR 0x5C, CHR 0x5C]
      else if c = CHR 0x08 then [CHR 0x5C, CHR ''b'']
      else if c = CHR 0x09 then [CHR 0x5C, CHR ''t'']
      else if c = CHR 0x0A then [CHR 0x5C, CHR ''n'']
      else if c = CHR 0x0C then [CHR 0x5C, CHR ''f'']
      else if c = CHR 0x0D then [CHR 0x5C, CHR ''r'']
      else if (of_char c :: nat) < 32
      then [CHR 0x5C, CHR ''u'', CHR ''0'', CHR ''0'',
            hex_digit (of_char c div 16), hex_digit (of_char c mod 16)]
      else [c])"

definition quote :: "string \<Rightarrow> string" where
  "quote s = CHR 0x22 # concat (map esc s) @ [CHR 0x22]"

fun join :: "string \<Rightarrow> string list \<Rightarrow> string" where
  "join sep [] = []"
| "join sep [x] = x"
| "join sep (x # y # xs) = x @ sep @ join sep (y # xs)"

fun present :: "(string \<times> 'a option) list \<Rightarrow> (string \<times> 'a) list" where
  "present [] = []"
| "present ((k, None) # es) = present es"
| "present ((k, Some v) # es) = (k, v) # present es"

lemma present_size: "(k, v) \<in> set (present es) \<Longrightarrow> (k, Some v) \<in> set es"
  by (induction es rule: present.induct) auto

lemma size_present:
  assumes "(k, v) \<in> set (present es)"
  shows "size v < Suc (size_list (size_prod (\<lambda>_. 0) (size_option size)) es)"
  using assms by (induction es rule: present.induct) auto

text \<open>
  \<open>canonicalize\<close>: scalars by \<open>JSON.stringify\<close>, arrays element by element, objects with
  their present entries sorted by key.
\<close>

function canonicalize :: "json \<Rightarrow> string" where
  "canonicalize JNull = ''null''"
| "canonicalize (JBool b) = (if b then ''true'' else ''false'')"
| "canonicalize (JNum n) = show_int n"
| "canonicalize (JStr s) = quote s"
| "canonicalize (JArr vs) = CHR ''['' # join '','' (map canonicalize vs) @ [CHR '']'']"
| "canonicalize (JObj es) =
     CHR 0x7B # join '','' (map (\<lambda>(k, v). quote k @ '':'' @ canonicalize v)
       (sort_key fst (present es))) @ [CHR 0x7D]"
  by pat_completeness auto
termination
  by (relation "measure size")
    (auto simp: less_Suc_eq_le size_list_estimation' dest: size_present)

section \<open>The normal form\<close>

datatype njson =
    NNull
  | NBool bool
  | NNum int
  | NStr string
  | NArr "njson list"
  | NObj "(string \<times> njson) list"

function normal :: "json \<Rightarrow> njson" where
  "normal JNull = NNull"
| "normal (JBool b) = NBool b"
| "normal (JNum n) = NNum n"
| "normal (JStr s) = NStr s"
| "normal (JArr vs) = NArr (map normal vs)"
| "normal (JObj es) = NObj (map (\<lambda>(k, v). (k, normal v)) (sort_key fst (present es)))"
  by pat_completeness auto
termination
  by (relation "measure size")
    (auto simp: less_Suc_eq_le size_list_estimation' dest: size_present)

fun pretty :: "njson \<Rightarrow> string" where
  "pretty NNull = ''null''"
| "pretty (NBool b) = (if b then ''true'' else ''false'')"
| "pretty (NNum n) = show_int n"
| "pretty (NStr s) = quote s"
| "pretty (NArr vs) = CHR ''['' # join '','' (map pretty vs) @ [CHR '']'']"
| "pretty (NObj es) =
     CHR 0x7B # join '','' (map (\<lambda>(k, v). quote k @ '':'' @ pretty v) es) @ [CHR 0x7D]"

lemma canonicalize_pretty: "canonicalize v = pretty (normal v)"
proof (induction v rule: canonicalize.induct)
  case (5 vs)
  then show ?case by (simp add: comp_def cong: map_cong)
next
  case (6 es)
  have "map (\<lambda>(k, v). quote k @ '':'' @ canonicalize v) (sort_key fst (present es)) =
      map ((\<lambda>(k, v). quote k @ '':'' @ pretty v) \<circ> (\<lambda>(k, v). (k, normal v))) (sort_key fst (present es))"
    using 6 by (intro map_cong) auto
  then show ?case by (simp only: canonicalize.simps normal.simps pretty.simps map_map)
qed simp_all

section \<open>Reading the text back\<close>

text \<open>Escapes are a prefix code that never produces the closing quote.\<close>

lemma hex_digit_inj: "a < 16 \<Longrightarrow> b < 16 \<Longrightarrow> hex_digit a = hex_digit b \<longleftrightarrow> a = b"
  unfolding hex_digit_def by (rule nth_eq_iff_index_eq) simp_all

lemma hex_byte_inj:
  assumes "m < 32" and "n < 32" and "hex_digit (m div 16) = hex_digit (n div 16)"
    and "hex_digit (m mod 16) = hex_digit (n mod 16)"
  shows "m = n"
proof -
  have "m div 16 = n div 16" "m mod 16 = n mod 16"
    using assms hex_digit_inj [of "m div 16" "n div 16"] hex_digit_inj [of "m mod 16" "n mod 16"]
    by (simp_all add: less_mult_imp_div_less)
  then show ?thesis by (metis div_mult_mod_eq)
qed

lemma esc_head: "\<exists>x xs. esc c = x # xs \<and> x \<noteq> CHR 0x22"
  by (simp add: esc_def)

lemma esc_prefix_code: "esc c @ r = esc d @ s \<Longrightarrow> c = d \<and> r = s"
  unfolding esc_def
  by (auto split: if_splits dest: hex_byte_inj [rotated 2])

lemma escaped_prefix_code:
  "concat (map esc x) @ CHR 0x22 # r = concat (map esc y) @ CHR 0x22 # s \<Longrightarrow> x = y \<and> r = s"
proof (induction x arbitrary: y)
  case Nil
  show ?case
  proof (cases y)
    case Nil
    with Nil.prems show ?thesis by simp
  next
    case (Cons d ys)
    then show ?thesis using Nil.prems esc_head [of d] by auto
  qed
next
  case (Cons c xs)
  show ?case
  proof (cases y)
    case Nil
    then show ?thesis using Cons.prems esc_head [of c] by auto
  next
    case (Cons d ys)
    with Cons.prems have "esc c @ concat (map esc xs) @ CHR 0x22 # r = esc d @ concat (map esc ys) @ CHR 0x22 # s"
      by simp
    from esc_prefix_code [OF this] Cons.IH [of ys] Cons show ?thesis by simp
  qed
qed

lemma quote_prefix_code: "quote x @ r = quote y @ s \<Longrightarrow> x = y \<and> r = s"
  unfolding quote_def using escaped_prefix_code [of x r y s] by simp

text \<open>Decimal numerals are read up to the first character that is not a digit.\<close>

definition is_digit :: "char \<Rightarrow> bool" where
  "is_digit c \<longleftrightarrow> c \<in> set ''0123456789''"

lemma digit_char_is_digit: "d < 10 \<Longrightarrow> is_digit (digit_char d)"
  unfolding is_digit_def digit_char_def by (rule nth_mem) simp

lemma show_nat_digits: "list_all is_digit (show_nat n) \<and> show_nat n \<noteq> []"
proof (induction n rule: show_nat.induct)
  case (1 n)
  then show ?case by (subst (1 2) show_nat.simps) (auto simp: digit_char_is_digit)
qed

lemma show_nat_inj: "show_nat m = show_nat n \<Longrightarrow> m = n"
proof (induction m arbitrary: n rule: show_nat.induct)
  case (1 m)
  consider "m < 10" "n < 10" | "m < 10" "\<not> n < 10" | "\<not> m < 10" "n < 10" | "\<not> m < 10" "\<not> n < 10"
    by blast
  then show ?case
  proof cases
    case 1
    with "1.prems" show ?thesis by (simp add: show_nat.simps [of m] show_nat.simps [of n] digit_char_inj)
  next
    case 2
    with "1.prems" show ?thesis
      using show_nat_digits [of "n div 10"] by (simp add: show_nat.simps [of m] show_nat.simps [of n])
  next
    case 3
    with "1.prems" show ?thesis
      using show_nat_digits [of "m div 10"] by (simp add: show_nat.simps [of m] show_nat.simps [of n])
  next
    case 4
    with "1.prems" have "show_nat (m div 10) = show_nat (n div 10)" "m mod 10 = n mod 10"
      by (simp_all add: show_nat.simps [of m] show_nat.simps [of n] digit_char_inj)
    with "1.IH" 4 have "m div 10 = n div 10" by blast
    with \<open>m mod 10 = n mod 10\<close> show ?thesis by (metis div_mult_mod_eq)
  qed
qed

lemma digits_prefix_code:
  assumes "list_all is_digit xs" and "list_all is_digit ys" and "xs @ r = ys @ s"
    and "r = [] \<or> \<not> is_digit (hd r)" and "s = [] \<or> \<not> is_digit (hd s)"
  shows "xs = ys \<and> r = s"
proof -
  have "takeWhile is_digit (zs @ t) = zs" if "list_all is_digit zs" "t = [] \<or> \<not> is_digit (hd t)" for zs t
    using that by (cases t) (auto simp: takeWhile_append list_all_iff)
  then have "xs = ys" using assms by metis
  with assms(3) show ?thesis by simp
qed

definition delim :: "string \<Rightarrow> bool" where
  "delim s \<longleftrightarrow> s = [] \<or> hd s \<in> {CHR '','', CHR '']'', CHR 0x7D}"

lemma delim_simps [simp]: "delim []" "delim (c # s) \<longleftrightarrow> c \<in> {CHR '','', CHR '']'', CHR 0x7D}"
  by (simp_all add: delim_def)

lemma delim_not_digit: "delim s \<Longrightarrow> s = [] \<or> \<not> is_digit (hd s)"
  by (auto simp: delim_def is_digit_def)

lemma show_int_prefix_code:
  assumes "show_int i @ r = show_int j @ s" and "delim r" and "delim s"
  shows "i = j \<and> r = s"
proof -
  have nat: "m = n \<and> r = s" if "show_nat m @ r = show_nat n @ s" for m n
    using digits_prefix_code [of "show_nat m" "show_nat n" r s] that assms(2,3) show_nat_digits
      delim_not_digit show_nat_inj by metis
  have neg: "show_nat m @ t \<noteq> CHR ''-'' # u" for m t u
    using show_nat_digits [of m] by (cases "show_nat m") (auto simp: is_digit_def)
  show ?thesis
  proof (cases "i < 0"; cases "j < 0")
    assume "i < 0" "j < 0"
    then show ?thesis using assms(1) nat [of "nat (- i)" "nat (- j)"] by (simp add: show_int_def eq_nat_nat_iff)
  next
    assume "i < 0" "\<not> j < 0"
    then show ?thesis using assms(1) neg [of "nat j" s] by (auto simp: show_int_def dest: sym)
  next
    assume "\<not> i < 0" "j < 0"
    then show ?thesis using assms(1) neg [of "nat i" r] by (simp add: show_int_def)
  next
    assume "\<not> i < 0" "\<not> j < 0"
    then show ?thesis using assms(1) nat [of "nat i" "nat j"] by (simp add: show_int_def eq_nat_nat_iff)
  qed
qed

text \<open>Comma-separated lists of anything that reads back, up to a closing bracket.\<close>

definition reads_back :: "('a \<Rightarrow> string) \<Rightarrow> 'a \<Rightarrow> bool" where
  "reads_back p x \<longleftrightarrow>
     (\<forall>y r s. p x @ r = p y @ s \<longrightarrow> delim r \<longrightarrow> delim s \<longrightarrow> x = y \<and> r = s)"

definition starts_value :: "string \<Rightarrow> bool" where
  "starts_value t \<longleftrightarrow> t \<noteq> [] \<and> \<not> delim t"

lemma join_Cons: "join '','' (x # xs) = x @ concat (map (\<lambda>y. CHR '','' # y) xs)"
  by (induction xs arbitrary: x) auto

lemma commas_read_back:
  assumes "\<forall>x \<in> set xs. reads_back p x" and "cl \<in> {CHR '']'', CHR 0x7D}"
    and "concat (map (\<lambda>y. CHR '','' # p y) xs) @ cl # r = concat (map (\<lambda>y. CHR '','' # p y) ys) @ cl # s"
  shows "xs = ys \<and> r = s"
  using assms
proof (induction xs arbitrary: ys)
  case Nil
  then show ?case by (cases ys) auto
next
  case (Cons x xs)
  then obtain y ys' where ys: "ys = y # ys'" by (cases ys) auto
  let ?t = "\<lambda>zs. concat (map (\<lambda>y. CHR '','' # p y) zs)"
  have d: "delim (?t zs @ cl # q)" for zs q using Cons.prems(2) by (cases zs) auto
  have "p x @ ?t xs @ cl # r = p y @ ?t ys' @ cl # s" using Cons.prems(3) by (simp add: ys)
  with Cons.prems(1) d have "x = y" "?t xs @ cl # r = ?t ys' @ cl # s"
    by (auto simp: reads_back_def)
  with Cons.IH [of ys'] Cons.prems ys show ?case by simp
qed

lemma joined_read_back:
  assumes rb: "\<forall>x \<in> set xs. reads_back p x" and cl: "cl \<in> {CHR '']'', CHR 0x7D}"
    and st: "\<And>x. starts_value (p x)"
    and eq: "join '','' (map p xs) @ cl # r = join '','' (map p ys) @ cl # s"
  shows "xs = ys \<and> r = s"
proof (cases xs; cases ys)
  fix x xs' y ys' assume c: "xs = x # xs'" "ys = y # ys'"
  let ?t = "\<lambda>zs. concat (map (\<lambda>y. CHR '','' # p y) zs)"
  have d: "delim (?t zs @ cl # q)" for zs q using cl by (cases zs) auto
  have "p x @ ?t xs' @ cl # r = p y @ ?t ys' @ cl # s"
    using eq by (simp add: c join_Cons comp_def)
  with rb d c have "x = y" "?t xs' @ cl # r = ?t ys' @ cl # s"
    by (auto simp: reads_back_def)
  with commas_read_back [OF _ cl, of xs' p r ys' s] rb c show ?thesis by simp
next
  fix y ys' assume "xs = []" "ys = y # ys'"
  then show ?thesis using eq st [of y] cl by (cases "p y") (auto simp: starts_value_def join_Cons)
next
  fix x xs' assume "xs = x # xs'" "ys = []"
  then show ?thesis using eq st [of x] cl by (cases "p x") (auto simp: starts_value_def join_Cons)
qed (use eq in auto)

lemma show_int_start: "\<exists>c cs. show_int n = c # cs \<and> (c = CHR ''-'' \<or> is_digit c)"
  using show_nat_digits [of "nat n"]
  by (cases "show_nat (nat n)") (auto simp: show_int_def)

text \<open>What the first character of a value can be.\<close>

fun lead :: "njson \<Rightarrow> char \<Rightarrow> bool" where
  "lead NNull c \<longleftrightarrow> c = CHR ''n''"
| "lead (NBool b) c \<longleftrightarrow> c = (if b then CHR ''t'' else CHR ''f'')"
| "lead (NNum n) c \<longleftrightarrow> c = CHR ''-'' \<or> is_digit c"
| "lead (NStr s) c \<longleftrightarrow> c = CHR 0x22"
| "lead (NArr vs) c \<longleftrightarrow> c = CHR ''[''"
| "lead (NObj es) c \<longleftrightarrow> c = CHR 0x7B"

lemma pretty_lead: "\<exists>c cs. pretty v = c # cs \<and> lead v c"
  using show_int_start by (cases v) (auto simp: quote_def)

lemma pretty_starts: "starts_value (pretty v)"
  using pretty_lead [of v] by (cases v) (auto simp: starts_value_def is_digit_def split: if_splits)

lemma same_lead:
  assumes "pretty v @ r = pretty w @ s"
  shows "\<exists>c. lead v c \<and> lead w c"
  using assms pretty_lead [of v] pretty_lead [of w] by auto

lemma entry_reads_back:
  "reads_back pretty v \<Longrightarrow> reads_back (\<lambda>(k, v). quote k @ '':'' @ pretty v) (k, v)"
  unfolding reads_back_def
  by (auto dest!: quote_prefix_code)

lemma pretty_reads_back: "reads_back pretty v"
proof (induction v)
  case (NArr vs)
  show ?case
    unfolding reads_back_def
  proof (intro allI impI)
    fix w r s assume eq: "pretty (NArr vs) @ r = pretty w @ s"
    with same_lead [OF eq] obtain ws where w: "w = NArr ws"
      by (cases w) (auto simp: is_digit_def split: if_splits)
    with eq show "NArr vs = w \<and> r = s"
      using joined_read_back [of vs pretty "CHR '']''" r ws s] NArr pretty_starts by simp
  qed
next
  case (NObj es)
  show ?case
    unfolding reads_back_def
  proof (intro allI impI)
    let ?p = "\<lambda>(k, v). quote k @ '':'' @ pretty v"
    fix w r s assume eq: "pretty (NObj es) @ r = pretty w @ s"
    with same_lead [OF eq] obtain ws where w: "w = NObj ws"
      by (cases w) (auto simp: is_digit_def split: if_splits)
    have "\<forall>x \<in> set es. reads_back ?p x"
      using NObj entry_reads_back by (fastforce simp: snds.simps)
    moreover have "starts_value (?p x)" for x
      by (cases x) (simp add: starts_value_def quote_def)
    ultimately show "NObj es = w \<and> r = s"
      using joined_read_back [of es ?p "CHR 0x7D" r ws s] eq w by simp
  qed
next
  case (NNum n)
  show ?case
    unfolding reads_back_def
  proof (intro allI impI)
    fix w r s assume eq: "pretty (NNum n) @ r = pretty w @ s" "delim r" "delim s"
    with same_lead [OF eq(1)] obtain m where w: "w = NNum m"
      by (cases w) (auto simp: is_digit_def split: if_splits)
    with eq show "NNum n = w \<and> r = s" using show_int_prefix_code [of n r m s] by simp
  qed
next
  case (NStr x)
  show ?case
    unfolding reads_back_def
  proof (intro allI impI)
    fix w r s assume eq: "pretty (NStr x) @ r = pretty w @ s"
    with same_lead [OF eq] obtain y where w: "w = NStr y"
      by (cases w) (auto simp: is_digit_def split: if_splits)
    with eq show "NStr x = w \<and> r = s" using quote_prefix_code [of x r y s] by simp
  qed
next
  case NNull
  show ?case
    unfolding reads_back_def
  proof (intro allI impI)
    fix w r s assume eq: "pretty NNull @ r = pretty w @ s"
    with same_lead [OF eq] show "NNull = w \<and> r = s"
      by (cases w) (auto simp: is_digit_def split: if_splits)
  qed
next
  case (NBool b)
  show ?case
    unfolding reads_back_def
  proof (intro allI impI)
    fix w r s assume eq: "pretty (NBool b) @ r = pretty w @ s"
    with same_lead [OF eq] show "NBool b = w \<and> r = s"
      by (cases w) (auto simp: is_digit_def split: if_splits)
  qed
qed

lemma pretty_inj: "pretty v = pretty w \<longleftrightarrow> v = w"
  using pretty_reads_back [of v]
  by (auto simp: reads_back_def dest!: spec [of _ w] spec [of _ "[]"])

lemma show_int_inj: "show_int i = show_int j \<longleftrightarrow> i = j"
  using pretty_inj [of "NNum i" "NNum j"] by simp

text \<open>
  the canonical text of a value determines the value, up to the order of object
  entries and the entries that are \<open>undefined\<close>, and depends on nothing else: two
  values have the same text exactly when they have the same normal form.
\<close>

theorem canonicalize_injective: "canonicalize v = canonicalize w \<longleftrightarrow> normal v = normal w"
  by (simp add: canonicalize_pretty pretty_inj)

lemma set_present: "set (present es) = {(k, v). (k, Some v) \<in> set es}"
  by (induction es rule: present.induct) auto

lemma distinct_present: "distinct (map fst es) \<Longrightarrow> distinct (map fst (present es))"
proof (induction es rule: present.induct)
  case (3 k v es)
  then show ?case by (force simp: set_present)
qed simp_all

text \<open>
  the canonical text does not depend on the order in which an object's
  properties were inserted.
\<close>

theorem canonicalize_key_order:
  assumes "distinct (map fst es)" and "distinct (map fst es')" and "set es = set es'"
  shows "canonicalize (JObj es) = canonicalize (JObj es')"
proof -
  have set_eq: "set (sort_key fst (present es)) = set (sort_key fst (present es'))"
    using assms(3) by (simp add: set_present)
  have d: "distinct (map fst (sort_key fst (present xs)))" if "distinct (map fst xs)" for xs :: "(string \<times> json option) list"
    using distinct_present [OF that] by (metis distinct_map distinct_sort set_sort)
  have "inj_on fst (set (present es))"
    using distinct_present [OF assms(1)] by (simp add: distinct_map)
  then have "sort_key fst (present es) = sort_key fst (present es')"
    using set_eq d [OF assms(1)] d [OF assms(2)]
    by (intro map_sorted_distinct_set_unique [of fst]) simp_all
  then show ?thesis by simp
qed

theorem canonicalize_key_order_witness:
  "canonicalize (JObj [(''ok'', Some (JBool True)), (''error'', None), (''at'', Some (JNum 7))]) =
   canonicalize (JObj [(''at'', Some (JNum 7)), (''error'', None), (''ok'', Some (JBool True))])"
  by (rule canonicalize_key_order) auto

end
