(* ===== verification/Ledger.thy ===== *)
theory Ledger
  imports Canonical_Json
begin

unbundle bit_operations_syntax

text \<open>
  The evidence ledger: hybrid logical clocks (\<open>src/modules/ledger/hlc.ts\<close>), hash
  chains (\<open>chain.ts\<close>) and the one path that writes facts (\<open>service.ts\<close>). A bigint is
  an \<open>int\<close>; the hash function is a parameter \<open>sha256\<close>.

  The clock is an instance of the locale \<open>logical_clock\<close>: it never throws on a value
  it issued and always advances, whatever the host clock does. The fact writer keeps
  every actor's chain verifiable, for any interleaving of actors, which is proved
  over all reachable ledgers. Verification is tamper-evident: two chains that verify
  and end in the same hash agree on every fact, unless the hash function collides on
  two canonical texts.
\<close>

section \<open>Hybrid logical clocks\<close>

definition MAX_COUNTER :: int where
  "MAX_COUNTER = push_bit 16 1 - 1"

definition encodeHlc :: "int \<Rightarrow> int \<Rightarrow> int result" where
  "encodeHlc physicalMs counter =
     (if physicalMs < 0 \<or> counter < 0 \<or> MAX_COUNTER < counter
      then Inl (''Cannot encode HLC ('' @ show_int physicalMs @ '', '' @ show_int counter @ '')'')
      else Inr (push_bit 16 physicalMs OR counter))"

definition decodeHlc :: "int \<Rightarrow> int \<times> int" where
  "decodeHlc hlc = (drop_bit 16 hlc, hlc AND MAX_COUNTER)"

definition nextHlc :: "int \<Rightarrow> int \<Rightarrow> int result" where
  "nextHlc previous nowMs =
     (let (priorMs, priorCounter) = decodeHlc previous;
          physicalMs = max priorMs nowMs
      in if priorMs < physicalMs then encodeHlc physicalMs 0
         else if MAX_COUNTER \<le> priorCounter then encodeHlc (physicalMs + 1) 0
         else encodeHlc physicalMs (priorCounter + 1))"

definition hlcToDate :: "int \<Rightarrow> date" where
  "hlcToDate hlc = fst (decodeHlc hlc)"

lemma MAX_COUNTER_eq: "MAX_COUNTER = 65535" "MAX_COUNTER = mask 16"
  by (simp_all add: MAX_COUNTER_def mask_eq_exp_minus_1)

lemma decode_div_mod: "decodeHlc h = (h div 65536, h mod 65536)"
  by (simp add: decodeHlc_def MAX_COUNTER_eq(2) take_bit_eq_mask [symmetric] drop_bit_eq_div take_bit_eq_mod)

lemma push_or_add:
  assumes "0 \<le> c" and "c < 65536"
  shows "push_bit 16 p OR c = p * 65536 + (c::int)"
proof -
  have c: "take_bit 16 c = c" using assms by (simp add: take_bit_eq_mod)
  have "\<not> (bit (push_bit 16 p) n \<and> bit c n)" for n
    by (subst c [symmetric]) (auto simp: bit_push_bit_iff bit_take_bit_iff)
  then have "push_bit 16 p AND c = 0" by (auto simp: bit_eq_iff bit_and_iff)
  then have "push_bit 16 p OR c = push_bit 16 p + c" by (simp add: disjunctive_add_eq_or)
  then show ?thesis by (simp add: push_bit_eq_mult)
qed

lemma encode_eq:
  "encodeHlc p c = (if 0 \<le> p \<and> 0 \<le> c \<and> c < 65536 then Inr (p * 65536 + c)
     else Inl (''Cannot encode HLC ('' @ show_int p @ '', '' @ show_int c @ '')''))"
  by (auto simp: encodeHlc_def MAX_COUNTER_eq(1) push_or_add)

text \<open>
  encoding and decoding a clock are inverse on the whole range the encoder
  accepts, and the encoder rejects everything else.
\<close>

theorem hlc_roundtrip:
  "(case encodeHlc p c of
      Inr h \<Rightarrow> 0 \<le> p \<and> 0 \<le> c \<and> c \<le> MAX_COUNTER \<and> decodeHlc h = (p, c)
    | Inl e \<Rightarrow> p < 0 \<or> c < 0 \<or> MAX_COUNTER < c) \<and>
   (0 \<le> h \<longrightarrow> encodeHlc (fst (decodeHlc h)) (snd (decodeHlc h)) = Inr h)"
  by (auto simp: encode_eq decode_div_mod MAX_COUNTER_eq(1) pos_imp_zdiv_nonneg_iff)

theorem hlc_roundtrip_witness:
  "encodeHlc (fst (decodeHlc 131077)) (snd (decodeHlc 131077)) = Inr 131077"
  using hlc_roundtrip [of 2 5 131077] by simp

text \<open>What the fact writer relies on: a clock that always moves forward.\<close>

locale logical_clock =
  fixes tick :: "int \<Rightarrow> int \<Rightarrow> int result"
    and issued :: "int \<Rightarrow> bool"
  assumes tick_advances: "issued p \<Longrightarrow> \<exists>h. tick p now = Inr h \<and> p < h \<and> issued h"
begin

text \<open>The clock values an actor issues at the given host times.\<close>

fun ticks :: "int \<Rightarrow> int list \<Rightarrow> int list" where
  "ticks p [] = []"
| "ticks p (now # nows) = (case tick p now of Inl _ \<Rightarrow> [] | Inr h \<Rightarrow> h # ticks h nows)"

lemma ticks_total: "issued p \<Longrightarrow> length (ticks p nows) = length nows"
proof (induction nows arbitrary: p)
  case (Cons now nows)
  then obtain h where "tick p now = Inr h" "issued h" using tick_advances by blast
  then show ?case using Cons.IH by simp
qed simp

lemma ticks_increasing: "issued p \<Longrightarrow> sorted_wrt (<) (p # ticks p nows)"
proof (induction nows arbitrary: p)
  case (Cons now nows)
  then obtain h where h: "tick p now = Inr h" "p < h" "issued h" using tick_advances by blast
  from Cons.IH [OF h(3)] h show ?case by auto
qed simp

end

lemma nextHlc_eq:
  assumes "0 \<le> previous"
  shows "nextHlc previous now =
    Inr (if previous div 65536 < now then now * 65536 else previous + 1)"
proof -
  have "previous div 65536 \<ge> 0" using assms by (simp add: pos_imp_zdiv_nonneg_iff)
  moreover have "previous div 65536 * 65536 + previous mod 65536 = previous" by simp
  ultimately show ?thesis
    by (auto simp: nextHlc_def decode_div_mod encode_eq MAX_COUNTER_eq(1) Let_def max_def) presburger+
qed

lemma behind_host: "p div 65536 < now \<Longrightarrow> p < now * (65536::int)"
proof -
  assume "p div 65536 < now"
  moreover have "p = 65536 * (p div 65536) + p mod 65536" "p mod 65536 < 65536"
    by simp_all
  ultimately show ?thesis by linarith
qed

interpretation hlc: logical_clock nextHlc "\<lambda>h. 0 \<le> h"
proof
  fix p now :: int assume p: "0 \<le> p"
  from p show "\<exists>h. nextHlc p now = Inr h \<and> p < h \<and> 0 \<le> h"
    by (auto simp: nextHlc_eq behind_host)
qed

text \<open>
  from any clock it issued, the next clock exists, is strictly later, is not
  behind the host clock, and runs ahead of both the host and the previous value by
  at most one millisecond, even when the host clock goes backwards.
\<close>

theorem next_hlc_monotonic:
  assumes "0 \<le> previous"
  shows "\<exists>h. nextHlc previous nowMs = Inr h \<and> previous < h \<and> nowMs \<le> hlcToDate h \<and>
    hlcToDate h \<le> max (hlcToDate previous) nowMs + 1"
proof -
  have "(previous + 1) div 65536 \<le> (previous + 65536) div 65536" by (rule zdiv_mono1) simp_all
  moreover have "previous div 65536 \<le> (previous + 1) div 65536" by (rule zdiv_mono1) simp_all
  ultimately show ?thesis
    using assms by (auto simp: nextHlc_eq hlcToDate_def decode_div_mod behind_host)
qed

theorem next_hlc_monotonic_witness:
  "\<exists>h. nextHlc 131071 0 = Inr h \<and> 131071 < h \<and> 0 \<le> hlcToDate h"
  using next_hlc_monotonic [of 131071 0] by auto

text \<open>
  the clock values an actor issues over any sequence of host times, in any order
  and with any repetition, are strictly increasing and never stop.
\<close>

theorem hlc_sequence_increasing:
  assumes "0 \<le> start"
  shows "sorted_wrt (<) (start # hlc.ticks start nows) \<and> length (hlc.ticks start nows) = length nows"
  using assms by (simp only: hlc.ticks_increasing hlc.ticks_total)

theorem hlc_sequence_increasing_witness:
  "sorted_wrt (<) (0 # hlc.ticks 0 [5, 5, 3, 9]) \<and> length (hlc.ticks 0 [5, 5, 3, 9]) = length [5, 5, 3, 9 :: int]"
  by (rule hlc_sequence_increasing) simp

section \<open>Hash chains\<close>

datatype fact_kind = Observation | Decision

fun kind_text :: "fact_kind \<Rightarrow> string" where
  "kind_text Observation = ''observation''"
| "kind_text Decision = ''decision''"

record fact_input =
  fi_actorId :: string
  fi_seq :: int
  fi_hlc :: int
  fi_prevHash :: "string option"
  fi_kind :: fact_kind
  fi_subject :: string
  fi_specVersion :: "int option"
  fi_claim :: json

type_synonym stored_fact = "fact_input \<times> string"

definition json_str :: "string option \<Rightarrow> json" where
  "json_str x = (case x of None \<Rightarrow> JNull | Some s \<Rightarrow> JStr s)"

definition json_num :: "int option \<Rightarrow> json" where
  "json_num x = (case x of None \<Rightarrow> JNull | Some n \<Rightarrow> JNum n)"

definition fact_json :: "fact_input \<Rightarrow> json" where
  "fact_json f =
     JObj [(''actorId'', Some (JStr (fi_actorId f))),
           (''seq'', Some (JStr (show_int (fi_seq f)))),
           (''hlc'', Some (JStr (show_int (fi_hlc f)))),
           (''prevHash'', Some (json_str (fi_prevHash f))),
           (''kind'', Some (JStr (kind_text (fi_kind f)))),
           (''subject'', Some (JStr (fi_subject f))),
           (''specVersion'', Some (json_num (fi_specVersion f))),
           (''claim'', Some (fi_claim f))]"

definition factHash :: "(string \<Rightarrow> string) \<Rightarrow> fact_input \<Rightarrow> string" where
  "factHash sha256 f = sha256 (canonicalize (fact_json f))"

datatype chain_check = Valid | Invalid nat string

fun verify_from ::
  "(string \<Rightarrow> string) \<Rightarrow> string option \<Rightarrow> int option \<Rightarrow> int option \<Rightarrow> nat \<Rightarrow> stored_fact list \<Rightarrow> chain_check" where
  "verify_from sha256 expectedPrev expectedSeq previousHlc index [] = Valid"
| "verify_from sha256 expectedPrev expectedSeq previousHlc index ((f, hash) # facts) =
     (if expectedPrev \<noteq> None \<and> fi_prevHash f \<noteq> expectedPrev
      then Invalid index ''prev_hash does not match''
      else if expectedSeq \<noteq> None \<and> Some (fi_seq f) \<noteq> expectedSeq
      then Invalid index ''sequence is not contiguous''
      else if (case previousHlc of None \<Rightarrow> False | Some p \<Rightarrow> fi_hlc f \<le> p)
      then Invalid index ''clock did not advance''
      else if factHash sha256 f \<noteq> hash
      then Invalid index ''content does not match its hash''
      else verify_from sha256 (Some hash) (Some (fi_seq f + 1)) (Some (fi_hlc f)) (Suc index) facts)"

definition verifyChain :: "(string \<Rightarrow> string) \<Rightarrow> stored_fact list \<Rightarrow> chain_check" where
  "verifyChain sha256 facts = verify_from sha256 None None None 0 facts"

section \<open>The fact-writing path\<close>

datatype actor_kind = Control_plane | Worker | Edge | Human | External

definition kind_name :: "actor_kind \<Rightarrow> string" where
  "kind_name k =
     (case k of Control_plane \<Rightarrow> ''control-plane'' | Worker \<Rightarrow> ''worker'' | Edge \<Rightarrow> ''edge''
      | Human \<Rightarrow> ''human'' | External \<Rightarrow> ''external'')"

record actor_row =
  ac_sequence :: int
  ac_lastHlc :: int
  ac_headHash :: "string option"

text \<open>The actor table: rows by primary key, and the unique index on kind and name.\<close>

record ledger =
  lg_actors :: "string \<rightharpoonup> actor_row"
  lg_index :: "actor_kind \<times> string \<rightharpoonup> string"
  lg_facts :: "stored_fact list"

text \<open>A row as \<open>ensureActor\<close> inserts it: the schema's defaults.\<close>

definition new_actor :: actor_row where
  "new_actor = \<lparr>ac_sequence = 0, ac_lastHlc = 0, ac_headHash = None\<rparr>"

definition ACTOR_CACHE_MAX :: nat where
  "ACTOR_CACHE_MAX = 10000"

text \<open>The in-process cache, oldest entry first, as a JavaScript \<open>Map\<close> iterates.\<close>

type_synonym actor_cache = "(string \<times> string) list"

definition cacheKey :: "actor_kind \<Rightarrow> string \<Rightarrow> string" where
  "cacheKey k n = kind_name k @ '':'' @ n"

text \<open>\<open>INSERT ... ON CONFLICT DO NOTHING\<close>, with the key the database would generate.\<close>

definition insert_actor :: "string \<Rightarrow> actor_kind \<Rightarrow> string \<Rightarrow> ledger \<Rightarrow> ledger" where
  "insert_actor fresh k n l =
     (if lg_index l (k, n) \<noteq> None \<or> lg_actors l fresh \<noteq> None then l
      else l\<lparr>lg_actors := (lg_actors l)(fresh \<mapsto> new_actor),
             lg_index := (lg_index l)((k, n) \<mapsto> fresh)\<rparr>)"

definition ensureActor ::
  "string \<Rightarrow> actor_kind \<Rightarrow> string \<Rightarrow> actor_cache \<Rightarrow> ledger \<Rightarrow> actor_cache \<times> ledger \<times> string result" where
  "ensureActor fresh k n cache l =
     (case map_of cache (cacheKey k n) of
        Some cached \<Rightarrow> (cache, l, Inr cached)
      | None \<Rightarrow>
          (let l' = insert_actor fresh k n l
           in case lg_index l' (k, n) of
                None \<Rightarrow> (cache, l', Inl (''Could not resolve actor '' @ cacheKey k n))
              | Some a \<Rightarrow>
                  (let cache' = (if ACTOR_CACHE_MAX \<le> length cache then tl cache else cache)
                   in (cache' @ [(cacheKey k n, a)], l', Inr a))))"

text \<open>The columns a stamp adds to the row of the fact.\<close>

record ledger_stamp =
  ls_actorId :: string
  ls_hlc :: int
  ls_seq :: int
  ls_prevHash :: "string option"
  ls_hash :: string
  ls_specVersion :: "int option"

definition stamp_of :: "stored_fact \<Rightarrow> ledger_stamp" where
  "stamp_of = (\<lambda>(f, hash).
     \<lparr>ls_actorId = fi_actorId f, ls_hlc = fi_hlc f, ls_seq = fi_seq f, ls_prevHash = fi_prevHash f,
      ls_hash = hash, ls_specVersion = fi_specVersion f\<rparr>)"

record stamp_input =
  si_actorId :: string
  si_kind :: fact_kind
  si_subject :: string
  si_specVersion :: "int option"
  si_claim :: json

text \<open>\<open>stampFact\<close>: advance the actor's chain by one fact. The result is the new actor
  table and the stamped fact with its hash.\<close>

definition stampFact ::
  "(string \<Rightarrow> string) \<Rightarrow> (string \<rightharpoonup> actor_row) \<Rightarrow> stamp_input \<Rightarrow> int \<Rightarrow> ((string \<rightharpoonup> actor_row) \<times> stored_fact) result" where
  "stampFact sha256 actors input nowMs =
     (case actors (si_actorId input) of
        None \<Rightarrow> Inl (''Unknown actor '' @ si_actorId input)
      | Some row \<Rightarrow>
          (let seq = ac_sequence row + 1
           in case nextHlc (ac_lastHlc row) nowMs of
                Inl e \<Rightarrow> Inl e
              | Inr hlc \<Rightarrow>
                  (let f = \<lparr>fi_actorId = si_actorId input, fi_seq = seq, fi_hlc = hlc,
                            fi_prevHash = ac_headHash row, fi_kind = si_kind input,
                            fi_subject = si_subject input, fi_specVersion = si_specVersion input,
                            fi_claim = si_claim input\<rparr>;
                       hash = factHash sha256 f
                   in Inr (actors(si_actorId input \<mapsto>
                             \<lparr>ac_sequence = seq, ac_lastHlc = hlc, ac_headHash = Some hash\<rparr>),
                           (f, hash)))))"

text \<open>The transaction around it: the stamp and the fact commit together.\<close>

definition writeFact ::
  "(string \<Rightarrow> string) \<Rightarrow> stamp_input \<Rightarrow> int \<Rightarrow> ledger \<Rightarrow> ledger result" where
  "writeFact sha256 input nowMs l =
     (case stampFact sha256 (lg_actors l) input nowMs of
        Inl e \<Rightarrow> Inl e
      | Inr (actors, entry) \<Rightarrow> Inr (l\<lparr>lg_actors := actors, lg_facts := lg_facts l @ [entry]\<rparr>))"

inductive ledger_step :: "(string \<Rightarrow> string) \<Rightarrow> ledger \<Rightarrow> ledger \<Rightarrow> bool" for sha256 where
  register: "ensureActor fresh k n cache l = (cache', l', r) \<Longrightarrow> ledger_step sha256 l l'"
| fact_written: "writeFact sha256 input nowMs l = Inr l' \<Longrightarrow> ledger_step sha256 l l'"

definition empty_ledger :: "ledger \<Rightarrow> bool" where
  "empty_ledger l \<longleftrightarrow> lg_actors l = Map.empty \<and> lg_index l = Map.empty \<and> lg_facts l = []"

definition facts_of :: "string \<Rightarrow> ledger \<Rightarrow> stored_fact list" where
  "facts_of a l = filter (\<lambda>(f, _). fi_actorId f = a) (lg_facts l)"

section \<open>Chains stay verifiable\<close>

text \<open>One link, given the fact before it.\<close>

fun linked :: "(string \<Rightarrow> string) \<Rightarrow> stored_fact option \<Rightarrow> stored_fact \<Rightarrow> bool" where
  "linked sha256 None (f, h) \<longleftrightarrow> factHash sha256 f = h"
| "linked sha256 (Some (g, hg)) (f, h) \<longleftrightarrow>
     fi_prevHash f = Some hg \<and> fi_seq f = fi_seq g + 1 \<and> fi_hlc g < fi_hlc f \<and> factHash sha256 f = h"

fun chained :: "(string \<Rightarrow> string) \<Rightarrow> stored_fact option \<Rightarrow> stored_fact list \<Rightarrow> bool" where
  "chained sha256 p [] \<longleftrightarrow> True"
| "chained sha256 p (x # xs) \<longleftrightarrow> linked sha256 p x \<and> chained sha256 (Some x) xs"

lemma verify_from_chained:
  "verify_from sha256 (Some (snd p)) (Some (fi_seq (fst p) + 1)) (Some (fi_hlc (fst p))) i xs = Valid \<longleftrightarrow>
   chained sha256 (Some p) xs"
proof (induction xs arbitrary: p i)
  case (Cons x xs)
  show ?case
    using Cons.IH [of x "Suc i"] by (cases x; cases p) (auto simp: not_le)
qed simp

lemma verifyChain_chained: "verifyChain sha256 xs = Valid \<longleftrightarrow> chained sha256 None xs"
proof (cases xs)
  case (Cons x xs')
  then show ?thesis
    using verify_from_chained [of sha256 x "Suc 0" xs'] by (cases x) (auto simp: verifyChain_def)
qed (simp add: verifyChain_def)

lemma chained_snoc:
  "chained sha256 p (xs @ [x]) \<longleftrightarrow>
     chained sha256 p xs \<and> linked sha256 (if xs = [] then p else Some (last xs)) x"
  by (induction xs arbitrary: p) auto

text \<open>An actor's row mirrors the head of its chain.\<close>

definition in_step :: "actor_row \<Rightarrow> stored_fact list \<Rightarrow> bool" where
  "in_step row xs \<longleftrightarrow>
     0 \<le> ac_lastHlc row \<and>
     (xs \<noteq> [] \<longrightarrow>
        ac_sequence row = fi_seq (fst (last xs)) \<and> ac_lastHlc row = fi_hlc (fst (last xs)) \<and>
        ac_headHash row = Some (snd (last xs)))"

definition actor_inv :: "(string \<Rightarrow> string) \<Rightarrow> actor_row option \<Rightarrow> stored_fact list \<Rightarrow> bool" where
  "actor_inv sha256 row xs \<longleftrightarrow>
     chained sha256 None xs \<and> (case row of None \<Rightarrow> xs = [] | Some r \<Rightarrow> in_step r xs)"

definition ledger_inv :: "(string \<Rightarrow> string) \<Rightarrow> ledger \<Rightarrow> bool" where
  "ledger_inv sha256 l \<longleftrightarrow> (\<forall>a. actor_inv sha256 (lg_actors l a) (facts_of a l))"

lemma ledger_inv_insert:
  assumes "ledger_inv sha256 l"
  shows "ledger_inv sha256 (insert_actor fresh k n l)"
proof -
  have "actor_inv sha256 (lg_actors l a) (facts_of a l)" for a
    using assms by (simp add: ledger_inv_def)
  moreover have "facts_of a (insert_actor fresh k n l) = facts_of a l" for a
    by (simp add: insert_actor_def facts_of_def)
  moreover have "actor_inv sha256 None xs \<Longrightarrow> actor_inv sha256 (Some new_actor) xs" for xs
    by (simp add: actor_inv_def in_step_def new_actor_def)
  ultimately show ?thesis
    by (auto simp: ledger_inv_def insert_actor_def) (metis)
qed

lemma ensureActor_ledger:
  "ensureActor fresh k n cache l = (cache', l', r) \<Longrightarrow> l' = l \<or> l' = insert_actor fresh k n l"
  by (auto simp: ensureActor_def Let_def split: option.splits)

lemma ledger_inv_register:
  "ledger_inv sha256 l \<Longrightarrow> ensureActor fresh k n cache l = (cache', l', r) \<Longrightarrow> ledger_inv sha256 l'"
  using ensureActor_ledger ledger_inv_insert by metis

lemma ledger_inv_write:
  assumes inv: "ledger_inv sha256 l" and w: "writeFact sha256 input nowMs l = Inr l'"
  shows "ledger_inv sha256 l'"
proof -
  let ?a = "si_actorId input"
  from w obtain row h where row: "lg_actors l ?a = Some row"
    and h: "nextHlc (ac_lastHlc row) nowMs = Inr h"
    by (auto simp: writeFact_def stampFact_def Let_def split: option.splits sum.splits)
  let ?f = "\<lparr>fi_actorId = ?a, fi_seq = ac_sequence row + 1, fi_hlc = h,
    fi_prevHash = ac_headHash row, fi_kind = si_kind input, fi_subject = si_subject input,
    fi_specVersion = si_specVersion input, fi_claim = si_claim input\<rparr>"
  have l': "lg_actors l' = (lg_actors l)(?a \<mapsto> \<lparr>ac_sequence = ac_sequence row + 1, ac_lastHlc = h,
      ac_headHash = Some (factHash sha256 ?f)\<rparr>)"
    "facts_of b l' = facts_of b l @ (if b = ?a then [(?f, factHash sha256 ?f)] else [])" for b
    using w row h by (auto simp: writeFact_def stampFact_def Let_def facts_of_def)
  have st: "in_step row (facts_of ?a l)" "chained sha256 None (facts_of ?a l)"
    using inv row by (auto simp: ledger_inv_def actor_inv_def dest!: spec [of _ ?a])
  have adv: "ac_lastHlc row < h" "0 \<le> h"
    using hlc.tick_advances [of "ac_lastHlc row" nowMs] st(1) h by (auto simp: in_step_def)
  have "linked sha256 (if facts_of ?a l = [] then None else Some (last (facts_of ?a l)))
      (?f, factHash sha256 ?f)"
    using st(1) adv by (cases "last (facts_of ?a l)") (auto simp: in_step_def)
  then have "actor_inv sha256 (lg_actors l' ?a) (facts_of ?a l')"
    using st adv by (simp add: l' actor_inv_def chained_snoc in_step_def)
  moreover have "actor_inv sha256 (lg_actors l' b) (facts_of b l')" if "b \<noteq> ?a" for b
    using inv that by (simp add: l' ledger_inv_def)
  ultimately show ?thesis unfolding ledger_inv_def by metis
qed

interpretation ledger: state_machine empty_ledger "ledger_step sha256" "ledger_inv sha256" for sha256
proof
  show "empty_ledger l \<Longrightarrow> ledger_inv sha256 l" for l
    by (simp add: empty_ledger_def ledger_inv_def actor_inv_def facts_of_def)
  show "ledger_inv sha256 l \<Longrightarrow> ledger_step sha256 l l' \<Longrightarrow> ledger_inv sha256 l'" for l l'
    by (auto elim!: ledger_step.cases intro: ledger_inv_register ledger_inv_write)
qed

text \<open>
  C4: in every ledger the fact writer can produce, for any interleaving of actors
  and any host clock, every actor's chain verifies.
\<close>

theorem reachable_chains_verify:
  assumes "reach empty_ledger (ledger_step sha256) l"
  shows "verifyChain sha256 (facts_of a l) = Valid"
  using ledger.reach_inv [OF assms] by (simp add: verifyChain_chained ledger_inv_def actor_inv_def)

definition blank_ledger :: ledger where
  "blank_ledger = \<lparr>lg_actors = Map.empty, lg_index = Map.empty, lg_facts = []\<rparr>"

definition one_actor :: ledger where
  "one_actor = insert_actor ''a1'' Worker ''w'' blank_ledger"

lemma one_actor_reachable: "reach empty_ledger (ledger_step sha256) one_actor"
proof (rule reach_step)
  show "reach empty_ledger (ledger_step sha256) blank_ledger"
    by (rule reach_init) (simp add: empty_ledger_def blank_ledger_def)
  show "ledger_step sha256 blank_ledger one_actor"
    by (rule ledger_step.register [where fresh = "''a1''" and k = Worker and n = "''w''" and cache = "[]"])
      (simp add: ensureActor_def one_actor_def insert_actor_def blank_ledger_def)
qed

definition example_stamp :: stamp_input where
  "example_stamp = \<lparr>si_actorId = ''a1'', si_kind = Observation, si_subject = ''m1'', si_specVersion = Some 3,
     si_claim = JObj [(''up'', Some (JBool True))]\<rparr>"

lemma first_tick: "nextHlc 0 1000 = Inr 65536000"
  by (simp add: nextHlc_def decode_div_mod encode_eq Let_def)

theorem reachable_chains_verify_witness:
  "\<exists>l. writeFact (\<lambda>s. s) example_stamp 1000 one_actor = Inr l \<and> length (facts_of ''a1'' l) = 1 \<and>
       verifyChain (\<lambda>s. s) (facts_of ''a1'' l) = Valid"
proof -
  obtain l where l: "writeFact (\<lambda>s. s) example_stamp 1000 one_actor = Inr l"
    and n: "length (facts_of ''a1'' l) = 1"
    by (simp add: writeFact_def stampFact_def example_stamp_def one_actor_def insert_actor_def
        blank_ledger_def new_actor_def first_tick Let_def facts_of_def)
  then have "reach empty_ledger (ledger_step (\<lambda>s. s)) l"
    using reach_step [OF one_actor_reachable] ledger_step.fact_written by metis
  from reachable_chains_verify [OF this] l n show ?thesis by blast
qed

lemma writeFact_total:
  assumes "ledger_inv sha256 l" and "lg_actors l (si_actorId input) = Some row"
  shows "\<exists>l'. writeFact sha256 input nowMs l = Inr l'"
proof -
  have "0 \<le> ac_lastHlc row"
    using assms by (auto simp: ledger_inv_def actor_inv_def in_step_def dest!: spec [of _ "si_actorId input"])
  then obtain h where "nextHlc (ac_lastHlc row) nowMs = Inr h" using hlc.tick_advances by blast
  with assms(2) show ?thesis by (simp add: writeFact_def stampFact_def Let_def)
qed

section \<open>Tamper evidence\<close>

definition same_content :: "fact_input \<Rightarrow> fact_input \<Rightarrow> bool" where
  "same_content f g \<longleftrightarrow>
     fi_actorId f = fi_actorId g \<and> fi_seq f = fi_seq g \<and> fi_hlc f = fi_hlc g \<and>
     fi_prevHash f = fi_prevHash g \<and> fi_kind f = fi_kind g \<and> fi_subject f = fi_subject g \<and>
     fi_specVersion f = fi_specVersion g \<and> normal (fi_claim f) = normal (fi_claim g)"

definition sha_collision :: "(string \<Rightarrow> string) \<Rightarrow> fact_input \<Rightarrow> fact_input \<Rightarrow> bool" where
  "sha_collision sha256 f g \<longleftrightarrow>
     canonicalize (fact_json f) \<noteq> canonicalize (fact_json g) \<and> factHash sha256 f = factHash sha256 g"

lemma json_str_inj: "normal (json_str x) = normal (json_str y) \<longleftrightarrow> x = y"
  by (auto simp: json_str_def split: option.splits)

lemma json_num_inj: "normal (json_num x) = normal (json_num y) \<longleftrightarrow> x = y"
  by (auto simp: json_num_def split: option.splits)

lemma kind_text_inj: "kind_text x = kind_text y \<longleftrightarrow> x = y"
  by (cases x; cases y) simp_all

lemma same_text: "canonicalize (fact_json f) = canonicalize (fact_json g) \<longleftrightarrow> same_content f g"
  unfolding canonicalize_pretty pretty_inj
  by (auto simp: fact_json_def same_content_def json_str_inj json_num_inj kind_text_inj show_int_inj)

lemma same_hash_cases:
  "factHash sha256 f = factHash sha256 g \<Longrightarrow> same_content f g \<or> sha_collision sha256 f g"
  by (auto simp: sha_collision_def same_text)

text \<open>
  C5: the head of a chain commits to all of it. Two chains of the same length that
  both verify and end in the same hash hold the same facts with the same hashes,
  or one pair of corresponding facts is a collision of the hash function.
\<close>

theorem chain_tamper_evident:
  assumes "verifyChain sha256 xs = Valid" and "verifyChain sha256 ys = Valid"
    and "length xs = length ys" and "xs \<noteq> []" and "snd (last xs) = snd (last ys)"
  shows "list_all2 (\<lambda>(f, h) (g, k). same_content f g \<and> h = k) xs ys \<or>
    (\<exists>((f, h), (g, k)) \<in> set (zip xs ys). sha_collision sha256 f g)"
  using assms unfolding verifyChain_chained
proof (induction xs arbitrary: ys rule: rev_induct)
  case (snoc x xs)
  obtain ys' y where ys: "ys = ys' @ [y]" using snoc.prems(3) by (cases ys rule: rev_cases) auto
  obtain f h g k where xy: "x = (f, h)" "y = (g, k)" by (cases x; cases y) blast
  have len: "length xs = length ys'" using snoc.prems(3) ys by simp
  have eq: "h = k" using snoc.prems(5) ys xy by simp
  have lx: "chained sha256 None xs" "linked sha256 (if xs = [] then None else Some (last xs)) (f, h)"
    and ly: "chained sha256 None ys'" "linked sha256 (if ys' = [] then None else Some (last ys')) (g, k)"
    using snoc.prems ys xy by (simp_all add: chained_snoc)
  have "factHash sha256 f = factHash sha256 g"
    using lx(2) ly(2) eq by (cases "last xs"; cases "last ys'") (auto split: if_splits)
  then consider "sha_collision sha256 f g" | "same_content f g" using same_hash_cases by blast
  then show ?case
  proof cases
    case 1
    then show ?thesis using len ys xy by force
  next
    case 2
    show ?thesis
    proof (cases "xs = []")
      case True
      then show ?thesis using 2 len ys xy eq by simp
    next
      case False
      moreover have "ys' \<noteq> []" using False len by auto
      ultimately have "snd (last xs) = snd (last ys')"
        using lx(2) ly(2) 2 by (cases "last xs"; cases "last ys'") (auto simp: same_content_def)
      from snoc.IH [OF lx(1) ly(1) len False this] show ?thesis
        using 2 len ys xy eq by (auto simp: list_all2_appendI)
    qed
  qed
qed simp

definition example_entry :: "(string \<times> json option) list \<Rightarrow> fact_input" where
  "example_entry claim = \<lparr>fi_actorId = ''a'', fi_seq = 1, fi_hlc = 5, fi_prevHash = None,
     fi_kind = Decision, fi_subject = ''i'', fi_specVersion = None, fi_claim = JObj claim\<rparr>"

theorem chain_tamper_evident_witness:
  "same_content (example_entry [(''x'', Some JNull), (''a'', None)]) (example_entry [(''x'', Some JNull)])"
proof -
  let ?f = "example_entry [(''x'', Some JNull), (''a'', None)]"
  let ?g = "example_entry [(''x'', Some JNull)]"
  have same: "factHash id ?f = factHash id ?g"
    by (simp add: factHash_def fact_json_def example_entry_def)
  then have v: "verifyChain id [(?f, factHash id ?f)] = Valid" "verifyChain id [(?g, factHash id ?f)] = Valid"
    by (simp_all add: verifyChain_chained)
  from chain_tamper_evident [OF v] show ?thesis
    by (simp add: sha_collision_def factHash_def)
qed

section \<open>The actor cache\<close>

lemma cacheKey_inj: "cacheKey k n = cacheKey k' n' \<longleftrightarrow> k = k' \<and> n = n'"
  by (cases k; cases k') (simp_all add: cacheKey_def kind_name_def)

definition cache_coherent :: "actor_cache \<Rightarrow> ledger \<Rightarrow> bool" where
  "cache_coherent cache l \<longleftrightarrow>
     length cache \<le> ACTOR_CACHE_MAX \<and>
     (\<forall>k n a. (cacheKey k n, a) \<in> set cache \<longrightarrow> lg_index l (k, n) = Some a)"

lemma insert_actor_index:
  "lg_index l kn = Some a \<Longrightarrow> lg_index (insert_actor fresh k n l) kn = Some a"
  by (auto simp: insert_actor_def)

lemma cache_coherent_step:
  assumes "ledger_step sha256 l l'" and "cache_coherent cache l"
  shows "cache_coherent cache l'"
  using assms(1)
proof cases
  case (register fresh k n c c' r)
  then show ?thesis
    using ensureActor_ledger [OF register] insert_actor_index assms(2) by (auto simp: cache_coherent_def)
next
  case (fact_written input nowMs)
  then have "lg_index l' = lg_index l"
    by (auto simp: writeFact_def stampFact_def Let_def split: option.splits sum.splits)
  then show ?thesis using assms(2) by (simp add: cache_coherent_def)
qed

text \<open>
  the process-wide actor cache never lies and never grows past its bound. With a
  coherent cache and a fresh key, \<open>ensureActor\<close> returns the id the table holds for
  that kind and name, and leaves a coherent cache.
\<close>

theorem ensureActor_resolves:
  assumes "cache_coherent cache l" and "lg_actors l fresh = None"
    and "ensureActor fresh k n cache l = (cache', l', r)"
  shows "(\<exists>a. r = Inr a \<and> lg_index l' (k, n) = Some a) \<and> cache_coherent cache' l'"
proof (cases "map_of cache (cacheKey k n)")
  case (Some a)
  then show ?thesis
    using assms map_of_SomeD [OF Some] by (auto simp: ensureActor_def cache_coherent_def)
next
  case None
  obtain a where a: "lg_index (insert_actor fresh k n l) (k, n) = Some a"
    using assms(2) by (cases "lg_index l (k, n)") (auto simp: insert_actor_def)
  define kept where "kept = (if ACTOR_CACHE_MAX \<le> length cache then tl cache else cache)"
  have kept: "set kept \<subseteq> set cache" "length kept < ACTOR_CACHE_MAX"
    using assms(1) by (cases cache; auto simp: kept_def cache_coherent_def ACTOR_CACHE_MAX_def)+
  have out: "cache' = kept @ [(cacheKey k n, a)]" "l' = insert_actor fresh k n l" "r = Inr a"
    using assms(3) None a by (auto simp: ensureActor_def Let_def kept_def)
  have "lg_index l' (k', n') = Some b" if "(cacheKey k' n', b) \<in> set cache'" for k' n' b
  proof (cases "(cacheKey k' n', b) \<in> set cache")
    case True
    then show ?thesis using assms(1) insert_actor_index out(2) by (auto simp: cache_coherent_def)
  next
    case False
    then show ?thesis using that kept(1) a out by (auto simp: cacheKey_inj)
  qed
  then show ?thesis using kept(2) a out by (auto simp: cache_coherent_def)
qed

theorem ensureActor_resolves_witness:
  "snd (snd (ensureActor ''a1'' Human ''ada'' [] blank_ledger)) = Inr ''a1''"
proof -
  obtain cache' l' r where r: "ensureActor ''a1'' Human ''ada'' [] blank_ledger = (cache', l', r)"
    using prod_cases3 by blast
  moreover have "lg_index l' (Human, ''ada'') = Some ''a1''"
    using r by (auto simp: ensureActor_def insert_actor_def blank_ledger_def Let_def)
  ultimately show ?thesis
    using ensureActor_resolves [OF _ _ r] by (auto simp: cache_coherent_def blank_ledger_def)
qed

end
