(* ===== verification/Uptime.thy ===== *)
theory Uptime
  imports Conditions Ledger
begin

text \<open>
  Duration-weighted uptime, \<open>src/modules/monitors/uptime.ts\<close>: the pure
  \<open>uptimeFromSamples\<close>, the segment query \<open>uptimeSegments\<close> that states the same rule in
  SQL, the aggregation \<open>uptimeByMonitor\<close> of \<open>service.ts\<close> and the per-day strip
  \<open>dailyUptime\<close> of \<open>status-pages/service.ts\<close>. Percentages are exact rationals.

  The abstract specification counts milliseconds: a millisecond of the window is
  covered when the latest sample at or before it has not expired, and up when that
  sample is \<open>ok\<close>. The results are that the loop computes these counts, that the SQL
  computes what the loop computes, and that the daily strip splits the same total.
\<close>

section \<open>The methodology over samples\<close>

record uptime_sample =
  us_at :: date
  us_ok :: bool

record uptime_result =
  ur_coveredMs :: millis
  ur_upMs :: millis
  ur_uncoveredMs :: millis
  ur_uptimePct :: "rat option"

definition STANDING_OBSERVATION_CHECK_TYPE_IDS :: "string list" where
  "STANDING_OBSERVATION_CHECK_TYPE_IDS = [''manual'']"

definition STANDING_HORIZON_SECONDS :: int where
  "STANDING_HORIZON_SECONDS = 315360000"

definition STANDING_HORIZON_MS :: int where
  "STANDING_HORIZON_MS = STANDING_HORIZON_SECONDS * 1000"

definition standsIndefinitely :: "string \<Rightarrow> bool" where
  "standsIndefinitely checkType \<longleftrightarrow> checkType \<in> set STANDING_OBSERVATION_CHECK_TYPE_IDS"

definition coverageHorizonMs :: "int \<Rightarrow> string option \<Rightarrow> millis" where
  "coverageHorizonMs intervalSeconds checkType =
     (if (case checkType of None \<Rightarrow> False | Some c \<Rightarrow> standsIndefinitely c)
      then STANDING_HORIZON_MS else max 60000 (intervalSeconds * 3000))"

definition round2 :: "rat \<Rightarrow> rat" where
  "round2 value = of_int \<lfloor>value * 100 + 1 / 2\<rfloor> / 100"

definition segment_start :: "date \<Rightarrow> date \<Rightarrow> date" where
  "segment_start windowStart sampleAt = max sampleAt windowStart"

definition segment_end :: "date \<Rightarrow> millis \<Rightarrow> date \<Rightarrow> date option \<Rightarrow> date" where
  "segment_end windowEnd horizonMs sampleAt nextAt =
     min (min (case nextAt of Some n \<Rightarrow> n | None \<Rightarrow> windowEnd) windowEnd) (sampleAt + horizonMs)"

fun uptime_loop ::
  "date \<Rightarrow> date \<Rightarrow> millis \<Rightarrow> uptime_sample list \<Rightarrow> millis \<times> millis \<Rightarrow> millis \<times> millis" where
  "uptime_loop ws we h [] acc = acc"
| "uptime_loop ws we h (s # rest) (coveredMs, upMs) =
     (let nextAt = (case rest of [] \<Rightarrow> None | n # _ \<Rightarrow> Some (us_at n));
          durationMs = segment_end we h (us_at s) nextAt - segment_start ws (us_at s)
      in uptime_loop ws we h rest
           (if durationMs \<le> 0 then (coveredMs, upMs)
            else (coveredMs + durationMs, if us_ok s then upMs + durationMs else upMs)))"

definition uptimePct :: "millis \<Rightarrow> millis \<Rightarrow> rat option" where
  "uptimePct upMs coveredMs =
     (if coveredMs = 0 then None else Some (round2 (of_int upMs / of_int coveredMs * 100)))"

definition in_reach :: "date \<Rightarrow> date \<Rightarrow> millis \<Rightarrow> date \<Rightarrow> bool" where
  "in_reach ws we h a \<longleftrightarrow> ws < a + h \<and> a < we"

definition uptimeFromSamples ::
  "uptime_sample list \<Rightarrow> date \<Rightarrow> date \<Rightarrow> millis \<Rightarrow> uptime_result" where
  "uptimeFromSamples samples windowStart windowEnd horizonMs =
     (let windowMs = max 0 (windowEnd - windowStart)
      in if windowMs = 0
         then \<lparr>ur_coveredMs = 0, ur_upMs = 0, ur_uncoveredMs = 0, ur_uptimePct = None\<rparr>
         else let ordered = sort_key us_at
                    (filter (\<lambda>s. in_reach windowStart windowEnd horizonMs (us_at s)) samples);
                  (coveredMs, upMs) = uptime_loop windowStart windowEnd horizonMs ordered (0, 0)
              in \<lparr>ur_coveredMs = coveredMs, ur_upMs = upMs, ur_uncoveredMs = windowMs - coveredMs,
                  ur_uptimePct = uptimePct upMs coveredMs\<rparr>)"

section \<open>Milliseconds vouched for\<close>

text \<open>The sample in force at an instant: the last one, in time, at or before it.\<close>

definition standing :: "uptime_sample list \<Rightarrow> date \<Rightarrow> uptime_sample option" where
  "standing samples t =
     (case filter (\<lambda>s. us_at s \<le> t) (sort_key us_at samples) of [] \<Rightarrow> None | s # ss \<Rightarrow> Some (last (s # ss)))"

definition vouched :: "(uptime_sample \<Rightarrow> bool) \<Rightarrow> uptime_sample list \<Rightarrow> millis \<Rightarrow> date \<Rightarrow> bool" where
  "vouched P samples h t \<longleftrightarrow>
     (case standing samples t of None \<Rightarrow> False | Some s \<Rightarrow> t < us_at s + h \<and> P s)"

definition vouched_ms ::
  "(uptime_sample \<Rightarrow> bool) \<Rightarrow> uptime_sample list \<Rightarrow> date \<Rightarrow> date \<Rightarrow> millis \<Rightarrow> nat" where
  "vouched_ms P samples ws we h = card {t \<in> {ws..<we}. vouched P samples h t}"

definition duration :: "date \<Rightarrow> date \<Rightarrow> millis \<Rightarrow> uptime_sample \<Rightarrow> uptime_sample list \<Rightarrow> millis" where
  "duration ws we h s rest =
     max 0 (segment_end we h (us_at s) (case rest of [] \<Rightarrow> None | n # _ \<Rightarrow> Some (us_at n)) -
            segment_start ws (us_at s))"

fun total_ms :: "(uptime_sample \<Rightarrow> bool) \<Rightarrow> date \<Rightarrow> date \<Rightarrow> millis \<Rightarrow> uptime_sample list \<Rightarrow> millis" where
  "total_ms P ws we h [] = 0"
| "total_ms P ws we h (s # rest) = (if P s then duration ws we h s rest else 0) + total_ms P ws we h rest"

lemma uptime_loop_total:
  "uptime_loop ws we h xs (c, u) = (c + total_ms (\<lambda>_. True) ws we h xs, u + total_ms us_ok ws we h xs)"
  by (induction xs arbitrary: c u) (auto simp: Let_def duration_def)

lemma sort_key_sorted: "sorted (map f xs) \<Longrightarrow> sort_key f xs = xs"
  by (induction xs) (auto simp: insort_is_Cons)

lemma standing_Cons:
  assumes "sorted (map us_at (s # n # xs))"
  shows "standing (s # n # xs) t =
    (if us_at n \<le> t then standing (n # xs) t else if us_at s \<le> t then Some s else None)"
proof -
  have "sort_key us_at (s # n # xs) = s # n # xs" "sort_key us_at (n # xs) = n # xs"
    using assms by (intro sort_key_sorted; simp)+
  moreover have "filter (\<lambda>s. us_at s \<le> t) xs = []" if "\<not> us_at n \<le> t"
    using assms that by (auto simp: filter_empty_conv)
  ultimately show ?thesis using assms by (auto simp: standing_def simp del: sort_key_simps)
qed

lemma standing_single: "standing [s] t = (if us_at s \<le> t then Some s else None)"
  by (simp add: standing_def)

lemma vouched_Cons:
  assumes "sorted (map us_at (s # n # xs))"
  shows "vouched P (s # n # xs) h t \<longleftrightarrow>
    (if us_at n \<le> t then vouched P (n # xs) h t else us_at s \<le> t \<and> t < us_at s + h \<and> P s)"
  using standing_Cons [OF assms] by (simp add: vouched_def)

lemma finite_window: "finite {t \<in> {ws..<we::int}. Q t}"
  by (rule finite_subset [of _ "{ws..<we}"]) auto

lemma vouched_ms_sorted:
  assumes "sorted (map us_at xs)"
  shows "int (vouched_ms P xs ws we h) = total_ms P ws we h xs"
  using assms
proof (induction xs rule: induct_list012)
  case 1
  then show ?case by (simp add: vouched_ms_def vouched_def standing_def)
next
  case (2 s)
  have "{t \<in> {ws..<we}. vouched P [s] h t} =
      (if P s then {max (us_at s) ws..<min we (us_at s + h)} else {})"
    by (auto simp: vouched_def standing_single)
  then show ?case
    by (simp add: vouched_ms_def duration_def segment_start_def segment_end_def) linarith
next
  case (3 s n xs)
  let ?mine = "if P s then {max (us_at s) ws..<min (min (us_at n) we) (us_at s + h)} else {}"
  let ?rest = "{t \<in> {ws..<we}. us_at n \<le> t \<and> vouched P (n # xs) h t}"
  have below: "us_at n \<le> t" if "vouched P (n # xs) h t" for t
    using that 3(3) by (cases xs) (auto simp: vouched_def standing_single standing_Cons split: if_splits option.splits)
  have "{t \<in> {ws..<we}. vouched P (s # n # xs) h t} = ?mine \<union> ?rest"
    using vouched_Cons [OF 3(3)] by auto
  moreover have "?mine \<inter> ?rest = {}" by auto
  moreover have "finite ?mine" "finite ?rest" by (simp, rule finite_window)
  ultimately have "vouched_ms P (s # n # xs) ws we h = card ?mine + card ?rest"
    unfolding vouched_ms_def by (simp add: card_Un_disjoint)
  moreover have "?rest = {t \<in> {ws..<we}. vouched P (n # xs) h t}" using below by blast
  moreover have "int (card ?mine) = (if P s then duration ws we h s (n # xs) else 0)"
    by (simp add: duration_def segment_start_def segment_end_def) linarith
  moreover have "int (vouched_ms P (n # xs) ws we h) = total_ms P ws we h (n # xs)"
    using 3 by simp
  ultimately show ?case by (simp add: vouched_ms_def)
qed

lemma vouched_reach:
  assumes "ws \<le> t" and "t < we"
  shows "vouched P (filter (\<lambda>s. in_reach ws we h (us_at s)) samples) h t = vouched P samples h t"
proof -
  let ?R = "\<lambda>s. in_reach ws we h (us_at s)"
  define L where "L = filter (\<lambda>s. us_at s \<le> t) (sort_key us_at samples)"
  have K: "filter (\<lambda>s. us_at s \<le> t) (sort_key us_at (filter ?R samples)) = filter ?R L"
    by (simp add: L_def filter_sort conj_commute)
  have "sorted (map us_at L)" by (simp add: L_def filter_sort)
  then have top: "us_at s \<le> us_at (last L)" if "s \<in> set L" for s
    using that by (rule sorted_map_last)
  have le: "L \<noteq> [] \<Longrightarrow> us_at (last L) \<le> t"
    using last_in_set [of L] by (auto simp: L_def)
  show ?thesis
  proof (cases "L = []")
    case True
    then show ?thesis by (simp add: vouched_def standing_def K flip: L_def)
  next
    case False
    show ?thesis
    proof (cases "?R (last L)")
      case True
      then have "last (filter ?R L) = last L" "filter ?R L \<noteq> []"
        using False last_in_set [of L] by (auto simp: last_filter filter_empty_conv)
      then show ?thesis using False
        by (cases L; cases "filter ?R L") (auto simp: vouched_def standing_def K simp flip: L_def)
    next
      case no: False
      then have exp: "us_at (last L) + h \<le> ws" using le False assms by (auto simp: in_reach_def)
      then have "filter ?R L = []" using top by (fastforce simp: filter_empty_conv in_reach_def)
      then show ?thesis using False exp assms(1)
        by (cases L) (auto simp: vouched_def standing_def K simp flip: L_def)
    qed
  qed
qed

text \<open>Narrowing the window keeps the samples that reach the wider one sufficient.\<close>

lemma reach_total:
  assumes "ws \<le> ws'" and "we' \<le> we"
  shows "total_ms P ws' we' h (sort_key us_at (filter (\<lambda>s. in_reach ws we h (us_at s)) samples)) =
    int (vouched_ms P samples ws' we' h)"
proof -
  let ?ordered = "sort_key us_at (filter (\<lambda>s. in_reach ws we h (us_at s)) samples)"
  have "vouched P ?ordered h t = vouched P samples h t" if "ws' \<le> t" "t < we'" for t
    using vouched_reach [of ws t we P h samples] that assms
    by (simp add: vouched_def standing_def sort_key_sorted)
  then have "{t \<in> {ws'..<we'}. vouched P ?ordered h t} = {t \<in> {ws'..<we'}. vouched P samples h t}"
    by auto
  then show ?thesis by (subst vouched_ms_sorted [symmetric]) (simp_all add: vouched_ms_def)
qed

lemma uptime_loop_counts:
  "uptime_loop ws we h (sort_key us_at (filter (\<lambda>s. in_reach ws we h (us_at s)) samples)) (0, 0) =
    (int (vouched_ms (\<lambda>_. True) samples ws we h), int (vouched_ms us_ok samples ws we h))"
  by (simp add: uptime_loop_total reach_total)

lemma vouched_ms_empty: "we \<le> ws \<Longrightarrow> vouched_ms P samples ws we h = 0"
  by (simp add: vouched_ms_def)

lemma vouched_ms_mono:
  assumes "\<And>s. P s \<Longrightarrow> Q s"
  shows "vouched_ms P samples ws we h \<le> vouched_ms Q samples ws we h"
  unfolding vouched_ms_def using assms
  by (intro card_mono finite_window) (auto simp: vouched_def split: option.splits)

lemma vouched_ms_le: "int (vouched_ms P samples ws we h) \<le> max 0 (we - ws)"
proof -
  have "card {t \<in> {ws..<we}. vouched P samples h t} \<le> card {ws..<we}" by (intro card_mono) auto
  then show ?thesis by (simp add: vouched_ms_def)
qed

lemma round2_mono: "x \<le> y \<Longrightarrow> round2 x \<le> round2 y"
  by (simp add: round2_def divide_right_mono floor_mono)

lemma round2_close: "\<bar>round2 x - x\<bar> \<le> 1 / 200"
proof -
  define k where "k = (of_int \<lfloor>x * 100 + 1 / 2\<rfloor> :: rat)"
  have "k \<le> x * 100 + 1 / 2" "x * 100 + 1 / 2 < k + 1" unfolding k_def by linarith+
  then have "\<bar>k / 100 - x\<bar> \<le> 1 / 200" by linarith
  then show ?thesis by (simp add: round2_def k_def)
qed

lemma round2_bounds: "round2 0 = 0" "round2 100 = 100"
proof -
  have "\<lfloor>0 * 100 + 1 / 2 :: rat\<rfloor> = 0" "\<lfloor>100 * 100 + 1 / 2 :: rat\<rfloor> = 10000"
    by (simp_all add: floor_unique)
  then show "round2 0 = 0" "round2 100 = 100" unfolding round2_def by simp_all
qed

lemma uptimePct_bounds:
  assumes "0 \<le> u" and "u \<le> c"
  shows "case uptimePct u c of None \<Rightarrow> c = 0
         | Some p \<Rightarrow> c \<noteq> 0 \<and> 0 \<le> p \<and> p \<le> 100 \<and> \<bar>p - of_int u / of_int c * 100\<bar> \<le> 1 / 200"
proof (cases "c = 0")
  case False
  let ?x = "of_int u / of_int c * 100 :: rat"
  have "0 \<le> ?x" "?x \<le> 100" using assms False by (simp_all add: field_simps)
  then have "0 \<le> round2 ?x" "round2 ?x \<le> 100" using round2_mono round2_bounds by metis+
  then show ?thesis using False round2_close [of ?x] by (simp add: uptimePct_def)
qed (simp add: uptimePct_def)

text \<open>
  the loop of \<open>uptimeFromSamples\<close> computes its abstract specification, for any
  samples in any order. Covered time is the number of milliseconds of the window
  whose latest sample has not expired, up time the number of those whose latest
  sample is \<open>ok\<close>, and the rest of the window is uncovered.
\<close>

theorem uptimeFromSamples_spec:
  "uptimeFromSamples samples ws we h =
     (let covered = int (vouched_ms (\<lambda>_. True) samples ws we h);
          up = int (vouched_ms us_ok samples ws we h)
      in \<lparr>ur_coveredMs = covered, ur_upMs = up, ur_uncoveredMs = max 0 (we - ws) - covered,
          ur_uptimePct = uptimePct up covered\<rparr>)"
  by (cases "ws < we")
    (simp_all add: uptimeFromSamples_def uptime_loop_counts vouched_ms_empty uptimePct_def Let_def)

text \<open>
  an uptime report is always consistent. Up time is at most covered time, covered
  and uncovered time add up to the window, and the percentage is null exactly when
  nothing was covered and otherwise within half a hundredth of the exact ratio and
  between 0 and 100.
\<close>

theorem uptime_report_consistent:
  "let r = uptimeFromSamples samples ws we h
   in 0 \<le> ur_upMs r \<and> ur_upMs r \<le> ur_coveredMs r \<and> 0 \<le> ur_uncoveredMs r \<and>
      ur_coveredMs r + ur_uncoveredMs r = max 0 (we - ws) \<and>
      (case ur_uptimePct r of None \<Rightarrow> ur_coveredMs r = 0
       | Some p \<Rightarrow> ur_coveredMs r \<noteq> 0 \<and> 0 \<le> p \<and> p \<le> 100 \<and>
           \<bar>p - of_int (ur_upMs r) / of_int (ur_coveredMs r) * 100\<bar> \<le> 1 / 200)"
proof (cases "ws < we")
  case True
  define c u where "c = int (vouched_ms (\<lambda>_. True) samples ws we h)"
    and "u = int (vouched_ms us_ok samples ws we h)"
  have "0 \<le> u" "u \<le> c" "c \<le> we - ws"
    using True vouched_ms_le [of "\<lambda>_. True" samples ws we h]
    by (simp_all add: c_def u_def vouched_ms_mono)
  then show ?thesis
    using True uptimePct_bounds [of u c]
    by (auto simp: uptimeFromSamples_def uptime_loop_counts Let_def simp flip: c_def u_def
        split: option.splits)
qed (simp add: uptimeFromSamples_def)

section \<open>The same rule in SQL\<close>

record check_row =
  ck_id :: nat
  ck_monitorId :: string
  ck_checkedAt :: date
  ck_ok :: bool
  ck_statusCode :: "int option"
  ck_responseTimeMs :: "int option"
  ck_error :: "string option"
  ck_verdict :: "verdict option"
  ck_failureClass :: "failure_class option"
  ck_facts :: fact_bag
  ck_stamp :: "ledger_stamp option"

record monitor_cadence =
  mc_intervalSeconds :: int
  mc_checkType :: string

record uptime_segment =
  sg_monitorId :: string
  sg_ok :: bool
  sg_verdict :: "verdict option"
  sg_responseTimeMs :: "int option"
  sg_start :: date
  sg_end :: date

definition MEASURED :: "check_row \<Rightarrow> bool" where
  "MEASURED r \<longleftrightarrow> ck_verdict r \<noteq> Some VIndeterminate"

definition INTERVAL_HORIZON :: "monitor_cadence \<Rightarrow> int" where
  "INTERVAL_HORIZON m = max 60 (mc_intervalSeconds m * 3)"

definition HORIZON_SECONDS :: "monitor_cadence \<Rightarrow> int" where
  "HORIZON_SECONDS m =
     (if STANDING_OBSERVATION_CHECK_TYPE_IDS = [] then INTERVAL_HORIZON m
      else if mc_checkType m \<in> set STANDING_OBSERVATION_CHECK_TYPE_IDS then STANDING_HORIZON_SECONDS
      else INTERVAL_HORIZON m)"

text \<open>
  The window function: each row of a partition, in order, with the \<open>checked_at\<close> of the
  row after it.
\<close>

fun lead_checkedAt :: "check_row list \<Rightarrow> (check_row \<times> date option) list" where
  "lead_checkedAt [] = []"
| "lead_checkedAt (r # rs) =
     (r, case rs of [] \<Rightarrow> None | n # _ \<Rightarrow> Some (ck_checkedAt n)) # lead_checkedAt rs"

definition to_segment :: "date \<Rightarrow> date \<Rightarrow> millis \<Rightarrow> check_row \<times> date option \<Rightarrow> uptime_segment" where
  "to_segment ws we h = (\<lambda>(r, nextAt).
     \<lparr>sg_monitorId = ck_monitorId r, sg_ok = ck_ok r, sg_verdict = ck_verdict r,
      sg_responseTimeMs = ck_responseTimeMs r, sg_start = segment_start ws (ck_checkedAt r),
      sg_end = segment_end we h (ck_checkedAt r) nextAt\<rparr>)"

text \<open>One partition of the query, then the query over the requested monitors.\<close>

definition partition_segments ::
  "(string \<rightharpoonup> monitor_cadence) \<Rightarrow> check_row list \<Rightarrow> date \<Rightarrow> date \<Rightarrow> string \<Rightarrow> uptime_segment list" where
  "partition_segments monitors checks ws we m =
     (case monitors m of
        None \<Rightarrow> []
      | Some cadence \<Rightarrow>
          (let h = HORIZON_SECONDS cadence * 1000
           in filter (\<lambda>s. sg_start s < sg_end s)
                (map (to_segment ws we h)
                  (lead_checkedAt (sort_key ck_checkedAt
                    (filter (\<lambda>r. ck_monitorId r = m \<and> MEASURED r \<and> ck_checkedAt r < we \<and>
                                 ws - h < ck_checkedAt r) checks))))))"

definition uptimeSegments ::
  "(string \<rightharpoonup> monitor_cadence) \<Rightarrow> check_row list \<Rightarrow> string list \<Rightarrow> date \<Rightarrow> date \<Rightarrow> uptime_segment list" where
  "uptimeSegments monitors checks monitorIds ws we =
     concat (map (partition_segments monitors checks ws we) (remdups monitorIds))"

definition sum_ms :: "uptime_segment list \<Rightarrow> millis" where
  "sum_ms segs = sum_list (map (\<lambda>s. sg_end s - sg_start s) segs)"

text \<open>\<open>uptimeByMonitor\<close>: a monitor with no segment has no row, and is absent.\<close>

definition uptimeByMonitor ::
  "(string \<rightharpoonup> monitor_cadence) \<Rightarrow> check_row list \<Rightarrow> string list \<Rightarrow> date \<Rightarrow> date \<Rightarrow> string \<rightharpoonup> uptime_result" where
  "uptimeByMonitor monitors checks monitorIds ws we =
     (\<lambda>m. let rows = filter (\<lambda>s. sg_monitorId s = m) (uptimeSegments monitors checks monitorIds ws we)
          in if rows = [] then None
             else (let coveredMs = sum_ms rows; upMs = sum_ms (filter sg_ok rows)
                   in Some \<lparr>ur_coveredMs = coveredMs, ur_upMs = upMs,
                        ur_uncoveredMs = max 0 (we - ws) - coveredMs,
                        ur_uptimePct = uptimePct upMs coveredMs\<rparr>))"

definition to_sample :: "check_row \<Rightarrow> uptime_sample" where
  "to_sample r = \<lparr>us_at = ck_checkedAt r, us_ok = ck_ok r\<rparr>"

lemma to_sample_simps [simp]: "us_at (to_sample r) = ck_checkedAt r" "us_ok (to_sample r) = ck_ok r"
  by (simp_all add: to_sample_def)

lemma to_segment_simps [simp]:
  "sg_monitorId (to_segment ws we h x) = ck_monitorId (fst x)"
  "sg_ok (to_segment ws we h x) = ck_ok (fst x)"
  "sg_start (to_segment ws we h x) = segment_start ws (ck_checkedAt (fst x))"
  "sg_end (to_segment ws we h x) = segment_end we h (ck_checkedAt (fst x)) (snd x)"
  by (simp_all add: to_segment_def split: prod.splits)

lemma horizon_agrees:
  "HORIZON_SECONDS c * 1000 = coverageHorizonMs (mc_intervalSeconds c) (Some (mc_checkType c))"
  by (auto simp: HORIZON_SECONDS_def coverageHorizonMs_def standsIndefinitely_def INTERVAL_HORIZON_def
      STANDING_HORIZON_MS_def STANDING_OBSERVATION_CHECK_TYPE_IDS_def max_def)

lemma map_to_sample_sort: "map to_sample (sort_key ck_checkedAt rs) = sort_key us_at (map to_sample rs)"
proof (induction rs)
  case (Cons r rs)
  have "map to_sample (insort_key ck_checkedAt r xs) = insort_key us_at (to_sample r) (map to_sample xs)" for xs
    by (induction xs) simp_all
  then show ?case using Cons by simp
qed simp

lemma segments_total:
  "sum_ms (filter (\<lambda>s. Q (sg_ok s)) (filter (\<lambda>s. sg_start s < sg_end s)
       (map (to_segment ws we h) (lead_checkedAt rs)))) =
   total_ms (\<lambda>s. Q (us_ok s)) ws we h (map to_sample rs)"
proof (induction rs)
  case (Cons r rs)
  have "(case map to_sample rs of [] \<Rightarrow> None | n # _ \<Rightarrow> Some (us_at n)) =
      (case rs of [] \<Rightarrow> None | n # _ \<Rightarrow> Some (ck_checkedAt n))"
    by (cases rs) simp_all
  with Cons show ?case by (auto simp: sum_ms_def duration_def)
qed (simp add: sum_ms_def)

lemma filter_concat_distinct:
  assumes "distinct ks" and "\<And>k x. x \<in> set (f k) \<Longrightarrow> key x = k"
  shows "filter (\<lambda>x. key x = m) (concat (map f ks)) = (if m \<in> set ks then f m else [])"
  using assms
proof (induction ks)
  case (Cons k ks)
  have "filter (\<lambda>x. key x = m) (f k) = (if m = k then f k else [])"
    using Cons.prems(2) by (auto simp: filter_empty_conv intro!: filter_True)
  then show ?case using Cons by auto
qed simp

lemma partition_monitor: "s \<in> set (partition_segments monitors checks ws we m) \<Longrightarrow> sg_monitorId s = m"
proof -
  have "fst ` set (lead_checkedAt rs) = set rs" for rs by (induction rs) auto
  then have lead: "x \<in> set (lead_checkedAt rs) \<Longrightarrow> fst x \<in> set rs" for x rs by blast
  show "s \<in> set (partition_segments monitors checks ws we m) \<Longrightarrow> sg_monitorId s = m"
    by (auto simp: partition_segments_def to_segment_def Let_def split: option.splits dest!: lead)
qed

lemma sum_ms_nonneg: "\<forall>s \<in> set segs. sg_start s < sg_end s \<Longrightarrow> sum_ms segs = 0 \<longleftrightarrow> segs = []"
proof (induction segs)
  case (Cons s segs)
  have "0 \<le> sum_ms segs" using Cons.prems by (fastforce simp: sum_ms_def intro!: sum_list_nonneg)
  then show ?case using Cons by (simp add: sum_ms_def)
qed (simp add: sum_ms_def)

definition samples_of :: "check_row list \<Rightarrow> string \<Rightarrow> uptime_sample list" where
  "samples_of checks m = map to_sample (filter (\<lambda>r. ck_monitorId r = m \<and> MEASURED r) checks)"

definition horizon_of :: "monitor_cadence \<Rightarrow> millis" where
  "horizon_of cadence = coverageHorizonMs (mc_intervalSeconds cadence) (Some (mc_checkType cadence))"

lemma monitor_segments:
  assumes "m \<in> set monitorIds"
  shows "filter (\<lambda>s. sg_monitorId s = m) (uptimeSegments monitors checks monitorIds ws we) =
    partition_segments monitors checks ws we m"
  unfolding uptimeSegments_def
  using filter_concat_distinct [of "remdups monitorIds" "partition_segments monitors checks ws we" sg_monitorId m]
    partition_monitor [of _ monitors checks ws we] assms by simp

lemma partition_ordered:
  assumes "monitors m = Some cadence"
  obtains rs where
    "partition_segments monitors checks ws we m =
       filter (\<lambda>s. sg_start s < sg_end s) (map (to_segment ws we (horizon_of cadence)) (lead_checkedAt rs))"
    and "map to_sample rs =
       sort_key us_at (filter (\<lambda>s. in_reach ws we (horizon_of cadence) (us_at s)) (samples_of checks m))"
proof
  let ?h = "horizon_of cadence"
  let ?keep = "filter (\<lambda>r. ck_monitorId r = m \<and> MEASURED r \<and> ck_checkedAt r < we \<and> ws - ?h < ck_checkedAt r) checks"
  show "partition_segments monitors checks ws we m =
      filter (\<lambda>s. sg_start s < sg_end s) (map (to_segment ws we ?h) (lead_checkedAt (sort_key ck_checkedAt ?keep)))"
    by (simp only: partition_segments_def assms option.case horizon_agrees horizon_of_def Let_def)
  have "map to_sample ?keep = filter (\<lambda>s. in_reach ws we ?h (us_at s)) (samples_of checks m)"
    by (induction checks) (auto simp: in_reach_def samples_of_def)
  then show "map to_sample (sort_key ck_checkedAt ?keep) =
      sort_key us_at (filter (\<lambda>s. in_reach ws we ?h (us_at s)) (samples_of checks m))"
    by (simp add: map_to_sample_sort)
qed

text \<open>
  C37: the SQL computes the methodology. For every requested monitor that exists,
  \<open>uptimeByMonitor\<close> reports what \<open>uptimeFromSamples\<close> says of its measured checks with
  its own horizon, and leaves the monitor out exactly when nothing is covered.
\<close>

theorem uptime_sql_agrees:
  assumes "m \<in> set monitorIds" and "monitors m = Some cadence"
  shows "uptimeByMonitor monitors checks monitorIds ws we m =
    (let r = uptimeFromSamples (samples_of checks m) ws we (horizon_of cadence)
     in if ur_coveredMs r = 0 then None else Some r)"
proof -
  define segs where "segs = partition_segments monitors checks ws we m"
  obtain rs where segs: "segs = filter (\<lambda>s. sg_start s < sg_end s)
      (map (to_segment ws we (horizon_of cadence)) (lead_checkedAt rs))"
    and rs: "map to_sample rs = sort_key us_at
      (filter (\<lambda>s. in_reach ws we (horizon_of cadence) (us_at s)) (samples_of checks m))"
    using partition_ordered [of monitors m cadence checks ws we] assms(2) segs_def by metis
  have tot: "sum_ms (filter (\<lambda>s. Q (sg_ok s)) segs) =
      int (vouched_ms (\<lambda>s. Q (us_ok s)) (samples_of checks m) ws we (horizon_of cadence))" for Q
    unfolding segs segments_total rs by (rule reach_total) simp_all
  have "\<forall>s \<in> set segs. sg_start s < sg_end s" by (auto simp: segs)
  from sum_ms_nonneg [OF this] show ?thesis
    using tot [of "\<lambda>_. True"] tot [of "\<lambda>b. b"]
    by (cases "ws < we")
      (auto simp: uptimeByMonitor_def monitor_segments [OF assms(1)] uptimeFromSamples_def
        uptime_loop_counts vouched_ms_empty Let_def simp flip: segs_def)
qed

definition example_check :: "nat \<Rightarrow> bool \<Rightarrow> verdict option \<Rightarrow> date \<Rightarrow> check_row" where
  "example_check i ok v t =
     \<lparr>ck_id = i, ck_monitorId = ''m'', ck_checkedAt = t, ck_ok = ok, ck_statusCode = None, ck_responseTimeMs = None,
      ck_error = None, ck_verdict = v, ck_failureClass = None, ck_facts = Map.empty, ck_stamp = None\<rparr>"

definition example_checks :: "check_row list" where
  "example_checks = [example_check 0 False (Some VDown) 60000, example_check 1 True None 30000,
     example_check 2 False (Some VIndeterminate) 40000]"

theorem uptime_sql_agrees_witness:
  "uptimeByMonitor [''m'' \<mapsto> \<lparr>mc_intervalSeconds = 10, mc_checkType = ''http''\<rparr>] example_checks [''m''] 0 130000 ''m'' =
     Some \<lparr>ur_coveredMs = 90000, ur_upMs = 30000, ur_uncoveredMs = 40000, ur_uptimePct = uptimePct 30000 90000\<rparr>"
  by (subst uptime_sql_agrees [where cadence = "\<lparr>mc_intervalSeconds = 10, mc_checkType = ''http''\<rparr>"])
    (simp_all add: example_checks_def example_check_def samples_of_def horizon_of_def uptimeFromSamples_def to_sample_def MEASURED_def coverageHorizonMs_def
      standsIndefinitely_def STANDING_OBSERVATION_CHECK_TYPE_IDS_def in_reach_def Let_def
      segment_start_def segment_end_def)

section \<open>The daily strip\<close>

definition DAY_MS :: int where
  "DAY_MS = 86400000"

record day_overlap =
  ov_monitorId :: string
  ov_ok :: bool
  ov_day :: int
  ov_ms :: millis

text \<open>
  The lateral join of \<open>dailyUptime\<close>: a segment meets every UTC day from the one it
  starts in to the one its last instant falls in. Days are numbered from the epoch.
\<close>

definition day_overlaps :: "uptime_segment \<Rightarrow> day_overlap list" where
  "day_overlaps s =
     map (\<lambda>d. \<lparr>ov_monitorId = sg_monitorId s, ov_ok = sg_ok s, ov_day = d,
               ov_ms = min (sg_end s) (d * DAY_MS + DAY_MS) - max (sg_start s) (d * DAY_MS)\<rparr>)
       [sg_start s div DAY_MS .. (sg_end s - 1) div DAY_MS]"

definition sum_ov :: "day_overlap list \<Rightarrow> millis" where
  "sum_ov os = sum_list (map ov_ms os)"

text \<open>The days of one monitor, in order, with their percentage.\<close>

definition dailyUptime ::
  "(string \<rightharpoonup> monitor_cadence) \<Rightarrow> check_row list \<Rightarrow> string list \<Rightarrow> date \<Rightarrow> date \<Rightarrow> string \<Rightarrow> (int \<times> rat option) list" where
  "dailyUptime monitors checks monitorIds ws we m =
     (let overlap = filter (\<lambda>v. ov_monitorId v = m)
            (concat (map day_overlaps (uptimeSegments monitors checks monitorIds ws we)))
      in map (\<lambda>d. let day = filter (\<lambda>v. ov_day v = d) overlap
                  in (d, uptimePct (sum_ov (filter ov_ok day)) (sum_ov day)))
           (sorted_list_of_set (ov_day ` set overlap)))"

text \<open>Splitting an interval at the boundaries of consecutive days.\<close>

lemma day_split:
  assumes "a < b"
  shows "(\<Sum>d \<leftarrow> [a div DAY_MS .. (b - 1) div DAY_MS]. min b (d * DAY_MS + DAY_MS) - max a (d * DAY_MS)) = b - a"
    and "d \<in> set [a div DAY_MS .. (b - 1) div DAY_MS] \<Longrightarrow>
      0 < min b (d * DAY_MS + DAY_MS) - max a (d * DAY_MS)"
proof -
  have pos: "0 < DAY_MS" by (simp add: DAY_MS_def)
  define p q where "p = a div DAY_MS" and "q = (b - 1) div DAY_MS"
  have a: "p * DAY_MS \<le> a" "a < p * DAY_MS + DAY_MS"
    using pos div_mult_mod_eq [of a DAY_MS] pos_mod_bound [OF pos, of a] pos_mod_sign [OF pos, of a]
    unfolding p_def by linarith+
  have b: "q * DAY_MS \<le> b - 1" "b \<le> q * DAY_MS + DAY_MS"
    using pos div_mult_mod_eq [of "b - 1" DAY_MS] pos_mod_bound [OF pos, of "b - 1"] pos_mod_sign [OF pos, of "b - 1"]
    unfolding q_def by linarith+
  have pq: "p \<le> q" unfolding p_def q_def using pos assms by (simp add: zdiv_mono1)
  have step: "(\<Sum>d \<leftarrow> [p .. r]. min b (d * DAY_MS + DAY_MS) - max a (d * DAY_MS)) =
      min b (r * DAY_MS + DAY_MS) - a" if "p \<le> r" "r \<le> q" for r
    using that
  proof (induction r rule: int_ge_induct)
    case base
    then show ?case using a by simp
  next
    case (step r)
    have le: "r * DAY_MS + DAY_MS \<le> q * DAY_MS"
      using step.prems pos mult_right_mono [of "r + 1" q DAY_MS] by (simp add: distrib_right)
    have ar: "a \<le> r * DAY_MS + DAY_MS"
      using step.hyps a(2) pos mult_right_mono [of p r DAY_MS] by linarith
    have "[p..r + 1] = [p..r] @ [r + 1]" using step.hyps by (simp add: upto_rec2)
    then show ?case
      using step le ar a b by (simp add: distrib_right min_def max_def)
  qed
  show "(\<Sum>d \<leftarrow> [a div DAY_MS .. (b - 1) div DAY_MS]. min b (d * DAY_MS + DAY_MS) - max a (d * DAY_MS)) = b - a"
    using step [OF pq order_refl] b by (simp add: p_def q_def)
  show "0 < min b (d * DAY_MS + DAY_MS) - max a (d * DAY_MS)"
    if "d \<in> set [a div DAY_MS .. (b - 1) div DAY_MS]"
  proof -
    have "p * DAY_MS \<le> d * DAY_MS" "d * DAY_MS \<le> q * DAY_MS"
      using that pos by (auto simp: p_def q_def intro: mult_right_mono)
    then show ?thesis using a b assms pos by linarith
  qed
qed

lemma sum_ov_day:
  assumes "sg_start s < sg_end s"
  shows "sum_ov (filter (\<lambda>v. ov_day v = d \<and> Q (ov_ok v)) (day_overlaps s)) =
    (if Q (sg_ok s) then max 0 (min (sg_end s) (d * DAY_MS + DAY_MS) - max (sg_start s) (d * DAY_MS)) else 0)"
proof -
  let ?g = "\<lambda>d. min (sg_end s) (d * DAY_MS + DAY_MS) - max (sg_start s) (d * DAY_MS)"
  let ?days = "[sg_start s div DAY_MS .. (sg_end s - 1) div DAY_MS]"
  have pos: "0 < DAY_MS" by (simp add: DAY_MS_def)
  have pick: "filter (\<lambda>x. x = d) xs = (if d \<in> set xs then [d] else [])" if "distinct xs" for xs
    using that by (induction xs) auto
  have "filter (\<lambda>v. ov_day v = d \<and> Q (ov_ok v)) (day_overlaps s) =
      (if Q (sg_ok s) then map (\<lambda>d. \<lparr>ov_monitorId = sg_monitorId s, ov_ok = sg_ok s, ov_day = d, ov_ms = ?g d\<rparr>)
        (filter (\<lambda>x. x = d) ?days) else [])"
    by (simp add: day_overlaps_def filter_map comp_def)
  then have "sum_ov (filter (\<lambda>v. ov_day v = d \<and> Q (ov_ok v)) (day_overlaps s)) =
      (if Q (sg_ok s) \<and> d \<in> set ?days then ?g d else 0)"
    by (simp add: pick sum_ov_def)
  moreover have "?g d \<le> 0" if out: "d \<notin> set ?days"
  proof -
    consider "d < sg_start s div DAY_MS" | "(sg_end s - 1) div DAY_MS < d" using out by force
    then show ?thesis
    proof cases
      case 1
      then have "d * DAY_MS + DAY_MS \<le> sg_start s div DAY_MS * DAY_MS"
        using mult_right_mono [of "d + 1" "sg_start s div DAY_MS" DAY_MS] pos by (simp add: distrib_right)
      then show ?thesis
        using div_mult_mod_eq [of "sg_start s" DAY_MS] pos_mod_sign [OF pos, of "sg_start s"] by linarith
    next
      case 2
      then have "(sg_end s - 1) div DAY_MS * DAY_MS + DAY_MS \<le> d * DAY_MS"
        using mult_right_mono [of "(sg_end s - 1) div DAY_MS + 1" d DAY_MS] pos by (simp add: distrib_right)
      then show ?thesis
        using div_mult_mod_eq [of "sg_end s - 1" DAY_MS] pos_mod_bound [OF pos, of "sg_end s - 1"] by linarith
    qed
  qed
  ultimately show ?thesis using day_split(2) [OF assms, of d] by auto
qed

lemma clip_segment:
  "segment_end (min we e) h a n = min (segment_end we h a n) e"
  "segment_start (max ws d) a = max (segment_start ws a) d"
  by (auto simp: segment_end_def segment_start_def split: option.splits)

lemma day_total:
  "sum_ov (filter (\<lambda>v. ov_day v = d \<and> Q (ov_ok v)) (concat (map day_overlaps
       (filter (\<lambda>s. sg_start s < sg_end s) (map (to_segment ws we h) (lead_checkedAt rs)))))) =
   total_ms (\<lambda>s. Q (us_ok s)) (max ws (d * DAY_MS)) (min we (d * DAY_MS + DAY_MS)) h (map to_sample rs)"
proof (induction rs)
  case (Cons r rs)
  define n where "n = (case rs of [] \<Rightarrow> None | n # _ \<Rightarrow> Some (ck_checkedAt n))"
  define sg where "sg = to_segment ws we h (r, n)"
  let ?own = "if Q (ck_ok r) then max 0 (min (sg_end sg) (d * DAY_MS + DAY_MS) - max (sg_start sg) (d * DAY_MS)) else 0"
  have nxt: "(case map to_sample rs of [] \<Rightarrow> None | n # _ \<Rightarrow> Some (us_at n)) = n"
    by (cases rs) (simp_all add: n_def)
  have app: "sum_ov (xs @ ys) = sum_ov xs + sum_ov ys" for xs ys by (simp add: sum_ov_def)
  have own: "sum_ov (filter (\<lambda>v. ov_day v = d \<and> Q (ov_ok v))
      (concat (map day_overlaps (if sg_start sg < sg_end sg then [sg] else [])))) = ?own"
    using sum_ov_day [of sg d Q] by (auto simp: sum_ov_def sg_def)
  have dur: "(if Q (us_ok (to_sample r)) then duration (max ws (d * DAY_MS)) (min we (d * DAY_MS + DAY_MS)) h
      (to_sample r) (map to_sample rs) else 0) = ?own"
    by (simp add: duration_def nxt clip_segment sg_def)
  have "filter (\<lambda>s. sg_start s < sg_end s) (map (to_segment ws we h) (lead_checkedAt (r # rs))) =
      (if sg_start sg < sg_end sg then [sg] else []) @
      filter (\<lambda>s. sg_start s < sg_end s) (map (to_segment ws we h) (lead_checkedAt rs))"
    by (simp add: sg_def n_def)
  then show ?case
    by (simp only: map_append concat_append filter_append app own Cons.IH list.map total_ms.simps dur)
qed (simp add: sum_ov_def)

lemma day_overlaps_monitor:
  "filter (\<lambda>v. ov_monitorId v = m) (concat (map day_overlaps segs)) =
   concat (map day_overlaps (filter (\<lambda>s. sg_monitorId s = m) segs))"
  by (induction segs) (auto simp: day_overlaps_def filter_empty_conv intro!: filter_True)

lemma overlap_positive:
  assumes "v \<in> set (day_overlaps s)" and "sg_start s < sg_end s"
  shows "0 < ov_ms v"
  using assms day_split(2) [OF assms(2)] by (auto simp: day_overlaps_def)

lemma sum_ov_pos: "\<forall>v \<in> set os. 0 < ov_ms v \<Longrightarrow> 0 < sum_ov os \<longleftrightarrow> os \<noteq> []"
proof (induction os)
  case (Cons v os)
  have "0 \<le> sum_ov os" using Cons.prems by (fastforce simp: sum_ov_def intro!: sum_list_nonneg)
  then show ?case using Cons by (simp add: sum_ov_def)
qed (simp add: sum_ov_def)

definition day_report ::
  "monitor_cadence \<Rightarrow> check_row list \<Rightarrow> string \<Rightarrow> date \<Rightarrow> date \<Rightarrow> int \<Rightarrow> uptime_result" where
  "day_report cadence checks m ws we d =
     uptimeFromSamples (samples_of checks m) (max ws (d * DAY_MS)) (min we (d * DAY_MS + DAY_MS))
       (horizon_of cadence)"

lemma day_sums:
  fixes checks :: "check_row list" and ws we :: date
  assumes "m \<in> set monitorIds" and "monitors m = Some cadence"
  defines "overlap \<equiv> filter (\<lambda>v. ov_monitorId v = m)
    (concat (map day_overlaps (uptimeSegments monitors checks monitorIds ws we)))"
  shows "sum_ov (filter (\<lambda>v. ov_day v = d \<and> Q (ov_ok v)) overlap) =
      int (vouched_ms (\<lambda>s. Q (us_ok s)) (samples_of checks m) (max ws (d * DAY_MS))
        (min we (d * DAY_MS + DAY_MS)) (horizon_of cadence))"
    and "\<forall>v \<in> set overlap. 0 < ov_ms v"
proof -
  obtain rs where segs: "partition_segments monitors checks ws we m = filter (\<lambda>s. sg_start s < sg_end s)
      (map (to_segment ws we (horizon_of cadence)) (lead_checkedAt rs))"
    and rs: "map to_sample rs = sort_key us_at
      (filter (\<lambda>s. in_reach ws we (horizon_of cadence) (us_at s)) (samples_of checks m))"
    using partition_ordered [of monitors m cadence checks ws we] assms(2) by metis
  have ov: "overlap = concat (map day_overlaps (partition_segments monitors checks ws we m))"
    by (simp add: overlap_def day_overlaps_monitor monitor_segments [OF assms(1)])
  show "sum_ov (filter (\<lambda>v. ov_day v = d \<and> Q (ov_ok v)) overlap) =
      int (vouched_ms (\<lambda>s. Q (us_ok s)) (samples_of checks m) (max ws (d * DAY_MS))
        (min we (d * DAY_MS + DAY_MS)) (horizon_of cadence))"
    unfolding ov segs day_total rs by (rule reach_total) simp_all
  show "\<forall>v \<in> set overlap. 0 < ov_ms v"
    unfolding ov segs using overlap_positive by auto
qed

text \<open>
  the daily strip is the same methodology on each day. Its entries are, in
  order and without repetition, exactly the UTC days of which something is covered,
  each with the percentage \<open>uptimeFromSamples\<close> gives for the part of the window that
  falls on that day.
\<close>

theorem daily_strip_agrees:
  assumes "m \<in> set monitorIds" and "monitors m = Some cadence"
  shows "set (dailyUptime monitors checks monitorIds ws we m) =
      {(d, ur_uptimePct (day_report cadence checks m ws we d)) | d.
         0 < ur_coveredMs (day_report cadence checks m ws we d)} \<and>
    sorted_wrt (<) (map fst (dailyUptime monitors checks monitorIds ws we m))"
proof -
  define overlap where "overlap = filter (\<lambda>v. ov_monitorId v = m)
    (concat (map day_overlaps (uptimeSegments monitors checks monitorIds ws we)))"
  have sums: "sum_ov (filter (\<lambda>v. ov_day v = d) overlap) = ur_coveredMs (day_report cadence checks m ws we d)"
    "sum_ov (filter ov_ok (filter (\<lambda>v. ov_day v = d) overlap)) = ur_upMs (day_report cadence checks m ws we d)" for d
    using day_sums(1) [of m monitorIds monitors cadence d "\<lambda>_. True" checks ws we]
      day_sums(1) [of m monitorIds monitors cadence d "\<lambda>b. b" checks ws we] assms
    by (cases "max ws (d * DAY_MS) < min we (d * DAY_MS + DAY_MS)";
        simp add: overlap_def day_report_def uptimeFromSamples_def uptime_loop_counts vouched_ms_empty Let_def)+
  have pct: "ur_uptimePct (day_report cadence checks m ws we d) =
      uptimePct (ur_upMs (day_report cadence checks m ws we d)) (ur_coveredMs (day_report cadence checks m ws we d))" for d
    by (simp add: day_report_def uptimeFromSamples_def uptimePct_def Let_def split: prod.splits)
  have pos: "\<forall>v \<in> set overlap. 0 < ov_ms v"
    using day_sums(2) [of m monitorIds monitors cadence checks ws we] assms by (simp add: overlap_def)
  have days: "d \<in> ov_day ` set overlap \<longleftrightarrow> 0 < ur_coveredMs (day_report cadence checks m ws we d)" for d
  proof -
    have "filter (\<lambda>v. ov_day v = d) overlap \<noteq> [] \<longleftrightarrow> 0 < sum_ov (filter (\<lambda>v. ov_day v = d) overlap)"
      using pos sum_ov_pos [of "filter (\<lambda>v. ov_day v = d) overlap"] by simp
    then show ?thesis unfolding sums by (auto simp: filter_empty_conv)
  qed
  have "dailyUptime monitors checks monitorIds ws we m =
      map (\<lambda>d. (d, ur_uptimePct (day_report cadence checks m ws we d))) (sorted_list_of_set (ov_day ` set overlap))"
    by (simp only: dailyUptime_def Let_def sums pct overlap_def [symmetric])
  then show ?thesis using days by (auto simp: comp_def)
qed

theorem daily_strip_agrees_witness:
  "\<exists>r. set (dailyUptime [''m'' \<mapsto> r] example_checks [''m''] 0 130000 ''m'') =
      {(d, ur_uptimePct (day_report r example_checks ''m'' 0 130000 d)) | d.
         0 < ur_coveredMs (day_report r example_checks ''m'' 0 130000 d)}"
  using daily_strip_agrees [of "''m''" "[''m'']"] by auto

end
