(* ===== verification/Store.thy ===== *)
theory Store
  imports Check Ledger Uptime Secrets Outbox
begin

text \<open>
  The database rows the service layer reads and writes (\<open>src/db/schema\<close>), the incident
  lifecycle (\<open>src/modules/incidents/lifecycle.ts\<close>) and the audit log
  (\<open>src/modules/audit/index.ts\<close>). A table is the list of its rows in insertion
  order; a generated \<open>uuidv7\<close> key is the next value of a counter, which keeps the two
  things the code relies on: keys are fresh and later keys sort later.
\<close>

section \<open>The incident lifecycle\<close>

datatype incident_status = Investigating | Identified | Monitoring | Resolved
datatype incident_severity = Critical | Major | Minor
datatype incident_source = Src_manual | Src_monitor

definition INCIDENT_STATUSES :: "incident_status list" where
  "INCIDENT_STATUSES = [Investigating, Identified, Monitoring, Resolved]"

definition isActiveStatus :: "incident_status \<Rightarrow> bool" where
  "isActiveStatus s \<longleftrightarrow> s \<noteq> Resolved"

definition canTransition :: "incident_status \<Rightarrow> incident_status \<Rightarrow> bool" where
  "canTransition source to =
     (if source = Resolved then False else if source = to then False else to \<in> set INCIDENT_STATUSES)"

definition allowedTransitions :: "incident_status \<Rightarrow> incident_status list" where
  "allowedTransitions source =
     (if source = Resolved then [] else filter (\<lambda>s. s \<noteq> source) INCIDENT_STATUSES)"

fun status_text :: "incident_status \<Rightarrow> string" where
  "status_text Investigating = ''investigating''"
| "status_text Identified = ''identified''"
| "status_text Monitoring = ''monitoring''"
| "status_text Resolved = ''resolved''"

fun severity_text :: "incident_severity \<Rightarrow> string" where
  "severity_text Critical = ''critical''"
| "severity_text Major = ''major''"
| "severity_text Minor = ''minor''"

fun source_text :: "incident_source \<Rightarrow> string" where
  "source_text Src_manual = ''manual''"
| "source_text Src_monitor = ''monitor''"

text \<open>
  the form offers exactly the moves the service accepts, a resolved incident
  offers none, and every active status can reach every other status.
\<close>

theorem transitions_agree:
  "set (allowedTransitions s) = {t. canTransition s t} \<and>
   (allowedTransitions s = [] \<longleftrightarrow> \<not> isActiveStatus s) \<and>
   (canTransition s t \<longleftrightarrow> isActiveStatus s \<and> s \<noteq> t)"
  by (cases s; cases t)
    (auto simp: allowedTransitions_def canTransition_def INCIDENT_STATUSES_def isActiveStatus_def)

section \<open>Rows\<close>

record monitor =
  mo_id :: string
  mo_organizationId :: string
  mo_name :: string
  mo_checkType :: string
  mo_url :: string
  mo_port :: "int option"
  mo_method :: http_method
  mo_timeoutMs :: int
  mo_degradedThresholdMs :: int
  mo_expectedStatusCode :: "int option"
  mo_bodyKeyword :: "string option"
  mo_keywordAbsent :: bool
  mo_tlsCheck :: bool
  mo_tlsWarnDays :: int
  mo_config :: json
  mo_parentId :: "string option"
  mo_specVersion :: int
  mo_intervalSeconds :: int
  mo_highFrequency :: bool
  mo_highFrequencyIntervalMs :: "int option"
  mo_failureWindowSeconds :: int
  mo_paused :: bool
  mo_shadowBridgeId :: "string option"
  mo_currentStatus :: monitor_status
  mo_consecutiveFailures :: int
  mo_firstFailureAt :: "date option"
  mo_lastCheckedAt :: "date option"
  mo_nextEvaluationAt :: "date option"
  mo_dispatchClaimedUntil :: "date option"
  mo_tlsDaysRemaining :: "int option"
  mo_dockerState :: "docker_check_state option"
  mo_importSource :: "string option"
  mo_importSourceId :: "string option"
  mo_createdBy :: "string option"
  mo_createdAt :: date

record incident =
  in_id :: nat
  in_organizationId :: string
  in_title :: string
  in_status :: incident_status
  in_severity :: incident_severity
  in_source :: incident_source
  in_monitorId :: "string option"
  in_postmortem :: "string option"
  in_startedAt :: date
  in_resolvedAt :: "date option"
  in_notifiedAt :: "date option"
  in_statusRevision :: int
  in_shadow :: bool
  in_acknowledgedAt :: "date option"
  in_acknowledgedBy :: "string option"
  in_createdBy :: "string option"

datatype event_type = Created | Status_change | Severity_change | Update | System

record incident_event =
  ev_id :: nat
  ev_incidentId :: nat
  ev_type :: event_type
  ev_status :: "incident_status option"
  ev_message :: string
  ev_internal :: bool
  ev_createdBy :: "string option"

text \<open>\<open>targetType\<close> and \<open>targetId\<close> of an audit entry.\<close>

datatype audit_target = On_incident nat | On_monitor string | On_outbox nat | On_channel string

record audit_entry =
  au_organizationId :: string
  au_actorId :: "string option"
  au_action :: string
  au_target :: audit_target
  au_metadata :: "(string \<times> json) list"

record heartbeat_row =
  hb_monitorId :: string
  hb_receivedAt :: date
  hb_reportedStatus :: reported_status
  hb_message :: "string option"
  hb_responseTimeMs :: "int option"

section \<open>Notification intents\<close>

datatype webhook_event = Monitor_down | Monitor_up | Incident_opened | Incident_updated | Incident_resolved

fun event_text :: "webhook_event \<Rightarrow> string" where
  "event_text Monitor_down = ''monitor.down''"
| "event_text Monitor_up = ''monitor.up''"
| "event_text Incident_opened = ''incident.opened''"
| "event_text Incident_updated = ''incident.updated''"
| "event_text Incident_resolved = ''incident.resolved''"

record intent_dispatch =
  dp_event :: webhook_event
  dp_causeKey :: string
  dp_subject :: string
  dp_detail :: "string option list"
  dp_url :: string
  dp_data :: json
  dp_monitorType :: "string option"
  dp_monitorId :: "string option"

record intent_email =
  em_event :: webhook_event
  em_causeKey :: string
  em_subject :: string
  em_text :: string

datatype subscriber_kind = Sub_opened | Sub_updated | Sub_resolved

fun subscriber_text :: "subscriber_kind \<Rightarrow> string" where
  "subscriber_text Sub_opened = ''opened''"
| "subscriber_text Sub_updated = ''updated''"
| "subscriber_text Sub_resolved = ''resolved''"

record intent_subscribers =
  su_kind :: subscriber_kind
  su_causeKey :: string
  su_incidentId :: nat
  su_incidentTitle :: string
  su_monitorId :: "string option"
  su_source :: incident_source
  su_latestUpdate :: "string option"

record intent_payload =
  pl_dispatches :: "intent_dispatch list"
  pl_memberEmail :: "intent_email option"
  pl_subscribers :: "intent_subscribers option"

datatype intent_state = Pending | Expanded | Failed

record intent_row =
  it_id :: nat
  it_organizationId :: string
  it_causeKey :: string
  it_incidentId :: "nat option"
  it_payload :: intent_payload
  it_state :: intent_state
  it_attempts :: nat
  it_lastError :: "string option"
  it_expandedAt :: "date option"

section \<open>Audiences\<close>

text \<open>
  A channel with the monitors its join table names, a member with the address of its
  user, a status page with the monitors it lists, and a subscriber of a page.
\<close>

record channel_row =
  nc_id :: string
  nc_organizationId :: string
  nc_provider :: string
  nc_name :: string
  nc_destination :: string
  nc_enabled :: bool
  nc_scopedToMonitors :: bool
  nc_monitors :: "string list"
  nc_events :: "string list"
  nc_createdAt :: date

record member_row =
  mb_organizationId :: string
  mb_role :: string
  mb_email :: string

record page_row =
  pg_id :: string
  pg_organizationId :: string
  pg_slug :: string
  pg_name :: string
  pg_published :: bool
  pg_public :: bool
  pg_monitors :: "string list"

record subscriber_row =
  sb_id :: string
  sb_pageId :: string
  sb_email :: string
  sb_confirmedAt :: "date option"

section \<open>The database\<close>

record db =
  db_monitors :: "monitor list"
  db_checks :: "check_row list"
  db_heartbeats :: "heartbeat_row list"
  db_incidents :: "incident list"
  db_events :: "incident_event list"
  db_audit :: "audit_entry list"
  db_intents :: "intent_row list"
  db_ledger :: ledger
  db_outbox :: outbox
  db_channels :: "channel_row list"
  db_members :: "member_row list"
  db_pages :: "page_row list"
  db_subscribers :: "subscriber_row list"
  db_nextId :: nat

definition find_monitor :: "db \<Rightarrow> string \<Rightarrow> monitor option" where
  "find_monitor d m = List.find (\<lambda>r. mo_id r = m) (db_monitors d)"

definition find_incident :: "db \<Rightarrow> nat \<Rightarrow> incident option" where
  "find_incident d i = List.find (\<lambda>r. in_id r = i) (db_incidents d)"

definition update_incident :: "nat \<Rightarrow> (incident \<Rightarrow> incident) \<Rightarrow> db \<Rightarrow> db" where
  "update_incident i f d =
     d\<lparr>db_incidents := map (\<lambda>r. if in_id r = i then f r else r) (db_incidents d)\<rparr>"

definition update_monitor :: "string \<Rightarrow> (monitor \<Rightarrow> monitor) \<Rightarrow> db \<Rightarrow> db" where
  "update_monitor m f d =
     d\<lparr>db_monitors := map (\<lambda>r. if mo_id r = m then f r else r) (db_monitors d)\<rparr>"

text \<open>Inserting a timeline event returns its generated key.\<close>

definition insert_event ::
  "nat \<Rightarrow> event_type \<Rightarrow> incident_status option \<Rightarrow> string \<Rightarrow> bool \<Rightarrow> string option \<Rightarrow> db \<Rightarrow> db \<times> nat" where
  "insert_event i ty st message internal author d =
     (d\<lparr>db_events := db_events d @
          [\<lparr>ev_id = db_nextId d, ev_incidentId = i, ev_type = ty, ev_status = st,
            ev_message = message, ev_internal = internal, ev_createdBy = author\<rparr>],
        db_nextId := Suc (db_nextId d)\<rparr>, db_nextId d)"

definition writeAudit ::
  "string \<Rightarrow> string option \<Rightarrow> string \<Rightarrow> audit_target \<Rightarrow> (string \<times> json) list \<Rightarrow> db \<Rightarrow> db" where
  "writeAudit organizationId actorId action target metadata d =
     d\<lparr>db_audit := db_audit d @
         [\<lparr>au_organizationId = organizationId, au_actorId = actorId, au_action = action,
           au_target = target, au_metadata = metadata\<rparr>]\<rparr>"

text \<open>The row as a check type's \<open>fromRow\<close> reads it.\<close>

definition monitor_view :: "monitor \<Rightarrow> monitor_row_view" where
  "monitor_view m =
     \<lparr>rv_checkType = mo_checkType m, rv_url = mo_url m, rv_port = mo_port m, rv_method = mo_method m,
      rv_intervalSeconds = mo_intervalSeconds m, rv_timeoutMs = mo_timeoutMs m,
      rv_degradedThresholdMs = mo_degradedThresholdMs m,
      rv_expectedStatusCode = mo_expectedStatusCode m, rv_bodyKeyword = mo_bodyKeyword m,
      rv_keywordAbsent = mo_keywordAbsent m, rv_tlsCheck = mo_tlsCheck m,
      rv_tlsWarnDays = mo_tlsWarnDays m, rv_config = mo_config m\<rparr>"

definition toCheckSpec :: "monitor \<Rightarrow> check_spec" where
  "toCheckSpec m =
     \<lparr>sp_checkType = mo_checkType m, sp_url = mo_url m, sp_port = mo_port m, sp_method = mo_method m,
      sp_timeoutMs = mo_timeoutMs m, sp_degradedThresholdMs = mo_degradedThresholdMs m,
      sp_expectedStatusCode = mo_expectedStatusCode m, sp_bodyKeyword = mo_bodyKeyword m,
      sp_keywordAbsent = Some (mo_keywordAbsent m), sp_tlsCheck = Some (mo_tlsCheck m),
      sp_tlsWarnDays = Some (mo_tlsWarnDays m), sp_intervalSeconds = mo_intervalSeconds m,
      sp_config = (if mo_config m = JNull then None else Some (mo_config m))\<rparr>"

lemma rowView_toCheckSpec: "rowView (toCheckSpec m) = monitor_view m"
  by (simp add: rowView_def toCheckSpec_def monitor_view_def or_default_def)

section \<open>Fields an operation leaves alone\<close>

lemma update_incident_frame [simp]:
  "db_monitors (update_incident i f d) = db_monitors d"
  "db_checks (update_incident i f d) = db_checks d"
  "db_heartbeats (update_incident i f d) = db_heartbeats d"
  "db_events (update_incident i f d) = db_events d"
  "db_audit (update_incident i f d) = db_audit d"
  "db_intents (update_incident i f d) = db_intents d"
  "db_ledger (update_incident i f d) = db_ledger d"
  "db_nextId (update_incident i f d) = db_nextId d"
  "db_incidents (update_incident i f d) = map (\<lambda>r. if in_id r = i then f r else r) (db_incidents d)"
  by (simp_all add: update_incident_def)

lemma insert_event_frame [simp]:
  "db_monitors (fst (insert_event i ty st msg internal author d)) = db_monitors d"
  "db_checks (fst (insert_event i ty st msg internal author d)) = db_checks d"
  "db_heartbeats (fst (insert_event i ty st msg internal author d)) = db_heartbeats d"
  "db_incidents (fst (insert_event i ty st msg internal author d)) = db_incidents d"
  "db_audit (fst (insert_event i ty st msg internal author d)) = db_audit d"
  "db_intents (fst (insert_event i ty st msg internal author d)) = db_intents d"
  "db_ledger (fst (insert_event i ty st msg internal author d)) = db_ledger d"
  "db_nextId (fst (insert_event i ty st msg internal author d)) = Suc (db_nextId d)"
  "snd (insert_event i ty st msg internal author d) = db_nextId d"
  by (simp_all add: insert_event_def)

lemma writeAudit_frame [simp]:
  "db_monitors (writeAudit org a act t md d) = db_monitors d"
  "db_checks (writeAudit org a act t md d) = db_checks d"
  "db_heartbeats (writeAudit org a act t md d) = db_heartbeats d"
  "db_incidents (writeAudit org a act t md d) = db_incidents d"
  "db_events (writeAudit org a act t md d) = db_events d"
  "db_intents (writeAudit org a act t md d) = db_intents d"
  "db_ledger (writeAudit org a act t md d) = db_ledger d"
  "db_nextId (writeAudit org a act t md d) = db_nextId d"
  by (simp_all add: writeAudit_def)

lemma find_Some_mem: "List.find P xs = Some x \<Longrightarrow> x \<in> set xs \<and> P x"
  by (auto simp: find_Some_iff)

lemma find_incident_mem: "find_incident d i = Some r \<Longrightarrow> r \<in> set (db_incidents d) \<and> in_id r = i"
  unfolding find_incident_def by (rule find_Some_mem)

lemma find_monitor_mem: "find_monitor d m = Some r \<Longrightarrow> r \<in> set (db_monitors d) \<and> mo_id r = m"
  unfolding find_monitor_def by (rule find_Some_mem)

lemma find_distinct:
  assumes "distinct (map key xs)" and "x \<in> set xs"
  shows "List.find (\<lambda>r. key r = key x) xs = Some x"
  using assms by (induction xs) (auto simp: rev_image_eqI)

section \<open>A sample installation\<close>

definition sample_monitor :: monitor where
  "sample_monitor =
     \<lparr>mo_id = ''m1'', mo_organizationId = ''org'', mo_name = ''api'', mo_checkType = ''http'',
      mo_url = ''https://api.example/health'', mo_port = None, mo_method = GET, mo_timeoutMs = 10000,
      mo_degradedThresholdMs = 3000, mo_expectedStatusCode = None, mo_bodyKeyword = None,
      mo_keywordAbsent = False, mo_tlsCheck = False, mo_tlsWarnDays = 14, mo_config = JNull,
      mo_parentId = None, mo_specVersion = 1, mo_intervalSeconds = 60, mo_highFrequency = False,
      mo_highFrequencyIntervalMs = None, mo_failureWindowSeconds = 0,
      mo_paused = False, mo_shadowBridgeId = None, mo_currentStatus = SDown,
      mo_consecutiveFailures = 1, mo_firstFailureAt = Some 0, mo_lastCheckedAt = Some 0,
      mo_nextEvaluationAt = None, mo_dispatchClaimedUntil = None, mo_tlsDaysRemaining = None,
      mo_dockerState = None, mo_importSource = None,
      mo_importSourceId = None, mo_createdBy = None, mo_createdAt = 0\<rparr>"

definition sample_db :: db where
  "sample_db =
     \<lparr>db_monitors = [sample_monitor], db_checks = [], db_heartbeats = [], db_incidents = [],
      db_events = [], db_audit = [], db_intents = [],
      db_ledger = \<lparr>lg_actors = Map.empty, lg_index = Map.empty, lg_facts = []\<rparr>,
      db_outbox = \<lparr>bx_rows = [], bx_attempts = [], bx_nextId = 0\<rparr>, db_channels = [], db_members = [],
      db_pages = [], db_subscribers = [], db_nextId = 0\<rparr>"

end
