(* ===== verification/Catalog.thy ===== *)
theory Catalog
  imports Uptime
begin

text \<open>
  The catalog of check types, \<open>src/modules/monitors/types/catalog.ts\<close>: of each
  descriptor its id, its kind, its label, its port rule and the form sections it opts
  into (the columns the writer keeps). What the scheduler and the uptime query read
  from it is derived from the kinds, as in the code.
\<close>

datatype check_type_kind = K_active | K_passive | K_aggregate | K_manual

definition SCHEDULED_KINDS :: "check_type_kind list" where
  "SCHEDULED_KINDS = [K_active, K_passive]"

definition isScheduledKind :: "check_type_kind \<Rightarrow> bool" where
  "isScheduledKind kind \<longleftrightarrow> kind \<in> set SCHEDULED_KINDS"

datatype form_section =
    F_method | F_expectedStatusCode | F_keyword | F_tlsWarning | F_port | F_dnsRecord
  | F_expiryWarning | F_heartbeatGrace | F_manualStatus

text \<open>\<open>port\<close> is \<open>null\<close>, or whether it is required and its default.\<close>

record check_type_descriptor =
  dt_id :: string
  dt_kind :: check_type_kind
  dt_label :: string
  dt_port :: "(bool \<times> int option) option"
  dt_form :: "form_section list"

definition descriptor ::
  "string \<Rightarrow> check_type_kind \<Rightarrow> string \<Rightarrow> (bool \<times> int option) option \<Rightarrow> form_section list \<Rightarrow> check_type_descriptor" where
  "descriptor i k l p fs = \<lparr>dt_id = i, dt_kind = k, dt_label = l, dt_port = p, dt_form = fs\<rparr>"

definition CHECK_TYPE_DESCRIPTORS :: "check_type_descriptor list" where
  "CHECK_TYPE_DESCRIPTORS =
     [descriptor ''http'' K_active ''HTTP(S) request'' None [F_method, F_expectedStatusCode, F_keyword, F_tlsWarning],
      descriptor ''tcp'' K_active ''TCP port'' (Some (True, None)) [F_port],
      descriptor ''ping'' K_active ''Ping (ICMP)'' None [],
      descriptor ''dns'' K_active ''DNS record'' None [F_dnsRecord],
      descriptor ''tls-expiry'' K_active ''TLS certificate expiry'' (Some (False, Some 443)) [F_port, F_expiryWarning],
      descriptor ''domain-expiry'' K_active ''Domain expiry'' None [F_expiryWarning],
      descriptor ''postgres'' K_active ''PostgreSQL'' (Some (False, None)) [],
      descriptor ''mysql'' K_active ''MySQL / MariaDB'' (Some (True, Some 3306)) [F_port],
      descriptor ''mongodb'' K_active ''MongoDB'' (Some (True, Some 27017)) [F_port],
      descriptor ''redis'' K_active ''Redis'' (Some (True, Some 6379)) [F_port],
      descriptor ''docker'' K_active ''Docker container'' None [],
      descriptor ''mqtt'' K_active ''MQTT broker'' (Some (True, Some 1883)) [F_port],
      descriptor ''smtp'' K_active ''SMTP'' (Some (True, Some 25)) [F_port],
      descriptor ''json-query'' K_active ''JSON query'' (Some (False, None)) [],
      descriptor ''push'' K_passive ''Push heartbeat'' None [F_heartbeatGrace],
      descriptor ''group'' K_aggregate ''Group'' None [],
      descriptor ''manual'' K_manual ''Manual'' None [F_manualStatus],
      descriptor ''sqlserver'' K_active ''Microsoft SQL Server'' (Some (False, None)) [],
      descriptor ''oracledb'' K_active ''Oracle Database'' (Some (False, None)) [],
      descriptor ''memcached'' K_active ''Memcached'' (Some (True, Some 11211)) [F_port],
      descriptor ''elasticsearch'' K_active ''Elasticsearch'' None [],
      descriptor ''rabbitmq'' K_active ''RabbitMQ'' None [],
      descriptor ''kafka-producer'' K_active ''Kafka producer'' (Some (True, Some 9092)) [F_port],
      descriptor ''udp'' K_active ''UDP port'' (Some (True, None)) [F_port],
      descriptor ''ntp'' K_active ''NTP server'' (Some (False, Some 123)) [F_port],
      descriptor ''radius'' K_active ''RADIUS'' (Some (False, Some 1812)) [F_port],
      descriptor ''imap'' K_active ''IMAP'' (Some (True, Some 143)) [F_port],
      descriptor ''ftp'' K_active ''FTP'' (Some (True, Some 21)) [F_port],
      descriptor ''ldap'' K_active ''LDAP directory'' (Some (True, Some 389)) [F_port],
      descriptor ''ssh'' K_active ''SSH'' (Some (True, Some 22)) [F_port],
      descriptor ''websocket'' K_active ''WebSocket'' None [],
      descriptor ''grpc'' K_active ''gRPC health check'' (Some (True, Some 50051)) [F_port],
      descriptor ''gamedig'' K_active ''Game server (UDP query)'' (Some (True, None)) [F_port],
      descriptor ''steam'' K_active ''Steam game server'' (Some (True, Some 27015)) [F_port],
      descriptor ''snmp'' K_active ''SNMP'' (Some (True, Some 161)) [F_port],
      descriptor ''system-service'' K_active ''System service'' None [],
      descriptor ''sip'' K_active ''SIP (OPTIONS)'' (Some (True, Some 5060)) [F_port, F_expectedStatusCode],
      descriptor ''tailscale-ping'' K_active ''Tailscale ping'' None [],
      descriptor ''real-browser'' K_active ''Real browser'' None [F_keyword],
      descriptor ''globalping'' K_active ''Globalping (worldwide)'' None []]"

definition findDescriptor :: "string \<Rightarrow> check_type_descriptor option" where
  "findDescriptor i = List.find (\<lambda>t. dt_id t = i) CHECK_TYPE_DESCRIPTORS"

definition unknownDescriptor :: "string \<Rightarrow> check_type_descriptor" where
  "unknownDescriptor i = descriptor i K_active i None []"

definition describeCheckType :: "string \<Rightarrow> check_type_descriptor" where
  "describeCheckType i = (case findDescriptor i of Some t \<Rightarrow> t | None \<Rightarrow> unknownDescriptor i)"

definition checkTypeKind :: "string \<Rightarrow> check_type_kind" where
  "checkTypeKind i = dt_kind (describeCheckType i)"

definition UNSCHEDULED_CHECK_TYPE_IDS :: "string list" where
  "UNSCHEDULED_CHECK_TYPE_IDS =
     map dt_id (filter (\<lambda>t. \<not> isScheduledKind (dt_kind t)) CHECK_TYPE_DESCRIPTORS)"

definition AGGREGATE_CHECK_TYPE_IDS :: "string list" where
  "AGGREGATE_CHECK_TYPE_IDS = map dt_id (filter (\<lambda>t. dt_kind t = K_aggregate) CHECK_TYPE_DESCRIPTORS)"

section \<open>What the lists derived from the catalog contain\<close>

lemma isScheduledKind_iff: "isScheduledKind k \<longleftrightarrow> k = K_active \<or> k = K_passive"
  by (auto simp: isScheduledKind_def SCHEDULED_KINDS_def)

lemma descriptor_sel [simp]:
  "dt_id (descriptor i k l p fs) = i"
  "dt_kind (descriptor i k l p fs) = k"
  "dt_label (descriptor i k l p fs) = l"
  "dt_port (descriptor i k l p fs) = p"
  "dt_form (descriptor i k l p fs) = fs"
  by (simp_all add: descriptor_def)

lemma catalog_lists:
  "UNSCHEDULED_CHECK_TYPE_IDS = [''group'', ''manual'']"
  "AGGREGATE_CHECK_TYPE_IDS = [''group'']"
  "STANDING_OBSERVATION_CHECK_TYPE_IDS = map dt_id (filter (\<lambda>t. dt_kind t = K_manual) CHECK_TYPE_DESCRIPTORS)"
  by (simp_all add: UNSCHEDULED_CHECK_TYPE_IDS_def AGGREGATE_CHECK_TYPE_IDS_def CHECK_TYPE_DESCRIPTORS_def
      STANDING_OBSERVATION_CHECK_TYPE_IDS_def isScheduledKind_iff)

lemma catalog_ids_distinct: "distinct (map dt_id CHECK_TYPE_DESCRIPTORS)"
  by (simp add: CHECK_TYPE_DESCRIPTORS_def)

lemma find_none_or_some:
  "findDescriptor i = None \<and> i \<notin> dt_id ` set CHECK_TYPE_DESCRIPTORS \<or>
   (\<exists>t \<in> set CHECK_TYPE_DESCRIPTORS. findDescriptor i = Some t \<and> dt_id t = i)"
  unfolding findDescriptor_def
  by (cases "List.find (\<lambda>t. dt_id t = i) CHECK_TYPE_DESCRIPTORS") (auto simp: find_None_iff find_Some_iff)

lemma checkTypeKind_member:
  assumes "t \<in> set CHECK_TYPE_DESCRIPTORS"
  shows "checkTypeKind (dt_id t) = dt_kind t"
proof -
  obtain u where "u \<in> set CHECK_TYPE_DESCRIPTORS" "findDescriptor (dt_id t) = Some u" "dt_id u = dt_id t"
    using find_none_or_some [of "dt_id t"] assms by auto
  then have "u = t"
    using catalog_ids_distinct assms by (metis distinct_map inj_onD)
  with \<open>findDescriptor (dt_id t) = Some u\<close> show ?thesis
    by (simp add: checkTypeKind_def describeCheckType_def)
qed

text \<open>
  The scheduler's SQL excludes a list of ids, the worker asks the kind of one type:
  they agree on every type, a type this build does not know included.
\<close>

theorem scheduled_kind_iff_not_excluded:
  "isScheduledKind (checkTypeKind i) \<longleftrightarrow> i \<notin> set UNSCHEDULED_CHECK_TYPE_IDS"
proof (cases "findDescriptor i")
  case None
  then show ?thesis
    using find_none_or_some [of i]
    by (auto simp: checkTypeKind_def describeCheckType_def unknownDescriptor_def isScheduledKind_iff
        UNSCHEDULED_CHECK_TYPE_IDS_def)
next
  case (Some t)
  then have "t \<in> set CHECK_TYPE_DESCRIPTORS" "dt_id t = i"
    using find_none_or_some [of i] by auto
  then show ?thesis
    using checkTypeKind_member catalog_ids_distinct
    by (auto simp: UNSCHEDULED_CHECK_TYPE_IDS_def dest!: inj_onD [OF distinct_map [THEN iffD1, THEN conjunct2]])
qed

lemma checkTypeKind_aggregate: "checkTypeKind i = K_aggregate \<longleftrightarrow> i = ''group''"
proof -
  have "checkTypeKind i = K_aggregate \<longleftrightarrow> i \<in> set AGGREGATE_CHECK_TYPE_IDS"
    using find_none_or_some [of i]
    by (auto simp: checkTypeKind_def describeCheckType_def unknownDescriptor_def AGGREGATE_CHECK_TYPE_IDS_def
        dest: checkTypeKind_member [unfolded checkTypeKind_def describeCheckType_def])
  then show ?thesis by (simp add: catalog_lists)
qed

end
