(* ===== verification/Scheduler.thy ===== *)
theory Scheduler
  imports Store Catalog Fair_Ranking "HOL-Library.Multiset" "HOL-Library.Option_ord" "HOL-Library.Product_Lexorder"
begin

text \<open>
  Which monitors a tick probes: the due predicate, the fair ranking, the claim and the
  backlog of \<open>src/modules/monitors/service.ts\<close>, and the tick itself,
  \<open>src/worker/jobs/monitor-tick.ts\<close>. \<open>now()\<close> is an argument of each statement. The
  rows another transaction has locked (\<open>skip locked\<close>) are a predicate on ids.

  The lemmas show that a tick never selects more than its batch, that selection is
  fair between tenants, that a claim cannot be taken twice before it runs out, and
  that splitting a claim into chunks changes nothing.
\<close>

section \<open>Predicates\<close>

definition TICK_GRACE_SECONDS :: int where
  "TICK_GRACE_SECONDS = 30"

definition unclaimed :: "date \<Rightarrow> monitor \<Rightarrow> bool" where
  "unclaimed now m \<longleftrightarrow> (case mo_dispatchClaimedUntil m of None \<Rightarrow> True | Some until \<Rightarrow> until \<le> now)"

definition dueCondition :: "string list \<Rightarrow> string option \<Rightarrow> date \<Rightarrow> monitor \<Rightarrow> bool" where
  "dueCondition excludedCheckTypes organizationId now m \<longleftrightarrow>
     (case organizationId of None \<Rightarrow> True | Some org \<Rightarrow> mo_organizationId m = org) \<and>
     \<not> mo_paused m \<and>
     mo_checkType m \<notin> set excludedCheckTypes \<and>
     (case mo_nextEvaluationAt m of None \<Rightarrow> True | Some t \<Rightarrow> t - TICK_GRACE_SECONDS * 1000 \<le> now) \<and>
     unclaimed now m"

definition latePredicate :: "string list \<Rightarrow> string option \<Rightarrow> date \<Rightarrow> monitor \<Rightarrow> bool" where
  "latePredicate excludedCheckTypes organizationId now m \<longleftrightarrow>
     (case organizationId of None \<Rightarrow> True | Some org \<Rightarrow> mo_organizationId m = org) \<and>
     \<not> mo_paused m \<and>
     \<not> mo_highFrequency m \<and>
     mo_checkType m \<notin> set excludedCheckTypes \<and>
     (case mo_nextEvaluationAt m of None \<Rightarrow> False | Some t \<Rightarrow> t \<le> now)"

section \<open>Selection\<close>

text \<open>\<open>nulls first\<close> is the order of \<open>option\<close>.\<close>

definition due_key :: "monitor \<Rightarrow> date option \<times> string" where
  "due_key m = (mo_nextEvaluationAt m, mo_id m)"

definition dueMonitors :: "string option \<Rightarrow> date \<Rightarrow> db \<Rightarrow> monitor list" where
  "dueMonitors organizationId now d =
     filter (dueCondition UNSCHEDULED_CHECK_TYPE_IDS organizationId now) (db_monitors d)"

definition dueRanking :: "string option \<Rightarrow> date \<Rightarrow> db \<Rightarrow> (nat \<times> monitor) list" where
  "dueRanking organizationId now d =
     sort_key (\<lambda>(rank, m). (rank, due_key m))
       (row_numbers mo_organizationId due_key (dueMonitors organizationId now d))"

definition due_ids :: "nat \<Rightarrow> string option \<Rightarrow> date \<Rightarrow> db \<Rightarrow> string list" where
  "due_ids limit organizationId now d = map (\<lambda>(_, m). mo_id m) (take limit (dueRanking organizationId now d))"

text \<open>The ids come from one statement and the rows from a second, which reads \<open>d'\<close>.\<close>

definition findDueMonitors :: "nat \<Rightarrow> string option \<Rightarrow> date \<Rightarrow> db \<Rightarrow> db \<Rightarrow> monitor list" where
  "findDueMonitors limit organizationId now d d' =
     List.map_filter (find_monitor d') (due_ids limit organizationId now d)"

section \<open>Claims\<close>

definition ENQUEUE_LEASE_SECONDS :: int where
  "ENQUEUE_LEASE_SECONDS = 90"

definition CLAIM_CHUNK :: nat where
  "CLAIM_CHUNK = 1000"

definition claimable :: "date \<Rightarrow> (string \<Rightarrow> bool) \<Rightarrow> string list \<Rightarrow> monitor \<Rightarrow> bool" where
  "claimable now locked ids m \<longleftrightarrow>
     mo_id m \<in> set ids \<and> \<not> locked (mo_id m) \<and> dueCondition UNSCHEDULED_CHECK_TYPE_IDS None now m"

definition lease_until :: "date \<Rightarrow> int \<Rightarrow> monitor \<Rightarrow> monitor" where
  "lease_until now leaseSeconds m = m\<lparr>mo_dispatchClaimedUntil := Some (now + leaseSeconds * 1000)\<rparr>"

definition claim_statement ::
  "date \<Rightarrow> (string \<Rightarrow> bool) \<Rightarrow> int \<Rightarrow> string list \<Rightarrow> db \<Rightarrow> db \<times> string list" where
  "claim_statement now locked leaseSeconds ids d =
     (d\<lparr>db_monitors := map (\<lambda>m. if claimable now locked ids m then lease_until now leaseSeconds m else m) (db_monitors d)\<rparr>,
      map mo_id (filter (claimable now locked ids) (db_monitors d)))"

text \<open>
  The recursive calls of \<open>claimMonitorsForDispatch\<close> run one statement each; \<open>clock\<close>
  and \<open>locked\<close> give the time and the rows locked elsewhere for each of them.
\<close>

function claim_chunks ::
  "(nat \<Rightarrow> date) \<Rightarrow> (nat \<Rightarrow> string \<Rightarrow> bool) \<Rightarrow> int \<Rightarrow> nat \<Rightarrow> string list \<Rightarrow> db \<Rightarrow> db \<times> string list" where
  "claim_chunks clock locked leaseSeconds k [] d = (d, [])"
| "claim_chunks clock locked leaseSeconds k (i # is) d =
     (let (d1, claimed) = claim_statement (clock k) (locked k) leaseSeconds (take CLAIM_CHUNK (i # is)) d;
          (d2, others) = claim_chunks clock locked leaseSeconds (Suc k) (drop CLAIM_CHUNK (i # is)) d1
      in (d2, claimed @ others))"
  by pat_completeness auto
termination
  by (relation "measure (\<lambda>(_, _, _, _, ids, _). length ids)") (auto simp: CLAIM_CHUNK_def)

definition claimMonitorsForDispatch ::
  "(nat \<Rightarrow> date) \<Rightarrow> (nat \<Rightarrow> string \<Rightarrow> bool) \<Rightarrow> int \<Rightarrow> string list \<Rightarrow> db \<Rightarrow> db \<times> string list" where
  "claimMonitorsForDispatch clock locked leaseSeconds monitorIds d =
     (if length monitorIds = 0 then (d, [])
      else if CLAIM_CHUNK < length monitorIds then claim_chunks clock locked leaseSeconds 0 monitorIds d
      else claim_statement (clock 0) (locked 0) leaseSeconds monitorIds d)"

definition reserveMonitorForFollowUp :: "date \<Rightarrow> string \<Rightarrow> int \<Rightarrow> db \<Rightarrow> db \<times> bool" where
  "reserveMonitorForFollowUp now monitorId leaseSeconds d =
     (let free = (\<lambda>m. mo_id m = monitorId \<and> \<not> mo_paused m \<and> unclaimed now m)
      in (d\<lparr>db_monitors := map (\<lambda>m. if free m then lease_until now leaseSeconds m else m) (db_monitors d)\<rparr>,
          0 < length (filter free (db_monitors d))))"

definition deferHighFrequencyOwned :: "date \<Rightarrow> string list \<Rightarrow> int \<Rightarrow> db \<Rightarrow> db" where
  "deferHighFrequencyOwned now monitorIds seconds d =
     (if length monitorIds = 0 then d
      else d\<lparr>db_monitors := map (\<lambda>m. if mo_id m \<in> set monitorIds \<and> mo_highFrequency m
                                     then m\<lparr>mo_nextEvaluationAt := Some (now + seconds * 1000)\<rparr> else m)
                                (db_monitors d)\<rparr>)"

text \<open>
  The backlog: how many monitors are late and how late the oldest is, in milliseconds.
  \<open>min\<close> over no rows is \<open>null\<close>.
\<close>

definition schedulerBacklog :: "date \<Rightarrow> string option \<Rightarrow> db \<Rightarrow> nat \<times> millis" where
  "schedulerBacklog now organizationId d =
     (let late = filter (latePredicate UNSCHEDULED_CHECK_TYPE_IDS organizationId now) (db_monitors d);
          ages = map (\<lambda>m. now - the (mo_nextEvaluationAt m)) late
      in (length late, max 0 (case ages of [] \<Rightarrow> 0 | _ \<Rightarrow> Max (set ages))))"

section \<open>The tick\<close>

definition HIGH_FREQUENCY_DEFERRAL_SECONDS :: int where
  "HIGH_FREQUENCY_DEFERRAL_SECONDS = 60"

text \<open>What \<open>boss.insert\<close> answers: the ids it took, \<open>null\<close>, or neither.\<close>

datatype insert_reply = Accepted "string list" | Accepted_none | Unreported

record tick_result =
  tk_backlog :: nat
  tk_lagMs :: millis
  tk_selected :: nat
  tk_claimed :: nat
  tk_enqueued :: nat

text \<open>
  One tick. Besides the new database and the report it returns the jobs it offered to
  the queue. \<open>heldByHighFrequency\<close> is the answer of \<open>highFrequencyClaims ()\<close>.
\<close>

definition runMonitorTick ::
  "nat \<Rightarrow> date \<Rightarrow> (nat \<Rightarrow> string \<Rightarrow> bool) \<Rightarrow> (monitor \<Rightarrow> bool) \<Rightarrow> (string list \<Rightarrow> insert_reply) \<Rightarrow> string option \<Rightarrow>
   db \<Rightarrow> db \<times> string list \<times> tick_result" where
  "runMonitorTick batch now locked heldByHighFrequency insert_jobs organizationId d =
     (let backlog = schedulerBacklog now organizationId d;
          due = findDueMonitors batch organizationId now d d;
          deferred = map mo_id (filter heldByHighFrequency due);
          candidates = filter (\<lambda>m. \<not> heldByHighFrequency m) due;
          d1 = deferHighFrequencyOwned now deferred HIGH_FREQUENCY_DEFERRAL_SECONDS d;
          (d2, claimed) = claimMonitorsForDispatch (\<lambda>_. now) locked ENQUEUE_LEASE_SECONDS (map mo_id candidates) d1;
          enqueued = (if 0 < length claimed
                      then (case insert_jobs claimed of
                              Accepted ids \<Rightarrow> length ids | Accepted_none \<Rightarrow> 0 | Unreported \<Rightarrow> length claimed)
                      else 0)
      in (d2, claimed,
          \<lparr>tk_backlog = fst backlog, tk_lagMs = snd backlog, tk_selected = length candidates,
           tk_claimed = length claimed, tk_enqueued = enqueued\<rparr>))"

section \<open>The follow-up of a sub-minute monitor\<close>

definition TICK_PERIOD_MS :: int where
  "TICK_PERIOD_MS = 60000"

definition ceil_seconds :: "millis \<Rightarrow> int" where
  "ceil_seconds ms = - ((- ms) div 1000)"

text \<open>
  \<open>scheduleFastFollowUp\<close> of \<open>worker/jobs/monitor-check.ts\<close> with a queue at hand: the job
  it sends, if any, with its \<open>startAfter\<close>.
\<close>

definition scheduleFastFollowUp :: "date \<Rightarrow> monitor \<Rightarrow> db \<Rightarrow> db \<times> (string \<times> date) option" where
  "scheduleFastFollowUp now m d =
     (case mo_nextEvaluationAt m of
        None \<Rightarrow> (d, None)
      | Some next \<Rightarrow>
          (let decidedAt = (case mo_lastCheckedAt m of None \<Rightarrow> now | Some t \<Rightarrow> t)
           in if mo_paused m then (d, None)
              else if TICK_PERIOD_MS < next - decidedAt then (d, None)
              else (let untilDueMs = max 0 (next - now);
                        (d1, reserved) = reserveMonitorForFollowUp now (mo_id m)
                          (ceil_seconds untilDueMs + ENQUEUE_LEASE_SECONDS) d
                    in if reserved then (d1, Some (mo_id m, next)) else (d1, None))))"

section \<open>Ranking\<close>

lemma monitor_by_id:
  assumes "distinct (map mo_id (db_monitors d))" and "a \<in> set (db_monitors d)" and "b \<in> set (db_monitors d)"
    and "mo_id a = mo_id b"
  shows "a = b"
  using assms by (meson distinct_map inj_onD)

interpretation due: fair_ranking mo_organizationId due_key due_key mo_id
  by unfold_locales (simp add: due_key_def)

abbreviation ahead_of :: "string option \<Rightarrow> date \<Rightarrow> db \<Rightarrow> monitor \<Rightarrow> nat" where
  "ahead_of org now d \<equiv> ahead mo_organizationId due_key (dueMonitors org now d)"

lemma dueRanking_ranking:
  "dueRanking org now d = ranking mo_organizationId due_key due_key (dueMonitors org now d)"
  by (simp add: dueRanking_def ranking_def)

lemma due_ids_set: "set (due_ids limit org now d) = mo_id ` snd ` set (take limit (dueRanking org now d))"
  by (force simp: due_ids_def)

lemma due_distinct: "distinct (map mo_id (db_monitors d)) \<Longrightarrow> distinct (map mo_id (dueMonitors org now d))"
  by (simp add: dueMonitors_def distinct_map_filter)

lemma dueRanking_iff:
  assumes "distinct (map mo_id (db_monitors d))"
  shows "(n, m) \<in> set (dueRanking org now d) \<longleftrightarrow> m \<in> set (dueMonitors org now d) \<and> n = Suc (ahead_of org now d m)"
  unfolding dueRanking_ranking by (rule due.ranking_iff [OF due_distinct [OF assms]])

lemma dueRanking_distinct:
  assumes "distinct (map mo_id (db_monitors d))"
  shows "distinct (dueRanking org now d)"
  unfolding dueRanking_ranking by (rule due.ranking_distinct [OF due_distinct [OF assms]])

text \<open>
  selection is fair between tenants. A due monitor that fewer of its own
  organization's monitors are ahead of is never passed over for one that more of its
  organization's monitors are ahead of, whoever is more overdue.
\<close>

theorem due_selection_fair:
  assumes "distinct (map mo_id (db_monitors d))"
    and "x \<in> set (dueMonitors org now d)" and "y \<in> set (dueMonitors org now d)"
    and "ahead_of org now d x < ahead_of org now d y"
    and "mo_id y \<in> set (due_ids limit org now d)"
  shows "mo_id x \<in> set (due_ids limit org now d)"
  using due.fair [OF due_distinct [OF assms(1)] assms(2-4)] assms(5) by (simp add: due_ids_set dueRanking_ranking)

definition due_monitor :: "string \<Rightarrow> string \<Rightarrow> date \<Rightarrow> monitor" where
  "due_monitor i org t = sample_monitor\<lparr>mo_id := i, mo_organizationId := org, mo_nextEvaluationAt := Some t\<rparr>"

definition two_tenants :: db where
  "two_tenants = sample_db\<lparr>db_monitors :=
     [due_monitor ''a1'' ''big'' 1000, due_monitor ''a2'' ''big'' 2000, due_monitor ''a3'' ''big'' 3000,
      due_monitor ''b1'' ''small'' 90000]\<rparr>"

lemma two_tenants_simps [simp]:
  "db_monitors two_tenants =
     [due_monitor ''a1'' ''big'' 1000, due_monitor ''a2'' ''big'' 2000, due_monitor ''a3'' ''big'' 3000,
      due_monitor ''b1'' ''small'' 90000]"
  "mo_id (due_monitor i org t) = i"
  "mo_organizationId (due_monitor i org t) = org"
  "mo_nextEvaluationAt (due_monitor i org t) = Some t"
  "mo_highFrequency (due_monitor i org t) = False"
  "mo_paused (due_monitor i org t) = False"
  "mo_dispatchClaimedUntil (due_monitor i org t) = None"
  "mo_checkType (due_monitor i org t) = ''http''"
  by (simp_all add: two_tenants_def due_monitor_def sample_monitor_def)

lemma two_tenants_due [simp]: "dueMonitors None 120000 two_tenants = db_monitors two_tenants"
  by (simp add: dueMonitors_def dueCondition_def unclaimed_def TICK_GRACE_SECONDS_def catalog_lists)

theorem due_selection_fair_witness:
  "ahead_of None 120000 two_tenants (due_monitor ''b1'' ''small'' 90000) = 0 \<and>
   ahead_of None 120000 two_tenants (due_monitor ''a2'' ''big'' 2000) = 1 \<and>
   ''a2'' \<in> set (due_ids 3 None 120000 two_tenants) \<and> ''b1'' \<in> set (due_ids 3 None 120000 two_tenants)"
proof -
  have in3: "''a2'' \<in> set (due_ids 3 None 120000 two_tenants)" by code_simp
  have a: "ahead_of None 120000 two_tenants (due_monitor ''b1'' ''small'' 90000) = 0"
    by (auto simp: ahead_def card_eq_0_iff due_key_def)
  have "{q. (q = due_monitor ''a1'' ''big'' 1000 \<or> q = due_monitor ''a2'' ''big'' 2000 \<or> q = due_monitor ''a3'' ''big'' 3000 \<or>
       q = due_monitor ''b1'' ''small'' 90000) \<and> mo_organizationId q = ''big'' \<and> due_key q < (Some 2000, ''a2'')} =
      {due_monitor ''a1'' ''big'' 1000}"
    by (auto simp: due_key_def)
  then have b: "ahead_of None 120000 two_tenants (due_monitor ''a2'' ''big'' 2000) = 1"
    by (simp add: ahead_def due_key_def [of "due_monitor _ _ _"])
  show ?thesis
    using due_selection_fair [of two_tenants "due_monitor ''b1'' ''small'' 90000" None 120000
        "due_monitor ''a2'' ''big'' 2000" 3] a b in3
    by simp
qed

text \<open>
  no tenant is starved. When the batch has room for one monitor per organization
  that has something due, every such organization gets its most overdue monitor
  selected, however far behind the others are.
\<close>

theorem due_selection_starves_nobody:
  assumes dist: "distinct (map mo_id (db_monitors d))"
    and room: "card (mo_organizationId ` set (dueMonitors org now d)) \<le> limit"
    and x: "x \<in> set (dueMonitors org now d)"
  shows "\<exists>y \<in> set (dueMonitors org now d). mo_organizationId y = mo_organizationId x \<and>
    (\<forall>z \<in> set (dueMonitors org now d). mo_organizationId z = mo_organizationId x \<longrightarrow> due_key y \<le> due_key z) \<and>
    mo_id y \<in> set (due_ids limit org now d)"
  using due.starves_nobody [OF due_distinct [OF dist] room x] by (simp add: due_ids_set dueRanking_ranking)

theorem due_selection_starves_nobody_witness: "''b1'' \<in> set (due_ids 2 None 120000 two_tenants)"
  using due_selection_starves_nobody [of two_tenants None 120000 2 "due_monitor ''b1'' ''small'' 90000"]
  by auto

section \<open>Claims\<close>

lemma lease_until_sel [simp]:
  "mo_id (lease_until now l m) = mo_id m"
  "mo_paused (lease_until now l m) = mo_paused m"
  "mo_checkType (lease_until now l m) = mo_checkType m"
  "mo_organizationId (lease_until now l m) = mo_organizationId m"
  "mo_nextEvaluationAt (lease_until now l m) = mo_nextEvaluationAt m"
  "mo_dispatchClaimedUntil (lease_until now l m) = Some (now + l * 1000)"
  by (simp_all add: lease_until_def)

lemma claimableD:
  assumes "claimable now locked ids m"
  shows "mo_id m \<in> set ids" and "\<not> locked (mo_id m)" and "unclaimed now m" and "\<not> mo_paused m"
  using assms by (simp_all add: claimable_def dueCondition_def)

text \<open>A row under a lease that has not run out is not claimable.\<close>

lemma leased_not_claimable:
  assumes "t < now + l * 1000"
  shows "\<not> unclaimed t (lease_until now l m)" and "\<not> claimable t locked ids (lease_until now l m)"
  using assms by (simp_all add: claimable_def dueCondition_def unclaimed_def)

lemma claim_statement_sel [simp]:
  "db_monitors (fst (claim_statement now locked l ids d)) =
     map (\<lambda>m. if claimable now locked ids m then lease_until now l m else m) (db_monitors d)"
  "snd (claim_statement now locked l ids d) = map mo_id (filter (claimable now locked ids) (db_monitors d))"
  by (simp_all add: claim_statement_def)

lemma claim_statement_ids [simp]:
  "map mo_id (db_monitors (fst (claim_statement now locked l ids d))) = map mo_id (db_monitors d)"
  by (simp add: comp_def if_distrib cong: if_cong)

lemma claimable_append:
  "claimable now locked (xs @ ys) m \<longleftrightarrow> claimable now locked xs m \<or> claimable now locked ys m"
  by (auto simp: claimable_def)

lemma claim_statement_append:
  assumes "0 < l"
  shows "fst (claim_statement now locked l ys (fst (claim_statement now locked l xs d))) =
      fst (claim_statement now locked l (xs @ ys) d)"
    and "mset (snd (claim_statement now locked l xs d)) +
      mset (snd (claim_statement now locked l ys (fst (claim_statement now locked l xs d)))) =
      mset (snd (claim_statement now locked l (xs @ ys) d))"
proof -
  have not: "\<not> claimable now locked ys (lease_until now l m)" for m
    using leased_not_claimable [of now now l] assms by simp
  have rows: "mset (map mo_id (filter (claimable now locked xs) ms)) +
      mset (map mo_id (filter (claimable now locked ys) (map (\<lambda>m. if claimable now locked xs m then lease_until now l m else m) ms))) =
      mset (map mo_id (filter (claimable now locked (xs @ ys)) ms))" for ms
    by (induction ms) (simp_all add: claimable_append not)
  show "fst (claim_statement now locked l ys (fst (claim_statement now locked l xs d))) =
      fst (claim_statement now locked l (xs @ ys) d)"
    by (simp add: claim_statement_def claimable_append not)
  show "mset (snd (claim_statement now locked l xs d)) +
      mset (snd (claim_statement now locked l ys (fst (claim_statement now locked l xs d)))) =
      mset (snd (claim_statement now locked l (xs @ ys) d))"
    unfolding claim_statement_sel using rows by simp
qed

lemma claim_statement_none [simp]: "claim_statement now locked l [] d = (d, [])"
  by (simp add: claim_statement_def claimable_def)

lemma claim_chunks_whole:
  assumes "0 < l"
  shows "fst (claim_chunks (\<lambda>_. now) (\<lambda>_. locked) l k ids d) = fst (claim_statement now locked l ids d) \<and>
    mset (snd (claim_chunks (\<lambda>_. now) (\<lambda>_. locked) l k ids d)) = mset (snd (claim_statement now locked l ids d))"
  using assms
proof (induction "\<lambda>_::nat. now" "\<lambda>_::nat. locked" l k ids d rule: claim_chunks.induct)
  case (2 l k i "is" d)
  let ?a = "take CLAIM_CHUNK (i # is)" and ?b = "drop CLAIM_CHUNK (i # is)"
  let ?d1 = "fst (claim_statement now locked l ?a d)"
  have whole: "claim_statement now locked l (i # is) d = claim_statement now locked l (?a @ ?b) d" by simp
  have IH: "fst (claim_chunks (\<lambda>_. now) (\<lambda>_. locked) l (Suc k) ?b ?d1) = fst (claim_statement now locked l ?b ?d1) \<and>
      mset (snd (claim_chunks (\<lambda>_. now) (\<lambda>_. locked) l (Suc k) ?b ?d1)) = mset (snd (claim_statement now locked l ?b ?d1))"
    by (rule 2(1) [OF refl prod.collapse 2(2)])
  show ?case
    unfolding whole claim_chunks.simps
    using IH claim_statement_append [OF 2(2), where now = now and locked = locked and xs = ?a and ys = ?b and d = d]
    by (simp add: split_beta Let_def del: append_take_drop_id claim_statement_sel)
qed simp

text \<open>
  splitting a claim into chunks changes nothing. With nothing else running in
  between, claiming any number of monitors leaves the same rows and takes the same
  monitors as one statement over the whole list would.
\<close>

theorem claim_chunking_invisible:
  assumes "0 < leaseSeconds"
  shows "fst (claimMonitorsForDispatch (\<lambda>_. now) (\<lambda>_. locked) leaseSeconds ids d) =
      fst (claim_statement now locked leaseSeconds ids d) \<and>
    mset (snd (claimMonitorsForDispatch (\<lambda>_. now) (\<lambda>_. locked) leaseSeconds ids d)) =
      mset (snd (claim_statement now locked leaseSeconds ids d))"
  using claim_chunks_whole [OF assms, of now locked 0 ids d]
  by (simp add: claimMonitorsForDispatch_def del: claim_statement_sel)

theorem claim_chunking_invisible_witness:
  "fst (claimMonitorsForDispatch (\<lambda>_. 120000) (\<lambda>_ _. False) 90 [''a1'', ''b1''] two_tenants) =
   fst (claim_statement 120000 (\<lambda>_. False) 90 [''a1'', ''b1''] two_tenants)"
  using claim_chunking_invisible [of 90 120000 "\<lambda>_. False" "[''a1'', ''b1'']" two_tenants] by simp

text \<open>
  What taking a claim on the monitors \<open>c\<close> out of the candidates \<open>ids\<close> means: exactly
  their rows are leased, they were free, and nobody is named twice.
\<close>

definition took :: "date \<Rightarrow> int \<Rightarrow> string list \<Rightarrow> db \<Rightarrow> db \<times> string list \<Rightarrow> bool" where
  "took now l ids d = (\<lambda>(d', c).
     db_monitors d' = map (\<lambda>m. if mo_id m \<in> set c then lease_until now l m else m) (db_monitors d) \<and>
     (\<forall>m \<in> set (db_monitors d). mo_id m \<in> set c \<longrightarrow> unclaimed now m) \<and>
     set c \<subseteq> set ids \<inter> mo_id ` set (db_monitors d) \<and> distinct c)"

lemma took_ids: "took now l ids d (d', c) \<Longrightarrow> map mo_id (db_monitors d') = map mo_id (db_monitors d)"
  by (simp add: took_def comp_def if_distrib cong: if_cong)

lemma claim_statement_took:
  assumes "distinct (map mo_id (db_monitors d))"
  shows "took now l ids d (claim_statement now locked l ids d)"
proof -
  have "mo_id m \<in> mo_id ` set (filter (claimable now locked ids) (db_monitors d)) \<longleftrightarrow> claimable now locked ids m"
    if "m \<in> set (db_monitors d)" for m
    using that monitor_by_id [OF assms] by force
  then show ?thesis
    using assms
    by (auto simp: took_def claim_statement_def distinct_map_filter dest: claimableD intro!: map_cong)
qed

lemma took_append:
  assumes "took now l xs d (d1, c1)" and "took now l ys d1 (d2, c2)" and "0 < l"
  shows "took now l (xs @ ys) d (d2, c1 @ c2)"
proof -
  have rows: "db_monitors d1 = map (\<lambda>m. if mo_id m \<in> set c1 then lease_until now l m else m) (db_monitors d)"
    using assms(1) by (simp add: took_def)
  have ids: "mo_id ` set (db_monitors d1) = mo_id ` set (db_monitors d)"
    using took_ids [OF assms(1)] by (metis list.set_map)
  have disj: "i \<notin> set c1" if "i \<in> set c2" for i
  proof
    assume "i \<in> set c1"
    then obtain m where m: "m \<in> set (db_monitors d)" "mo_id m = i" using assms(1) by (auto simp: took_def)
    then have "lease_until now l m \<in> set (db_monitors d1)" using rows \<open>i \<in> set c1\<close> by force
    then have "unclaimed now (lease_until now l m)" using assms(2) m that by (auto simp: took_def)
    then show False using leased_not_claimable(1) [of now now l m] assms(3) by simp
  qed
  have free: "unclaimed now m" if "m \<in> set (db_monitors d)" "mo_id m \<in> set c2" for m
  proof -
    have "m \<in> set (db_monitors d1)" using that rows disj by force
    then show ?thesis using assms(2) that by (simp add: took_def)
  qed
  have "db_monitors d2 = map (\<lambda>m. if mo_id m \<in> set c2 then lease_until now l m else m) (db_monitors d1)"
    using assms(2) by (simp add: took_def)
  also have "\<dots> = map (\<lambda>m. if mo_id m \<in> set (c1 @ c2) then lease_until now l m else m) (db_monitors d)"
    unfolding rows using disj by auto
  finally show ?thesis
    using assms(1,2) free disj ids by (auto simp: took_def)
qed

lemma claim_chunks_took:
  assumes "distinct (map mo_id (db_monitors d))" and "0 < l"
  shows "took now l ids d (claim_chunks (\<lambda>_. now) locked l k ids d)"
  using assms
proof (induction "\<lambda>_::nat. now" locked l k ids d rule: claim_chunks.induct)
  case (1 locked l k d)
  then show ?case by (simp add: took_def)
next
  case (2 locked l k i "is" d)
  let ?a = "take CLAIM_CHUNK (i # is)" and ?b = "drop CLAIM_CHUNK (i # is)"
  obtain d1 c1 where 1: "claim_statement now (locked k) l ?a d = (d1, c1)" by fastforce
  obtain d2 c2 where d2: "claim_chunks (\<lambda>_. now) locked l (Suc k) ?b d1 = (d2, c2)" by fastforce
  have t1: "took now l ?a d (d1, c1)" using claim_statement_took [OF 2(2)] 1 by metis
  then have "took now l ?b d1 (d2, c2)" using 2 1 d2 took_ids [OF t1] by metis
  with t1 have "took now l (?a @ ?b) d (d2, c1 @ c2)" using 2(3) by (rule took_append)
  then show ?case using 1 d2 by (simp add: Let_def)
qed

lemma claimMonitorsForDispatch_took:
  assumes "distinct (map mo_id (db_monitors d))" and "0 < l"
  shows "took now l ids d (claimMonitorsForDispatch (\<lambda>_. now) locked l ids d)"
  using assms claim_chunks_took [OF assms] claim_statement_took [OF assms(1)]
  by (simp add: claimMonitorsForDispatch_def) (simp add: took_def)

section \<open>The tick\<close>

lemma find_monitor_iff:
  assumes "distinct (map mo_id (db_monitors d))"
  shows "find_monitor d i = Some m \<longleftrightarrow> m \<in> set (db_monitors d) \<and> mo_id m = i"
proof
  show "find_monitor d i = Some m \<Longrightarrow> m \<in> set (db_monitors d) \<and> mo_id m = i" by (rule find_monitor_mem)
  show "m \<in> set (db_monitors d) \<and> mo_id m = i \<Longrightarrow> find_monitor d i = Some m"
    using find_distinct [OF assms] by (auto simp: find_monitor_def)
qed

lemma length_map_filter: "length (List.map_filter f xs) \<le> length xs"
  by (simp add: List.map_filter_def)

lemma findDueMonitors_due:
  assumes "distinct (map mo_id (db_monitors d))"
  shows "length (findDueMonitors batch org now d d) \<le> batch"
    and "m \<in> set (findDueMonitors batch org now d d) \<Longrightarrow> m \<in> set (dueMonitors org now d)"
proof -
  show "length (findDueMonitors batch org now d d) \<le> batch"
    unfolding findDueMonitors_def by (rule order.trans [OF length_map_filter]) (simp add: due_ids_def)
  assume "m \<in> set (findDueMonitors batch org now d d)"
  then obtain i where i: "i \<in> set (due_ids batch org now d)" "find_monitor d i = Some m"
    by (auto simp: findDueMonitors_def List.map_filter_def)
  then obtain n q where q: "(n, q) \<in> set (dueRanking org now d)" "mo_id q = i"
    by (force simp: due_ids_def dest: in_set_takeD)
  then have "q \<in> set (dueMonitors org now d)" by (simp add: dueRanking_iff [OF assms])
  moreover have "q = m"
    using i q calculation find_monitor_mem [OF i(2)] monitor_by_id [OF assms] by (simp add: dueMonitors_def)
  ultimately show "m \<in> set (dueMonitors org now d)" by simp
qed

lemma deferHighFrequencyOwned_ids [simp]:
  "map mo_id (db_monitors (deferHighFrequencyOwned now ids secs d)) = map mo_id (db_monitors d)"
  by (simp add: deferHighFrequencyOwned_def comp_def if_distrib cong: if_cong)

text \<open>
  C33: a tick enqueues only what it claimed, and claims only what was due. It offers the
  queue at most its batch, each monitor once; every one of them was due and not held
  by the high-frequency plane, and every one of them is under a fresh lease when the
  tick is over.
\<close>

theorem tick_enqueues_only_claimed:
  assumes "distinct (map mo_id (db_monitors d))"
    and "runMonitorTick batch now locked held insert_jobs org d = (d', jobs, report)"
  shows "length jobs \<le> batch \<and> distinct jobs \<and> tk_claimed report = length jobs \<and>
    (\<forall>i \<in> set jobs. \<exists>m \<in> set (db_monitors d). mo_id m = i \<and>
       dueCondition UNSCHEDULED_CHECK_TYPE_IDS org now m \<and> \<not> held m) \<and>
    (\<forall>m \<in> set (db_monitors d'). mo_id m \<in> set jobs \<longrightarrow>
       mo_dispatchClaimedUntil m = Some (now + ENQUEUE_LEASE_SECONDS * 1000))"
proof -
  define due where "due = findDueMonitors batch org now d d"
  define cand where "cand = filter (\<lambda>m. \<not> held m) due"
  define d1 where "d1 = deferHighFrequencyOwned now (map mo_id (filter held due)) HIGH_FREQUENCY_DEFERRAL_SECONDS d"
  have claim: "claimMonitorsForDispatch (\<lambda>_. now) locked ENQUEUE_LEASE_SECONDS (map mo_id cand) d1 = (d', jobs)"
    and rep: "tk_claimed report = length jobs"
    using assms(2) unfolding runMonitorTick_def Let_def split_beta due_def cand_def d1_def by auto
  have "distinct (map mo_id (db_monitors d1))" using assms(1) by (simp add: d1_def)
  then have t: "took now ENQUEUE_LEASE_SECONDS (map mo_id cand) d1 (d', jobs)"
    using claimMonitorsForDispatch_took [of d1 ENQUEUE_LEASE_SECONDS now "map mo_id cand" locked] claim
    by (simp add: ENQUEUE_LEASE_SECONDS_def)
  then have jobs: "distinct jobs" "set jobs \<subseteq> mo_id ` set cand" by (auto simp: took_def)
  have "length jobs \<le> length cand"
    using distinct_card [OF jobs(1)] card_mono [OF _ jobs(2)] card_image_le [of "set cand" mo_id] card_length [of cand]
    by simp
  also have "\<dots> \<le> batch"
    using findDueMonitors_due(1) [OF assms(1)] length_filter_le [of _ due] unfolding cand_def due_def
    by (meson order.trans)
  finally have "length jobs \<le> batch" .
  moreover have "\<exists>m \<in> set (db_monitors d). mo_id m = i \<and> dueCondition UNSCHEDULED_CHECK_TYPE_IDS org now m \<and> \<not> held m"
    if i: "i \<in> set jobs" for i
  proof -
    obtain m where m: "m \<in> set cand" "mo_id m = i" using jobs(2) i by auto
    then have "m \<in> set (dueMonitors org now d)"
      using findDueMonitors_due(2) [OF assms(1), of m batch org now] by (simp add: cand_def due_def)
    with m show ?thesis by (auto simp: dueMonitors_def cand_def)
  qed
  moreover have "mo_dispatchClaimedUntil m = Some (now + ENQUEUE_LEASE_SECONDS * 1000)"
    if m: "m \<in> set (db_monitors d')" "mo_id m \<in> set jobs" for m
  proof -
    obtain q where "q \<in> set (db_monitors d1)"
        "m = (if mo_id q \<in> set jobs then lease_until now ENQUEUE_LEASE_SECONDS q else q)"
      using t m by (auto simp: took_def)
    with m(2) show ?thesis by (auto split: if_splits)
  qed
  ultimately show ?thesis using jobs(1) rep by blast
qed

theorem tick_enqueues_only_claimed_witness:
  "\<exists>d' jobs report. runMonitorTick 2 120000 (\<lambda>_ _. False) (\<lambda>_. False) Accepted None two_tenants = (d', jobs, report) \<and>
     length jobs \<le> 2 \<and> distinct jobs"
proof -
  obtain d' jobs report where
    r: "runMonitorTick 2 120000 (\<lambda>_ _. False) (\<lambda>_. False) Accepted None two_tenants = (d', jobs, report)"
    by (metis surj_pair)
  show ?thesis
    using tick_enqueues_only_claimed [OF _ r] r by auto
qed

text \<open>
  The comment on \<open>schedulerBacklog\<close> says that a monitor that was never evaluated shows
  up in the count. It does not: its due time is \<open>null\<close>, the comparison with \<open>now ()\<close> is
  not true, and a fleet of such monitors reports no backlog while all of it is due.
\<close>

lemma backlog_misses_never_evaluated:
  assumes "\<forall>m \<in> set (db_monitors d). mo_nextEvaluationAt m = None"
  shows "schedulerBacklog now org d = (0, 0)"
  using assms by (simp add: schedulerBacklog_def latePredicate_def Let_def)

lemma never_evaluated_is_due:
  assumes "mo_nextEvaluationAt m = None" and "\<not> mo_paused m" and "mo_dispatchClaimedUntil m = None"
    and "mo_checkType m = ''http''"
  shows "dueCondition UNSCHEDULED_CHECK_TYPE_IDS None now m"
  using assms by (simp add: dueCondition_def unclaimed_def catalog_lists)

end
