(* ===== verification/Intents.thy ===== *)
theory Intents
  imports Store
begin

text \<open>
  What a transition owes, and recording it: \<open>src/modules/notifications/intents.ts\<close>,
  \<open>incident-payload.ts\<close> and the plain-text half of \<open>email-templates.ts\<close>. The
  installation's \<open>APP_URL\<close> is the argument \<open>app\<close>. An intent is written in the
  transaction that makes the transition; its cause key is unique, so recording one
  twice is recording it once. The lemmas show that keys of different transitions are
  different, that a payload never carries the password of a target, and how a key
  conflict is absorbed.
\<close>

section \<open>Dates in JSON\<close>

text \<open>\<open>Date.prototype.toISOString\<close> in the proleptic Gregorian calendar.\<close>

definition pad :: "nat \<Rightarrow> int \<Rightarrow> string" where
  "pad w n = (let s = show_int n in replicate (w - length s) (CHR ''0'') @ s)"

definition civil_from_days :: "int \<Rightarrow> int \<times> int \<times> int" where
  "civil_from_days days =
     (let z = days + 719468;
          era = z div 146097;
          doe = z mod 146097;
          yoe = (doe - doe div 1460 + doe div 36524 - doe div 146096) div 365;
          doy = doe - (365 * yoe + yoe div 4 - yoe div 100);
          mp = (5 * doy + 2) div 153;
          d = doy - (153 * mp + 2) div 5 + 1;
          m = (if mp < 10 then mp + 3 else mp - 9)
      in (yoe + era * 400 + (if m \<le> 2 then 1 else 0), m, d))"

definition show_year :: "int \<Rightarrow> string" where
  "show_year y =
     (if 0 \<le> y \<and> y \<le> 9999 then pad 4 y
      else if y < 0 then ''-'' @ pad 6 (- y) else ''+'' @ pad 6 y)"

definition toISOString :: "date \<Rightarrow> string" where
  "toISOString t =
     (let days = t div 86400000; ms = t mod 86400000; (y, m, d) = civil_from_days days
      in show_year y @ ''-'' @ pad 2 m @ ''-'' @ pad 2 d @ ''T'' @
         pad 2 (ms div 3600000) @ '':'' @ pad 2 (ms div 60000 mod 60) @ '':'' @
         pad 2 (ms div 1000 mod 60) @ ''.'' @ pad 3 (ms mod 1000) @ ''Z'')"

section \<open>Payloads\<close>

definition monitor_status_text :: "monitor_status \<Rightarrow> string" where
  "monitor_status_text s =
     (case s of SUp \<Rightarrow> ''up'' | SDown \<Rightarrow> ''down'' | SDegraded \<Rightarrow> ''degraded'' | SUnknown \<Rightarrow> ''unknown'')"

text \<open>The subset of a monitor a payload may describe.\<close>

record webhook_monitor =
  wm_id :: string
  wm_name :: string
  wm_url :: string
  wm_currentStatus :: "string option"
  wm_checkType :: "string option"

definition webhookMonitor :: "monitor \<Rightarrow> webhook_monitor" where
  "webhookMonitor m =
     \<lparr>wm_id = mo_id m, wm_name = mo_name m, wm_url = mo_url m,
      wm_currentStatus = Some (monitor_status_text (mo_currentStatus m)),
      wm_checkType = Some (mo_checkType m)\<rparr>"

definition incident_url :: "string \<Rightarrow> incident \<Rightarrow> string" where
  "incident_url app i = app @ ''/incidents/'' @ show_nat (in_id i)"

definition opt_json :: "string option \<Rightarrow> json" where
  "opt_json x = (case x of None \<Rightarrow> JNull | Some s \<Rightarrow> JStr s)"

definition incidentData :: "string \<Rightarrow> incident \<Rightarrow> webhook_monitor option \<Rightarrow> json" where
  "incidentData app i monitor =
     JObj ((''incident'', Some (JObj
             [(''id'', Some (JStr (show_nat (in_id i)))),
              (''title'', Some (JStr (in_title i))),
              (''status'', Some (JStr (status_text (in_status i)))),
              (''severity'', Some (JStr (severity_text (in_severity i)))),
              (''source'', Some (JStr (source_text (in_source i)))),
              (''startedAt'', Some (JStr (toISOString (in_startedAt i)))),
              (''resolvedAt'', Some (opt_json (map_option toISOString (in_resolvedAt i)))),
              (''url'', Some (JStr (incident_url app i)))])) #
           (case monitor of
              None \<Rightarrow> []
            | Some m \<Rightarrow>
                [(''monitor'', Some (JObj
                   [(''id'', Some (JStr (wm_id m))),
                    (''name'', Some (JStr (wm_name m))),
                    (''url'', Some (JStr (redactTargetCredentials (wm_url m)))),
                    (''status'', Some (opt_json (wm_currentStatus m)))]))]))"

text \<open>\<open>${Math.round((minutes / 60) * 10) / 10}\<close>: tenths, printed without a trailing zero.\<close>

definition show_tenths :: "int \<Rightarrow> string" where
  "show_tenths k =
     (if k mod 10 = 0 then show_int (k div 10) else show_int (k div 10) @ ''.'' @ show_int (k mod 10))"

definition describeDowntime :: "incident \<Rightarrow> string option" where
  "describeDowntime i =
     (case in_resolvedAt i of
        None \<Rightarrow> None
      | Some resolved \<Rightarrow>
          (let seconds = js_round_div (resolved - in_startedAt i) 1000
           in if seconds < 1 then None
              else if seconds < 120 then Some (''Down for '' @ show_int seconds @ ''s.'')
              else (let minutes = js_round_div seconds 60
                    in if minutes < 120 then Some (''Down for '' @ show_int minutes @ ''m.'')
                       else Some (''Down for '' @ show_tenths (js_round_div (minutes * 10) 60) @ ''h.''))))"

definition cause_key :: "nat \<Rightarrow> webhook_event \<Rightarrow> nat option \<Rightarrow> string" where
  "cause_key i ev transitionKey =
     ''incident:'' @ show_nat i @ '':'' @ event_text ev @
     (case transitionKey of None \<Rightarrow> [] | Some k \<Rightarrow> '':'' @ show_nat k)"

definition incidentDispatch ::
  "string \<Rightarrow> webhook_event \<Rightarrow> incident \<Rightarrow> webhook_monitor option \<Rightarrow> nat option \<Rightarrow> intent_dispatch" where
  "incidentDispatch app ev i monitor transitionKey =
     \<lparr>dp_event = ev, dp_causeKey = cause_key (in_id i) ev transitionKey,
      dp_subject = (case monitor of Some m \<Rightarrow> wm_name m | None \<Rightarrow> in_title i),
      dp_detail = [(case monitor of Some _ \<Rightarrow> Some (in_title i) | None \<Rightarrow> None),
                   Some (''Severity: '' @ severity_text (in_severity i) @ ''.''),
                   describeDowntime i],
      dp_url = incident_url app i, dp_data = incidentData app i monitor,
      dp_monitorType = Option.bind monitor wm_checkType,
      dp_monitorId = map_option wm_id monitor\<rparr>"

definition SUBSCRIBER_KIND :: "webhook_event \<Rightarrow> subscriber_kind option" where
  "SUBSCRIBER_KIND ev =
     (case ev of Incident_opened \<Rightarrow> Some Sub_opened | Incident_updated \<Rightarrow> Some Sub_updated
      | Incident_resolved \<Rightarrow> Some Sub_resolved | _ \<Rightarrow> None)"

definition subscriberTarget :: "incident \<Rightarrow> subscriber_kind \<Rightarrow> nat option \<Rightarrow> intent_subscribers" where
  "subscriberTarget i kind transitionKey =
     \<lparr>su_kind = kind,
      su_causeKey = ''incident:'' @ show_nat (in_id i) @ '':subscribers:'' @ subscriber_text kind @
        (case transitionKey of None \<Rightarrow> [] | Some k \<Rightarrow> '':'' @ show_nat k),
      su_incidentId = in_id i, su_incidentTitle = in_title i, su_monitorId = in_monitorId i,
      su_source = in_source i, su_latestUpdate = None\<rparr>"

section \<open>Mail\<close>

definition plural :: "int \<Rightarrow> string \<Rightarrow> string" where
  "plural n unit = show_int n @ '' '' @ unit @ (if n = 1 then [] else ''s'')"

definition describeFailureWindow :: "int \<Rightarrow> string" where
  "describeFailureWindow seconds =
     (if seconds \<le> 0 then ''from its first failed check''
      else if seconds < 60 then ''for '' @ plural seconds ''second''
      else if seconds < 3600 then ''for '' @ plural (js_round_div seconds 60) ''minute''
      else ''for '' @ plural (js_round_div seconds 3600) ''hour'')"

definition blank_line :: string where
  "blank_line = [CHR 0x0A, CHR 0x0A]"

definition renderIncidentOpenedEmail :: "string \<Rightarrow> string \<Rightarrow> int \<Rightarrow> string \<Rightarrow> string \<times> string" where
  "renderIncidentOpenedEmail monitorName monitorUrl failureWindowSeconds incidentUrl =
     (''[Vigil] '' @ monitorName @ '' is down'',
      monitorName @ '' ('' @ monitorUrl @ '') has been failing '' @
        describeFailureWindow failureWindowSeconds @ '' and was marked down.'' @ blank_line @
        ''An incident was opened automatically: '' @ incidentUrl)"

definition renderIncidentResolvedEmail :: "string \<Rightarrow> string \<Rightarrow> string \<Rightarrow> string \<times> string" where
  "renderIncidentResolvedEmail monitorName monitorUrl incidentUrl =
     (''[Vigil] '' @ monitorName @ '' recovered'',
      monitorName @ '' ('' @ monitorUrl @ '') is responding again.'' @ blank_line @
        ''The incident was resolved automatically: '' @ incidentUrl)"

definition email_key :: "incident \<Rightarrow> subscriber_kind \<Rightarrow> string" where
  "email_key i kind = ''incident:'' @ show_nat (in_id i) @ '':'' @ subscriber_text kind"

section \<open>One builder per transition\<close>

definition openedIntent :: "string \<Rightarrow> incident \<Rightarrow> monitor \<Rightarrow> string \<Rightarrow> bool \<Rightarrow> intent_payload" where
  "openedIntent app i m monitorTarget pagedElsewhere =
     \<lparr>pl_dispatches = [incidentDispatch app Monitor_down i (Some (webhookMonitor m)) None,
                       incidentDispatch app Incident_opened i (Some (webhookMonitor m)) None],
      pl_memberEmail =
        (if pagedElsewhere then None
         else (let (subject, body) = renderIncidentOpenedEmail (mo_name m) monitorTarget
                     (mo_failureWindowSeconds m) (incident_url app i)
               in Some \<lparr>em_event = Incident_opened, em_causeKey = email_key i Sub_opened,
                        em_subject = subject, em_text = body\<rparr>)),
      pl_subscribers = Some (subscriberTarget i Sub_opened None)\<rparr>"

definition resolvedIntent :: "string \<Rightarrow> incident \<Rightarrow> monitor \<Rightarrow> string \<Rightarrow> intent_payload" where
  "resolvedIntent app i m monitorTarget =
     \<lparr>pl_dispatches = [incidentDispatch app Monitor_up i (Some (webhookMonitor m)) None,
                       incidentDispatch app Incident_resolved i (Some (webhookMonitor m)) None],
      pl_memberEmail =
        (let (subject, body) = renderIncidentResolvedEmail (mo_name m) monitorTarget (incident_url app i)
         in Some \<lparr>em_event = Incident_resolved, em_causeKey = email_key i Sub_resolved,
                  em_subject = subject, em_text = body\<rparr>),
      pl_subscribers = Some (subscriberTarget i Sub_resolved None)\<rparr>"

definition operatorIntent ::
  "string \<Rightarrow> incident \<Rightarrow> monitor option \<Rightarrow> webhook_event \<Rightarrow> nat option \<Rightarrow> intent_payload" where
  "operatorIntent app i monitor ev transitionKey =
     \<lparr>pl_dispatches = [incidentDispatch app ev i (map_option webhookMonitor monitor) transitionKey],
      pl_memberEmail = None,
      pl_subscribers = map_option (\<lambda>kind. subscriberTarget i kind transitionKey) (SUBSCRIBER_KIND ev)\<rparr>"

section \<open>Recording\<close>

definition owes_nothing :: "intent_payload \<Rightarrow> bool" where
  "owes_nothing p \<longleftrightarrow> pl_dispatches p = [] \<and> pl_memberEmail p = None \<and> pl_subscribers p = None"

definition recordDispatchIntent ::
  "string \<Rightarrow> string \<Rightarrow> nat option \<Rightarrow> intent_payload \<Rightarrow> db \<Rightarrow> db" where
  "recordDispatchIntent organizationId causeKey incidentId payload d =
     (if owes_nothing payload \<or> causeKey \<in> it_causeKey ` set (db_intents d) then d
      else d\<lparr>db_intents := db_intents d @
               [\<lparr>it_id = db_nextId d, it_organizationId = organizationId, it_causeKey = causeKey,
                 it_incidentId = incidentId, it_payload = payload, it_state = Pending,
                 it_attempts = 0, it_lastError = None, it_expandedAt = None\<rparr>],
             db_nextId := Suc (db_nextId d)\<rparr>)"

definition pendingIntents :: "nat \<Rightarrow> string option \<Rightarrow> db \<Rightarrow> intent_row list" where
  "pendingIntents limit organizationId d =
     take limit (filter (\<lambda>r. it_state r = Pending \<and> in_scope organizationId (it_organizationId r)) (db_intents d))"

section \<open>Laws\<close>

lemma record_frame [simp]:
  "db_monitors (recordDispatchIntent org k i p d) = db_monitors d"
  "db_checks (recordDispatchIntent org k i p d) = db_checks d"
  "db_heartbeats (recordDispatchIntent org k i p d) = db_heartbeats d"
  "db_incidents (recordDispatchIntent org k i p d) = db_incidents d"
  "db_events (recordDispatchIntent org k i p d) = db_events d"
  "db_audit (recordDispatchIntent org k i p d) = db_audit d"
  "db_ledger (recordDispatchIntent org k i p d) = db_ledger d"
  by (simp_all add: recordDispatchIntent_def)

lemma builders_owe [simp]:
  "\<not> owes_nothing (openedIntent app i m t p)"
  "\<not> owes_nothing (resolvedIntent app i m t)"
  "\<not> owes_nothing (operatorIntent app i mo ev k)"
  "\<not> owes_nothing (operatorIntent app i mo ev k\<lparr>pl_memberEmail := e\<rparr>)"
  by (simp_all add: owes_nothing_def openedIntent_def resolvedIntent_def operatorIntent_def)

definition has_intent :: "db \<Rightarrow> string \<Rightarrow> bool" where
  "has_intent d k \<longleftrightarrow> k \<in> it_causeKey ` set (db_intents d)"

lemma has_intent_record [simp]:
  "\<not> owes_nothing p \<Longrightarrow> has_intent (recordDispatchIntent org k i p d) k' \<longleftrightarrow> has_intent d k' \<or> k' = k"
  by (auto simp: has_intent_def recordDispatchIntent_def)

lemma record_keys_distinct:
  "distinct (map it_causeKey (db_intents d)) \<Longrightarrow>
   distinct (map it_causeKey (db_intents (recordDispatchIntent org k i p d)))"
  by (auto simp: recordDispatchIntent_def)

lemma record_nextId: "db_nextId d \<le> db_nextId (recordDispatchIntent org k i p d)"
  by (simp add: recordDispatchIntent_def)

lemma event_text_inj: "event_text a = event_text b \<longleftrightarrow> a = b"
  by (cases a; cases b) simp_all

lemma show_nat_no_colon: "CHR '':'' \<notin> set (show_nat n)"
proof -
  have "\<not> is_digit (CHR '':'')" by (simp add: is_digit_def)
  then show ?thesis using show_nat_digits [of n] by (auto simp: list_all_iff)
qed

lemma event_text_no_colon: "CHR '':'' \<notin> set (event_text e)"
  by (cases e) simp_all

lemma split_at_colon:
  assumes "a @ CHR '':'' # r = b @ CHR '':'' # s" and "CHR '':'' \<notin> set a" and "CHR '':'' \<notin> set b"
  shows "a = b \<and> r = s"
  using assms
proof (induction a arbitrary: b)
  case Nil
  then show ?case by (cases b) auto
next
  case (Cons c a)
  then show ?case by (cases b) auto
qed

lemma cause_key_inj: "cause_key i e k = cause_key j f l \<longleftrightarrow> i = j \<and> e = f \<and> k = l"
proof
  assume eq: "cause_key i e k = cause_key j f l"
  define tail where "tail = (\<lambda>k. case k of None \<Rightarrow> [] | Some k \<Rightarrow> '':'' @ show_nat k)"
  have "show_nat i @ CHR '':'' # (event_text e @ tail k) = show_nat j @ CHR '':'' # (event_text f @ tail l)"
    using eq by (simp add: cause_key_def tail_def)
  then have ij: "show_nat i = show_nat j" and r: "event_text e @ tail k = event_text f @ tail l"
    using split_at_colon show_nat_no_colon by blast+
  have "event_text e = event_text f \<and> tail k = tail l"
  proof (cases k; cases l)
    fix a b assume "k = Some a" "l = Some b"
    then show ?thesis using r split_at_colon [OF _ event_text_no_colon event_text_no_colon] by (simp add: tail_def)
  next
    fix b assume "k = None" "l = Some b"
    then have "event_text e = event_text f @ '':'' @ show_nat b" using r by (simp add: tail_def)
    then show ?thesis using event_text_no_colon [of e] by simp
  next
    fix a assume "k = Some a" "l = None"
    then have "event_text f = event_text e @ '':'' @ show_nat a" using r by (simp add: tail_def)
    then show ?thesis using event_text_no_colon [of f] by simp
  qed (use r in \<open>simp add: tail_def\<close>)
  then show "i = j \<and> e = f \<and> k = l"
    using ij by (auto simp: tail_def event_text_inj dest: show_nat_inj split: option.splits)
qed simp

text \<open>
  a notification payload never carries the password of a monitor's target.
  Payloads built for two monitors that differ only in that password are identical,
  for every transition, channel events and status-page audience included.
\<close>

theorem payload_hides_target_password:
  assumes "authority_ok sch (user @ '':'' @ p) rest" and "authority_ok sch (user @ '':'' @ q) rest"
    and "CHR '':'' \<notin> set user"
  shows "openedIntent app i (m\<lparr>mo_url := written sch (user @ '':'' @ p) rest\<rparr>) t paged =
      openedIntent app i (m\<lparr>mo_url := written sch (user @ '':'' @ q) rest\<rparr>) t paged \<and>
    resolvedIntent app i (m\<lparr>mo_url := written sch (user @ '':'' @ p) rest\<rparr>) t =
      resolvedIntent app i (m\<lparr>mo_url := written sch (user @ '':'' @ q) rest\<rparr>) t \<and>
    operatorIntent app i (Some (m\<lparr>mo_url := written sch (user @ '':'' @ p) rest\<rparr>)) ev k =
      operatorIntent app i (Some (m\<lparr>mo_url := written sch (user @ '':'' @ q) rest\<rparr>)) ev k"
proof -
  have "redactTargetCredentials (written sch (user @ '':'' @ x) rest) = sch @ ''://'' @ rest"
    if "authority_ok sch (user @ '':'' @ x) rest" for x
    using splitTarget_written [OF that] by (simp add: redactTargetCredentials_def)
  then show ?thesis using assms
    by (simp add: openedIntent_def resolvedIntent_def operatorIntent_def incidentDispatch_def
        incidentData_def webhookMonitor_def)
qed

theorem payload_hides_target_password_witness:
  "\<forall>app i t. resolvedIntent app i (sample_monitor\<lparr>mo_url := ''redis://u:one@h/0''\<rparr>) t =
     resolvedIntent app i (sample_monitor\<lparr>mo_url := ''redis://u:2@h/0''\<rparr>) t"
  using payload_hides_target_password [of "''redis''" "''u''" "''one''" "''h/0''" "''2''" _ _ sample_monitor]
  by (simp add: authority_ok_def ends_authority_def written_def)

end
