(* ===== verification/Incidents.thy ===== *)
theory Incidents
  imports Intents
begin

text \<open>
  Incidents: \<open>src/modules/incidents/service.ts\<close>, \<open>hooks.ts\<close>, and the paging claim
  \<open>claimOpenedNotifications\<close> of \<open>src/modules/monitors/outcome.ts\<close>.

  Each function is one database transaction under \<open>READ COMMITTED\<close>. Where the source
  reads a row, decides, and then writes with a compare-and-swap, the write is a
  definition of its own that takes the row as it was read: the whole function is the
  read, the guards and that commit on one state, and the step relation lets any other
  transaction run in between by giving the commit a snapshot that may be stale. A
  thrown error is a left value and rolls the transaction back.

  The invariant and the evolution theorem hold for every interleaving of operators,
  workers and monitor updates.
\<close>

section \<open>Reading\<close>

datatype service_error = Conflict string | NotFound string | Unexpected string

type_synonym 'a outcome_of = "service_error + 'a"

record actor =
  aa_organizationId :: string
  aa_userId :: string

definition findIncidentOrThrow :: "db \<Rightarrow> string \<Rightarrow> nat \<Rightarrow> incident outcome_of" where
  "findIncidentOrThrow d organizationId i =
     (case List.find (\<lambda>r. in_id r = i \<and> in_organizationId r = organizationId) (db_incidents d) of
        None \<Rightarrow> Inl (NotFound ''Incident not found.'') | Some r \<Rightarrow> Inr r)"

definition monitorForIncident :: "db \<Rightarrow> incident \<Rightarrow> monitor option" where
  "monitorForIncident d r = Option.bind (in_monitorId r) (find_monitor d)"

text \<open>\<open>UPDATE ... WHERE id = i AND guard RETURNING\<close>.\<close>

definition swap :: "nat \<Rightarrow> (incident \<Rightarrow> bool) \<Rightarrow> (incident \<Rightarrow> incident) \<Rightarrow> db \<Rightarrow> (incident \<times> db) option" where
  "swap i guard f d =
     (case List.find (\<lambda>r. in_id r = i \<and> guard r) (db_incidents d) of
        None \<Rightarrow> None
      | Some r \<Rightarrow>
          Some (f r, d\<lparr>db_incidents := map (\<lambda>q. if in_id q = i \<and> guard q then f q else q) (db_incidents d)\<rparr>))"

section \<open>Operators\<close>

definition new_incident :: "nat \<Rightarrow> string \<Rightarrow> string \<Rightarrow> incident_severity \<Rightarrow> date \<Rightarrow> incident" where
  "new_incident i org title severity now =
     \<lparr>in_id = i, in_organizationId = org, in_title = title, in_status = Investigating,
      in_severity = severity, in_source = Src_manual, in_monitorId = None, in_postmortem = None,
      in_startedAt = now, in_resolvedAt = None, in_notifiedAt = None, in_statusRevision = 0,
      in_shadow = False, in_acknowledgedAt = None, in_acknowledgedBy = None, in_createdBy = None\<rparr>"

definition insert_incident :: "incident \<Rightarrow> db \<Rightarrow> db" where
  "insert_incident r d = d\<lparr>db_incidents := db_incidents d @ [r], db_nextId := Suc (db_nextId d)\<rparr>"

definition createIncident ::
  "string \<Rightarrow> date \<Rightarrow> actor \<Rightarrow> string \<Rightarrow> incident_severity \<Rightarrow> string option \<Rightarrow> db \<Rightarrow> db \<times> incident" where
  "createIncident app now actor title severity message d =
     (let r = (new_incident (db_nextId d) (aa_organizationId actor) title severity now)
                \<lparr>in_createdBy := Some (aa_userId actor)\<rparr>;
          d1 = insert_incident r d;
          d2 = fst (insert_event (in_id r) Created (Some (in_status r))
                 (if truthy message then the message else ''Incident opened: '' @ title)
                 False (Some (aa_userId actor)) d1);
          d3 = writeAudit (aa_organizationId actor) (Some (aa_userId actor)) ''incident.created'' (On_incident (in_id r))
                 [(''title'', JStr (in_title r)), (''severity'', JStr (severity_text (in_severity r)))] d2
      in (recordDispatchIntent (aa_organizationId actor) (cause_key (in_id r) Incident_opened None)
            (Some (in_id r)) (operatorIntent app r None Incident_opened None) d3, r))"

definition acknowledge_commit :: "date \<Rightarrow> actor \<Rightarrow> nat \<Rightarrow> db \<Rightarrow> (db \<times> incident) outcome_of" where
  "acknowledge_commit now actor i d =
     (case swap i (\<lambda>r. in_organizationId r = aa_organizationId actor \<and> in_acknowledgedAt r = None \<and>
                      in_status r \<noteq> Resolved)
             (\<lambda>r. r\<lparr>in_acknowledgedAt := Some now, in_acknowledgedBy := Some (aa_userId actor)\<rparr>) d of
        None \<Rightarrow>
          (case findIncidentOrThrow d (aa_organizationId actor) i of
             Inl e \<Rightarrow> Inl e
           | Inr current \<Rightarrow>
               if in_status current = Resolved then Inl (Conflict ''This incident is already resolved.'')
               else Inr (d, current))
      | Some (updated, d1) \<Rightarrow>
          Inr (writeAudit (aa_organizationId actor) (Some (aa_userId actor)) ''incident.acknowledged'' (On_incident i) []
                 (fst (insert_event i System None ''Incident acknowledged, escalation stopped.'' True
                    (Some (aa_userId actor)) d1)),
               updated))"

definition acknowledgeIncident :: "date \<Rightarrow> actor \<Rightarrow> nat \<Rightarrow> db \<Rightarrow> (db \<times> incident) outcome_of" where
  "acknowledgeIncident now actor i d =
     (case findIncidentOrThrow d (aa_organizationId actor) i of
        Inl e \<Rightarrow> Inl e
      | Inr r \<Rightarrow>
          if in_status r = Resolved then Inl (Conflict ''This incident is already resolved.'')
          else if in_acknowledgedAt r \<noteq> None then Inr (d, r)
          else acknowledge_commit now actor i d)"

text \<open>
  What a status change owes. Resolving is announced once per incident; any other move
  is keyed on the timeline entry it wrote. The responders who were paged are told it
  is over. \<open>target\<close> is \<open>describeMonitorTarget\<close>.
\<close>

definition status_payload ::
  "string \<Rightarrow> (monitor \<Rightarrow> string) \<Rightarrow> incident \<Rightarrow> monitor option \<Rightarrow> bool \<Rightarrow> nat \<Rightarrow> intent_payload" where
  "status_payload app target updated mon resolving eventId =
     (let payload = operatorIntent app updated mon
            (if resolving then Incident_resolved else Incident_updated)
            (if resolving then None else Some eventId)
      in case mon of
           Some m \<Rightarrow>
             if resolving \<and> in_notifiedAt updated \<noteq> None
             then payload\<lparr>pl_memberEmail := pl_memberEmail (resolvedIntent app updated m (target m))\<rparr>
             else payload
         | None \<Rightarrow> payload)"

text \<open>The commit of a status change, given the row \<open>seen\<close> the decision was made on.\<close>

definition status_commit ::
  "string \<Rightarrow> (monitor \<Rightarrow> string) \<Rightarrow> date \<Rightarrow> actor \<Rightarrow> incident \<Rightarrow> incident_status \<Rightarrow> string \<Rightarrow> db \<Rightarrow>
     (db \<times> incident) outcome_of" where
  "status_commit app target now actor seen status message d =
     (case swap (in_id seen)
             (\<lambda>r. in_organizationId r = aa_organizationId actor \<and> in_status r = in_status seen)
             (\<lambda>r. r\<lparr>in_status := status,
                     in_resolvedAt := (if status = Resolved then Some now else None),
                     in_statusRevision := in_statusRevision r + 1\<rparr>) d of
        None \<Rightarrow> Inl (Conflict ''Someone else changed this incident while you were looking at it, reload and try again.'')
      | Some (updated, d1) \<Rightarrow>
          (let inserted = insert_event (in_id seen) Status_change (Some status) message False
                 (Some (aa_userId actor)) d1;
               d2 = fst inserted;
               eventId = snd inserted;
               resolving = (status = Resolved);
               d3 = (if resolving
                     then writeAudit (aa_organizationId actor) (Some (aa_userId actor)) ''incident.resolved''
                            (On_incident (in_id seen)) [] d2
                     else d2);
               mon = monitorForIncident d3 updated
           in Inr (recordDispatchIntent (aa_organizationId actor)
                     (if resolving then cause_key (in_id seen) Incident_resolved None
                      else cause_key (in_id seen) Incident_updated (Some eventId))
                     (Some (in_id seen)) (status_payload app target updated mon resolving eventId) d3,
                   updated)))"

definition changeIncidentStatus ::
  "string \<Rightarrow> (monitor \<Rightarrow> string) \<Rightarrow> date \<Rightarrow> actor \<Rightarrow> nat \<Rightarrow> incident_status \<Rightarrow> string \<Rightarrow> db \<Rightarrow>
     (db \<times> incident) outcome_of" where
  "changeIncidentStatus app target now actor i status message d =
     (case findIncidentOrThrow d (aa_organizationId actor) i of
        Inl e \<Rightarrow> Inl e
      | Inr r \<Rightarrow>
          if \<not> canTransition (in_status r) status
          then Inl (Conflict (if in_status r = Resolved
                 then ''Resolved incidents can't change status, open a new incident instead.''
                 else ''Can't move from '' @ status_text (in_status r) @ '' to '' @ status_text status @ ''.''))
          else status_commit app target now actor r status message d)"

definition postIncidentUpdate ::
  "string \<Rightarrow> actor \<Rightarrow> nat \<Rightarrow> string \<Rightarrow> bool \<Rightarrow> db \<Rightarrow> db outcome_of" where
  "postIncidentUpdate app actor i message internal d =
     (case findIncidentOrThrow d (aa_organizationId actor) i of
        Inl e \<Rightarrow> Inl e
      | Inr r \<Rightarrow>
          if in_status r = Resolved then Inl (Conflict ''This incident is resolved. The timeline is closed.'')
          else (let inserted = insert_event i Update None message internal (Some (aa_userId actor)) d;
                    d1 = fst inserted; eventId = snd inserted
                in Inr (if internal then d1
                        else recordDispatchIntent (aa_organizationId actor)
                               (cause_key i Incident_updated (Some eventId)) (Some i)
                               (operatorIntent app r (monitorForIncident d1 r) Incident_updated (Some eventId)) d1)))"

definition severity_commit ::
  "string \<Rightarrow> actor \<Rightarrow> incident \<Rightarrow> incident_severity \<Rightarrow> db \<Rightarrow> (db \<times> incident) outcome_of" where
  "severity_commit app actor seen severity d =
     (case swap (in_id seen)
             (\<lambda>r. in_organizationId r = aa_organizationId actor \<and> in_status r \<noteq> Resolved)
             (\<lambda>r. r\<lparr>in_severity := severity\<rparr>) d of
        None \<Rightarrow> Inl (Conflict ''This incident was resolved while you were looking at it, reload and try again.'')
      | Some (updated, d1) \<Rightarrow>
          (let inserted = insert_event (in_id seen) Severity_change None
                 (''Severity changed from '' @ severity_text (in_severity seen) @ '' to '' @ severity_text severity)
                 False (Some (aa_userId actor)) d1;
               d2 = fst inserted; eventId = snd inserted
           in Inr (recordDispatchIntent (aa_organizationId actor)
                     (cause_key (in_id seen) Incident_updated (Some eventId)) (Some (in_id seen))
                     (operatorIntent app updated (monitorForIncident d2 updated) Incident_updated (Some eventId)) d2,
                   updated)))"

definition changeIncidentSeverity ::
  "string \<Rightarrow> actor \<Rightarrow> nat \<Rightarrow> incident_severity \<Rightarrow> db \<Rightarrow> (db \<times> incident) outcome_of" where
  "changeIncidentSeverity app actor i severity d =
     (case findIncidentOrThrow d (aa_organizationId actor) i of
        Inl e \<Rightarrow> Inl e
      | Inr r \<Rightarrow>
          if in_status r = Resolved then Inl (Conflict ''Resolved incidents can't change severity.'')
          else if in_severity r = severity then Inr (d, r)
          else severity_commit app actor r severity d)"

definition postmortem_commit :: "actor \<Rightarrow> nat \<Rightarrow> string \<Rightarrow> db \<Rightarrow> (db \<times> incident) outcome_of" where
  "postmortem_commit actor i content d =
     (case swap i (\<lambda>r. in_organizationId r = aa_organizationId actor)
             (\<lambda>r. r\<lparr>in_postmortem := Some content\<rparr>) d of
        None \<Rightarrow> Inl (NotFound ''Incident not found.'')
      | Some (updated, d1) \<Rightarrow>
          Inr (writeAudit (aa_organizationId actor) (Some (aa_userId actor)) ''incident.postmortem_saved'' (On_incident i) [] d1,
               updated))"

definition savePostmortem :: "actor \<Rightarrow> nat \<Rightarrow> string \<Rightarrow> db \<Rightarrow> (db \<times> incident) outcome_of" where
  "savePostmortem actor i content d =
     (case findIncidentOrThrow d (aa_organizationId actor) i of
        Inl e \<Rightarrow> Inl e
      | Inr r \<Rightarrow>
          if in_status r \<noteq> Resolved
          then Inl (Conflict ''Write the postmortem after the incident is resolved.'')
          else postmortem_commit actor i content d)"

section \<open>The worker\<close>

text \<open>The rows the partial unique index \<open>incidents_one_active_per_monitor\<close> covers.\<close>

definition active_for :: "string \<Rightarrow> incident \<Rightarrow> bool" where
  "active_for m r \<longleftrightarrow> in_source r = Src_monitor \<and> in_status r \<noteq> Resolved \<and> in_monitorId r = Some m"

definition openMonitorIncident :: "date \<Rightarrow> monitor \<Rightarrow> string \<Rightarrow> db \<Rightarrow> db \<times> incident option" where
  "openMonitorIncident now monitor failureDescription d =
     (case find_monitor d (mo_id monitor) of
        None \<Rightarrow> (d, None)
      | Some current \<Rightarrow>
          if mo_currentStatus current = SUp then (d, None)
          else if mo_paused current then (d, None)
          else if \<exists>r \<in> set (db_incidents d). active_for (mo_id monitor) r then (d, None)
          else (let r = (new_incident (db_nextId d) (mo_organizationId monitor) (mo_name monitor @ '' is down'') Critical now)
                          \<lparr>in_source := Src_monitor, in_monitorId := Some (mo_id monitor),
                           in_shadow := (mo_shadowBridgeId current \<noteq> None)\<rparr>;
                    d1 = insert_incident r d;
                    d2 = fst (insert_event (in_id r) Created (Some (in_status r))
                           (mo_name monitor @ '' had been failing '' @
                            describeFailureWindow (mo_failureWindowSeconds monitor) @ '' and was marked down.'')
                           False None d1)
                in (writeAudit (mo_organizationId monitor) None ''incident.auto_opened'' (On_incident (in_id r))
                      [(''monitorId'', JStr (mo_id monitor)), (''monitorName'', JStr (mo_name monitor)),
                       (''error'', JStr failureDescription)] d2,
                    Some r)))"

definition findUnhandledAutoIncident :: "string \<Rightarrow> db \<Rightarrow> incident option" where
  "findUnhandledAutoIncident m d =
     List.find (\<lambda>r. in_monitorId r = Some m \<and> in_source r = Src_monitor \<and> in_status r \<noteq> Resolved \<and>
        in_notifiedAt r = None \<and>
        \<not> (\<exists>e \<in> set (db_events d). ev_incidentId e = in_id r \<and> ev_type e = System)) (db_incidents d)"

definition claimIncidentNotification ::
  "date \<Rightarrow> nat \<Rightarrow> (incident \<Rightarrow> db \<Rightarrow> db) \<Rightarrow> db \<Rightarrow> db \<times> incident option" where
  "claimIncidentNotification now i onClaim d =
     (case swap i (\<lambda>r. in_notifiedAt r = None) (\<lambda>r. r\<lparr>in_notifiedAt := Some now\<rparr>) d of
        None \<Rightarrow> (d, None)
      | Some (claimed, d1) \<Rightarrow> (onClaim claimed d1, Some claimed))"

definition claimOpenedNotifications ::
  "string \<Rightarrow> (monitor \<Rightarrow> string) \<Rightarrow> date \<Rightarrow> incident \<Rightarrow> monitor \<Rightarrow> bool \<Rightarrow> db \<Rightarrow> db \<times> incident option" where
  "claimOpenedNotifications app target now incident monitor pagedElsewhere d =
     claimIncidentNotification now (in_id incident)
       (\<lambda>row. recordDispatchIntent (mo_organizationId monitor) (cause_key (in_id row) Incident_opened None)
          (Some (in_id row)) (openedIntent app row monitor (target monitor) pagedElsewhere)) d"

definition resolve_one ::
  "string \<Rightarrow> (monitor \<Rightarrow> string) \<Rightarrow> date \<Rightarrow> monitor \<Rightarrow> incident \<Rightarrow> db \<times> incident list \<Rightarrow> db \<times> incident list" where
  "resolve_one app target now monitor incident = (\<lambda>(d, resolved).
     case swap (in_id incident) (\<lambda>r. in_status r \<noteq> Resolved)
            (\<lambda>r. r\<lparr>in_status := Resolved, in_resolvedAt := Some now,
                    in_statusRevision := in_statusRevision r + 1\<rparr>) d of
       None \<Rightarrow> (d, resolved)
     | Some (updated, d1) \<Rightarrow>
         (let d2 = fst (insert_event (in_id incident) Status_change (Some Resolved)
                 (mo_name monitor @ '' recovered, incident auto-resolved.'') False None d1);
              d3 = writeAudit (mo_organizationId monitor) None ''incident.auto_resolved'' (On_incident (in_id incident))
                 [(''monitorId'', JStr (mo_id monitor))] d2;
              d4 = (if in_notifiedAt updated \<noteq> None
                    then recordDispatchIntent (mo_organizationId monitor)
                           (cause_key (in_id updated) Incident_resolved None) (Some (in_id updated))
                           (resolvedIntent app updated monitor (target monitor)) d3
                    else d3)
          in (d4, resolved @ [updated])))"

definition resolveMonitorIncidents ::
  "string \<Rightarrow> (monitor \<Rightarrow> string) \<Rightarrow> date \<Rightarrow> monitor \<Rightarrow> db \<Rightarrow> db \<times> incident list" where
  "resolveMonitorIncidents app target now monitor d =
     fold (resolve_one app target now monitor)
       (filter (\<lambda>r. in_monitorId r = Some (mo_id monitor) \<and> in_source r = Src_monitor \<and> in_status r \<noteq> Resolved)
          (db_incidents d)) (d, [])"

definition recordSystemEvent :: "nat \<Rightarrow> string \<Rightarrow> db \<Rightarrow> db" where
  "recordSystemEvent i message d = fst (insert_event i System None message False None d)"

section \<open>Handlers\<close>

record alert_hold =
  ah_reason :: string
  ah_deadlineSeconds :: int

text \<open>A registered handler; a left value is a handler that threw.\<close>

record incident_handler =
  ih_name :: string
  ih_alertHold :: "(incident \<Rightarrow> monitor \<Rightarrow> alert_hold option result) option"
  ih_incidentOpened :: "(incident \<Rightarrow> monitor \<Rightarrow> alert_hold option \<Rightarrow> bool result) option"

definition safely :: "'a \<Rightarrow> 'a result \<Rightarrow> 'a" where
  "safely fallback run = (case run of Inl _ \<Rightarrow> fallback | Inr v \<Rightarrow> v)"

fun askAlertHold :: "incident_handler list \<Rightarrow> incident \<Rightarrow> monitor \<Rightarrow> alert_hold option" where
  "askAlertHold [] i m = None"
| "askAlertHold (h # hs) i m =
     (case ih_alertHold h of
        None \<Rightarrow> askAlertHold hs i m
      | Some ask \<Rightarrow>
          (case safely None (ask i m) of Some hold \<Rightarrow> Some hold | None \<Rightarrow> askAlertHold hs i m))"

fun ask_opened :: "incident_handler list \<Rightarrow> incident \<Rightarrow> monitor \<Rightarrow> alert_hold option \<Rightarrow> bool \<Rightarrow> bool" where
  "ask_opened [] i m held pagesAHuman = pagesAHuman"
| "ask_opened (h # hs) i m held pagesAHuman =
     (case ih_incidentOpened h of
        None \<Rightarrow> ask_opened hs i m held pagesAHuman
      | Some ask \<Rightarrow> ask_opened hs i m held (pagesAHuman \<or> safely False (ask i m held)))"

definition askIncidentOpened :: "incident_handler list \<Rightarrow> incident \<Rightarrow> monitor \<Rightarrow> alert_hold option \<Rightarrow> bool" where
  "askIncidentOpened hs i m held = ask_opened hs i m held False"

section \<open>What each transaction does to the tables\<close>

definition swapped :: "nat \<Rightarrow> (incident \<Rightarrow> bool) \<Rightarrow> (incident \<Rightarrow> incident) \<Rightarrow> incident list \<Rightarrow> incident list" where
  "swapped i guard f rs = map (\<lambda>q. if in_id q = i \<and> guard q then f q else q) rs"

lemma swap_Some:
  assumes "swap i guard f d = Some (u, d')"
  obtains r where "r \<in> set (db_incidents d)" and "in_id r = i" and "guard r" and "u = f r"
    and "d' = d\<lparr>db_incidents := swapped i guard f (db_incidents d)\<rparr>"
  using assms by (auto simp: swap_def swapped_def dest!: find_Some_mem split: option.splits)

lemma swap_None: "swap i guard f d = None \<longleftrightarrow> (\<forall>r \<in> set (db_incidents d). in_id r = i \<longrightarrow> \<not> guard r)"
  by (auto simp: swap_def find_None_iff dest!: find_Some_mem split: option.splits)

text \<open>How a transaction may change the incident table.\<close>

definition ack_row :: "date \<Rightarrow> actor \<Rightarrow> incident \<Rightarrow> incident" where
  "ack_row now actor r = r\<lparr>in_acknowledgedAt := Some now, in_acknowledgedBy := Some (aa_userId actor)\<rparr>"

definition move_row :: "incident_status \<Rightarrow> date \<Rightarrow> incident \<Rightarrow> incident" where
  "move_row status now r = r\<lparr>in_status := status,
     in_resolvedAt := (if status = Resolved then Some now else None),
     in_statusRevision := in_statusRevision r + 1\<rparr>"

inductive row_change :: "db \<Rightarrow> incident \<Rightarrow> incident \<Rightarrow> bool" for d where
  keep: "row_change d r r"
| acked: "in_acknowledgedAt r = None \<Longrightarrow> in_status r \<noteq> Resolved \<Longrightarrow> row_change d r (ack_row now actor r)"
| moved: "canTransition (in_status r) s \<Longrightarrow> row_change d r (move_row s now r)"
| graded: "in_status r \<noteq> Resolved \<Longrightarrow> row_change d r (r\<lparr>in_severity := s\<rparr>)"
| written_up: "row_change d r (r\<lparr>in_postmortem := Some c\<rparr>)"
| notified: "in_notifiedAt r = None \<Longrightarrow> row_change d r (r\<lparr>in_notifiedAt := Some now\<rparr>)"

text \<open>A row opened by this transaction.\<close>

definition fresh_row :: "db \<Rightarrow> incident \<Rightarrow> bool" where
  "fresh_row d r \<longleftrightarrow> in_id r = db_nextId d \<and> in_status r = Investigating \<and> in_resolvedAt r = None \<and>
     in_notifiedAt r = None \<and> in_statusRevision r = 0 \<and>
     (in_source r = Src_monitor \<longrightarrow> (\<forall>m. in_monitorId r = Some m \<longrightarrow> (\<forall>q \<in> set (db_incidents d). \<not> active_for m q)))"

definition table_change :: "db \<Rightarrow> db \<Rightarrow> bool" where
  "table_change d d' \<longleftrightarrow>
     list_all2 (row_change d) (db_incidents d) (db_incidents d') \<and> db_nextId d \<le> db_nextId d' \<or>
     (\<exists>r. fresh_row d r \<and> db_incidents d' = db_incidents d @ [r] \<and> db_nextId d < db_nextId d')"

lemma table_change_map:
  assumes "\<And>q. q \<in> set (db_incidents d) \<Longrightarrow> row_change d q (g q)"
    and "db_incidents d' = map g (db_incidents d)" and "db_nextId d \<le> db_nextId d'"
  shows "table_change d d'"
  using assms by (simp add: table_change_def list_all2_map2 list.rel_refl_strong)

lemma table_change_same:
  "db_incidents d' = db_incidents d \<Longrightarrow> db_nextId d \<le> db_nextId d' \<Longrightarrow> table_change d d'"
  by (simp add: table_change_def list.rel_refl row_change.keep)

lemma table_change_swap:
  assumes "\<And>q. guard q \<Longrightarrow> row_change d q (f q)"
    and "db_incidents d' = swapped i guard f (db_incidents d)" and "db_nextId d \<le> db_nextId d'"
  shows "table_change d d'"
  using assms by (intro table_change_map [where g = "\<lambda>q. if in_id q = i \<and> guard q then f q else q"])
    (auto simp: swapped_def row_change.keep)

lemma create_table: "table_change d (fst (createIncident app now actor title sev msg d))"
proof -
  let ?r = "(new_incident (db_nextId d) (aa_organizationId actor) title sev now)\<lparr>in_createdBy := Some (aa_userId actor)\<rparr>"
  have "fresh_row d ?r" by (simp add: fresh_row_def new_incident_def)
  then show ?thesis
    unfolding table_change_def
    by (intro disjI2 exI [of _ ?r])
      (auto simp: createIncident_def Let_def insert_incident_def less_Suc_eq_le recordDispatchIntent_def)
qed

lemmas row_defs = ack_row_def [symmetric, abs_def] move_row_def [symmetric, abs_def]

lemma acknowledge_effect:
  assumes "acknowledge_commit now actor i d = Inr (d', r)"
  shows "db_intents d' = db_intents d" and "db_monitors d' = db_monitors d" and "db_nextId d \<le> db_nextId d'"
    and "db_incidents d' = db_incidents d \<or>
     db_incidents d' = swapped i (\<lambda>r. in_organizationId r = aa_organizationId actor \<and> in_acknowledgedAt r = None \<and>
        in_status r \<noteq> Resolved) (ack_row now actor) (db_incidents d)"
  using assms unfolding acknowledge_commit_def row_defs
  by (auto split: option.splits sum.splits if_splits elim!: swap_Some)

lemma acknowledge_table: "acknowledge_commit now actor i d = Inr (d', r) \<Longrightarrow> table_change d d'"
  using acknowledge_effect(3,4) [of now actor i d d' r]
    table_change_swap [of "\<lambda>r. in_organizationId r = aa_organizationId actor \<and> in_acknowledgedAt r = None \<and>
        in_status r \<noteq> Resolved" d "ack_row now actor" d' i]
    table_change_same [of d' d] row_change.acked by blast

lemma status_effect:
  assumes "status_commit app target now actor seen status message d = Inr (d', r)"
  obtains q d3 where "q \<in> set (db_incidents d)" and "in_id q = in_id seen" and "in_status q = in_status seen"
    and "in_organizationId q = aa_organizationId actor" and "r = move_row status now q"
    and "db_incidents d3 = swapped (in_id seen) (\<lambda>r. in_organizationId r = aa_organizationId actor \<and>
      in_status r = in_status seen) (move_row status now) (db_incidents d)"
    and "db_nextId d3 = Suc (db_nextId d)" and "db_intents d3 = db_intents d" and "db_monitors d3 = db_monitors d"
    and "d' = recordDispatchIntent (aa_organizationId actor)
      (if status = Resolved then cause_key (in_id seen) Incident_resolved None
       else cause_key (in_id seen) Incident_updated (Some (db_nextId d)))
      (Some (in_id seen)) (status_payload app target r (monitorForIncident d3 r) (status = Resolved) (db_nextId d)) d3"
proof -
  obtain d1 q where q: "q \<in> set (db_incidents d)" "in_id q = in_id seen" "in_organizationId q = aa_organizationId actor"
      "in_status q = in_status seen" "r = move_row status now q"
    and d1: "d1 = d\<lparr>db_incidents := swapped (in_id seen) (\<lambda>r. in_organizationId r = aa_organizationId actor \<and>
      in_status r = in_status seen) (move_row status now) (db_incidents d)\<rparr>"
    and sw: "swap (in_id seen) (\<lambda>r. in_organizationId r = aa_organizationId actor \<and> in_status r = in_status seen)
      (move_row status now) d = Some (r, d1)"
    using assms unfolding status_commit_def row_defs
    by (auto simp: Let_def split: option.splits elim!: swap_Some)
  let ?d2 = "fst (insert_event (in_id seen) Status_change (Some status) message False (Some (aa_userId actor)) d1)"
  let ?d3 = "if status = Resolved then writeAudit (aa_organizationId actor) (Some (aa_userId actor)) ''incident.resolved''
    (On_incident (in_id seen)) [] ?d2 else ?d2"
  show ?thesis
    using assms sw q d1 that [of q ?d3] unfolding status_commit_def row_defs by (simp add: Let_def split: if_splits)
qed

lemma status_table:
  assumes "status_commit app target now actor seen status message d = Inr (d', r)"
    and "canTransition (in_status seen) status"
  shows "table_change d d'"
  using assms(1)
proof (cases rule: status_effect)
  case (1 q d3)
  have "db_nextId d3 \<le> db_nextId d'" unfolding 1(10) by (rule record_nextId)
  moreover have "db_incidents d' = db_incidents d3" unfolding 1(10) by simp
  ultimately show ?thesis
    using assms(2) 1(6,7) by (intro table_change_swap [where i = "in_id seen" and f = "move_row status now"
        and guard = "\<lambda>r. in_organizationId r = aa_organizationId actor \<and> in_status r = in_status seen"])
      (auto intro: row_change.moved)
qed

lemma find_throw: "findIncidentOrThrow d org i = Inr r \<Longrightarrow> r \<in> set (db_incidents d) \<and> in_id r = i \<and> in_organizationId r = org"
  by (auto simp: findIncidentOrThrow_def dest!: find_Some_mem split: option.splits)

lemma post_effect:
  assumes "postIncidentUpdate app actor i message internal d = Inr d'"
  obtains r d1 where "r \<in> set (db_incidents d)" and "in_id r = i" and "in_organizationId r = aa_organizationId actor"
    and "in_status r \<noteq> Resolved"
    and "d1 = fst (insert_event i Update None message internal (Some (aa_userId actor)) d)"
    and "d' = (if internal then d1 else recordDispatchIntent (aa_organizationId actor)
      (cause_key i Incident_updated (Some (db_nextId d))) (Some i)
      (operatorIntent app r (monitorForIncident d1 r) Incident_updated (Some (db_nextId d))) d1)"
proof -
  obtain r where r: "findIncidentOrThrow d (aa_organizationId actor) i = Inr r" "in_status r \<noteq> Resolved"
    using assms by (auto simp: postIncidentUpdate_def split: sum.splits if_splits)
  show ?thesis
    using assms r find_throw [OF r(1)]
    by (intro that [of r "fst (insert_event i Update None message internal (Some (aa_userId actor)) d)"];
        cases internal) (simp_all add: postIncidentUpdate_def Let_def)
qed

lemma post_table: "postIncidentUpdate app actor i message internal d = Inr d' \<Longrightarrow> table_change d d'"
  by (erule post_effect, rule table_change_same) (auto simp: recordDispatchIntent_def)

lemma severity_effect:
  assumes "severity_commit app actor seen severity d = Inr (d', r)"
  obtains q d2 where "q \<in> set (db_incidents d)" and "in_id q = in_id seen" and "in_organizationId q = aa_organizationId actor"
    and "in_status q \<noteq> Resolved" and "r = q\<lparr>in_severity := severity\<rparr>"
    and "db_incidents d2 = swapped (in_id seen) (\<lambda>r. in_organizationId r = aa_organizationId actor \<and>
      in_status r \<noteq> Resolved) (\<lambda>r. r\<lparr>in_severity := severity\<rparr>) (db_incidents d)"
    and "db_nextId d2 = Suc (db_nextId d)" and "db_intents d2 = db_intents d" and "db_monitors d2 = db_monitors d"
    and "\<exists>payload. \<not> owes_nothing payload \<and> d' = recordDispatchIntent (aa_organizationId actor)
      (cause_key (in_id seen) Incident_updated (Some (db_nextId d))) (Some (in_id seen)) payload d2"
proof -
  obtain d1 q where q: "q \<in> set (db_incidents d)" "in_id q = in_id seen" "in_organizationId q = aa_organizationId actor"
      "in_status q \<noteq> Resolved" "r = q\<lparr>in_severity := severity\<rparr>"
    and d1: "d1 = d\<lparr>db_incidents := swapped (in_id seen) (\<lambda>r. in_organizationId r = aa_organizationId actor \<and>
      in_status r \<noteq> Resolved) (\<lambda>r. r\<lparr>in_severity := severity\<rparr>) (db_incidents d)\<rparr>"
    and sw: "swap (in_id seen) (\<lambda>r. in_organizationId r = aa_organizationId actor \<and> in_status r \<noteq> Resolved)
      (\<lambda>r. r\<lparr>in_severity := severity\<rparr>) d = Some (r, d1)"
    using assms unfolding severity_commit_def
    by (auto simp: Let_def split: option.splits elim!: swap_Some)
  let ?d2 = "fst (insert_event (in_id seen) Severity_change None
      (''Severity changed from '' @ severity_text (in_severity seen) @ '' to '' @ severity_text severity)
      False (Some (aa_userId actor)) d1)"
  let ?p = "operatorIntent app r (monitorForIncident ?d2 r) Incident_updated (Some (db_nextId d))"
  have "d' = recordDispatchIntent (aa_organizationId actor)
      (cause_key (in_id seen) Incident_updated (Some (db_nextId d))) (Some (in_id seen)) ?p ?d2"
    using assms sw d1 unfolding severity_commit_def by (simp add: Let_def)
  then have "\<exists>payload. \<not> owes_nothing payload \<and> d' = recordDispatchIntent (aa_organizationId actor)
      (cause_key (in_id seen) Incident_updated (Some (db_nextId d))) (Some (in_id seen)) payload ?d2"
    using builders_owe(3) by metis
  then show ?thesis using that [of q ?d2] q d1 by simp
qed

lemma severity_table:
  assumes "severity_commit app actor seen severity d = Inr (d', r)"
  shows "table_change d d'"
  using assms
proof (cases rule: severity_effect)
  case (1 q d2)
  then obtain payload where d': "d' = recordDispatchIntent (aa_organizationId actor)
      (cause_key (in_id seen) Incident_updated (Some (db_nextId d))) (Some (in_id seen)) payload d2" by blast
  have "db_nextId d2 \<le> db_nextId d'" unfolding d' by (rule record_nextId)
  moreover have "db_incidents d' = db_incidents d2" unfolding d' by simp
  ultimately show ?thesis
    using 1(6,7) by (intro table_change_swap [where i = "in_id seen" and f = "\<lambda>r. r\<lparr>in_severity := severity\<rparr>"
        and guard = "\<lambda>r. in_organizationId r = aa_organizationId actor \<and> in_status r \<noteq> Resolved"])
      (auto intro: row_change.graded)
qed

lemma postmortem_effect:
  assumes "postmortem_commit actor i content d = Inr (d', r)"
  shows "db_incidents d' = swapped i (\<lambda>r. in_organizationId r = aa_organizationId actor)
      (\<lambda>r. r\<lparr>in_postmortem := Some content\<rparr>) (db_incidents d)"
    and "db_intents d' = db_intents d" and "db_nextId d' = db_nextId d" and "db_events d' = db_events d"
  using assms unfolding postmortem_commit_def
  by (auto split: option.splits elim!: swap_Some)

lemma postmortem_table: "postmortem_commit actor i content d = Inr (d', r) \<Longrightarrow> table_change d d'"
  using postmortem_effect [of actor i content d d' r] row_change.written_up
  by (intro table_change_swap [where i = i and f = "\<lambda>r. r\<lparr>in_postmortem := Some content\<rparr>"
      and guard = "\<lambda>r. in_organizationId r = aa_organizationId actor"]) auto

lemma open_effect:
  obtains "openMonitorIncident now m desc d = (d, None)"
  | r current d' where "openMonitorIncident now m desc d = (d', Some r)" and "fresh_row d r"
    and "in_source r = Src_monitor" and "in_monitorId r = Some (mo_id m)"
    and "find_monitor d (mo_id m) = Some current" and "mo_currentStatus current \<noteq> SUp" and "\<not> mo_paused current"
    and "in_shadow r \<longleftrightarrow> mo_shadowBridgeId current \<noteq> None"
    and "\<forall>q \<in> set (db_incidents d). \<not> active_for (mo_id m) q"
    and "db_incidents d' = db_incidents d @ [r]" and "db_nextId d' = Suc (Suc (db_nextId d))"
    and "db_intents d' = db_intents d" and "db_monitors d' = db_monitors d"
proof (cases "find_monitor d (mo_id m)")
  case None
  then show ?thesis using that(1) by (simp add: openMonitorIncident_def)
next
  case (Some current)
  show ?thesis
  proof (cases "mo_currentStatus current = SUp \<or> mo_paused current \<or> (\<exists>q \<in> set (db_incidents d). active_for (mo_id m) q)")
    case True
    then have "openMonitorIncident now m desc d = (d, None)" using Some by (auto simp: openMonitorIncident_def)
    then show ?thesis by (rule that(1))
  next
    case False
    define r where "r = (new_incident (db_nextId d) (mo_organizationId m) (mo_name m @ '' is down'') Critical now)
      \<lparr>in_source := Src_monitor, in_monitorId := Some (mo_id m), in_shadow := (mo_shadowBridgeId current \<noteq> None)\<rparr>"
    define d' where "d' = fst (openMonitorIncident now m desc d)"
    have none: "\<not> (\<exists>q \<in> set (db_incidents d). active_for (mo_id m) q)" using False by simp
    have o: "openMonitorIncident now m desc d = (d', Some r)"
      and inc: "db_incidents d' = db_incidents d @ [r]" and rest: "db_nextId d' = Suc (Suc (db_nextId d))"
        "db_intents d' = db_intents d" "db_monitors d' = db_monitors d"
      unfolding d'_def openMonitorIncident_def using Some False
      by (simp_all only: option.case if_False none Let_def) (simp_all add: r_def insert_incident_def)
    show ?thesis
      using Some False none
      by (intro that(2) [OF o _ _ _ Some _ _ _ _ inc rest]) (auto simp: r_def fresh_row_def new_incident_def)
  qed
qed

lemma open_table: "table_change d (fst (openMonitorIncident now m desc d))"
proof (cases rule: open_effect [of now m desc d])
  case 1
  then show ?thesis by (simp add: table_change_same)
next
  case (2 r current d')
  then show ?thesis unfolding table_change_def by (intro disjI2) auto
qed

lemma claim_effect:
  obtains "claimOpenedNotifications app target now inc m paged d = (d, None)"
    and "\<forall>r \<in> set (db_incidents d). in_id r = in_id inc \<longrightarrow> in_notifiedAt r \<noteq> None"
  | q d1 payload where "q \<in> set (db_incidents d)" and "in_id q = in_id inc" and "in_notifiedAt q = None"
    and "d1 = d\<lparr>db_incidents := swapped (in_id inc) (\<lambda>r. in_notifiedAt r = None)
      (\<lambda>r. r\<lparr>in_notifiedAt := Some now\<rparr>) (db_incidents d)\<rparr>"
    and "payload = openedIntent app (q\<lparr>in_notifiedAt := Some now\<rparr>) m (target m) paged"
    and "claimOpenedNotifications app target now inc m paged d =
      (recordDispatchIntent (mo_organizationId m) (cause_key (in_id inc) Incident_opened None) (Some (in_id inc)) payload d1,
       Some (q\<lparr>in_notifiedAt := Some now\<rparr>))"
proof (cases "swap (in_id inc) (\<lambda>r. in_notifiedAt r = None) (\<lambda>r. r\<lparr>in_notifiedAt := Some now\<rparr>) d")
  case None
  show ?thesis
  proof (rule that(1))
    show "claimOpenedNotifications app target now inc m paged d = (d, None)"
      using None by (simp add: claimOpenedNotifications_def claimIncidentNotification_def)
    show "\<forall>r \<in> set (db_incidents d). in_id r = in_id inc \<longrightarrow> in_notifiedAt r \<noteq> None"
      using None by (simp add: swap_None)
  qed
next
  case (Some x)
  obtain u d1 where x: "x = (u, d1)" by (cases x)
  have "claimOpenedNotifications app target now inc m paged d = (recordDispatchIntent (mo_organizationId m)
      (cause_key (in_id u) Incident_opened None) (Some (in_id u)) (openedIntent app u m (target m) paged) d1, Some u)"
    using Some x by (simp add: claimOpenedNotifications_def claimIncidentNotification_def)
  moreover obtain q where q: "q \<in> set (db_incidents d)" "in_id q = in_id inc" "in_notifiedAt q = None"
      "u = q\<lparr>in_notifiedAt := Some now\<rparr>"
    and "d1 = d\<lparr>db_incidents := swapped (in_id inc) (\<lambda>r. in_notifiedAt r = None)
      (\<lambda>r. r\<lparr>in_notifiedAt := Some now\<rparr>) (db_incidents d)\<rparr>"
    using swap_Some [OF Some [unfolded x]] by blast
  ultimately show ?thesis by (intro that(2) [OF q(1-3)]) simp_all
qed

lemma claim_table: "table_change d (fst (claimOpenedNotifications app target now inc m paged d))"
proof (cases rule: claim_effect [of app target now inc m paged d])
  case 1
  then show ?thesis by (simp add: table_change_same)
next
  case (2 q d1 payload)
  have "db_nextId d1 \<le> db_nextId (fst (claimOpenedNotifications app target now inc m paged d))"
    unfolding 2(6) fst_conv by (rule record_nextId)
  moreover have "db_nextId d1 = db_nextId d" using 2(4) by simp
  moreover have "db_incidents (fst (claimOpenedNotifications app target now inc m paged d)) =
      swapped (in_id inc) (\<lambda>r. in_notifiedAt r = None) (\<lambda>r. r\<lparr>in_notifiedAt := Some now\<rparr>) (db_incidents d)"
    unfolding 2(6) using 2(4) by simp
  ultimately show ?thesis
    by (intro table_change_swap [where i = "in_id inc" and f = "\<lambda>r. r\<lparr>in_notifiedAt := Some now\<rparr>"
          and guard = "\<lambda>r. in_notifiedAt r = None"]) (auto intro: row_change.notified)
qed

lemma resolve_effect:
  obtains "resolve_one app target now m inc (d, acc) = (d, acc)"
    and "\<forall>r \<in> set (db_incidents d). in_id r = in_id inc \<longrightarrow> in_status r = Resolved"
  | q d3 where "q \<in> set (db_incidents d)" and "in_id q = in_id inc" and "in_status q \<noteq> Resolved"
    and "db_incidents d3 = swapped (in_id inc) (\<lambda>r. in_status r \<noteq> Resolved) (move_row Resolved now) (db_incidents d)"
    and "db_nextId d3 = Suc (db_nextId d)" and "db_intents d3 = db_intents d" and "db_monitors d3 = db_monitors d"
    and "db_events d3 = db_events d @ [\<lparr>ev_id = db_nextId d, ev_incidentId = in_id inc, ev_type = Status_change,
      ev_status = Some Resolved, ev_message = mo_name m @ '' recovered, incident auto-resolved.'',
      ev_internal = False, ev_createdBy = None\<rparr>]"
    and "resolve_one app target now m inc (d, acc) =
      (if in_notifiedAt q \<noteq> None
       then recordDispatchIntent (mo_organizationId m) (cause_key (in_id inc) Incident_resolved None) (Some (in_id inc))
              (resolvedIntent app (move_row Resolved now q) m (target m)) d3
       else d3, acc @ [move_row Resolved now q])"
proof (cases "swap (in_id inc) (\<lambda>r. in_status r \<noteq> Resolved) (move_row Resolved now) d")
  case None
  have "\<forall>r \<in> set (db_incidents d). in_id r = in_id inc \<longrightarrow> in_status r = Resolved"
    using None unfolding swap_None by blast
  moreover have "resolve_one app target now m inc (d, acc) = (d, acc)"
    using None by (simp add: resolve_one_def move_row_def [abs_def])
  ultimately show ?thesis using that(1) by blast
next
  case (Some x)
  obtain u d1 where x: "x = (u, d1)" by (cases x)
  obtain q where q: "q \<in> set (db_incidents d)" "in_id q = in_id inc" "in_status q \<noteq> Resolved" "u = move_row Resolved now q"
    and d1: "d1 = d\<lparr>db_incidents := swapped (in_id inc) (\<lambda>r. in_status r \<noteq> Resolved) (move_row Resolved now) (db_incidents d)\<rparr>"
    using swap_Some [OF Some [unfolded x]] by blast
  define d3 where "d3 = writeAudit (mo_organizationId m) None ''incident.auto_resolved'' (On_incident (in_id inc)) [(''monitorId'', JStr (mo_id m))]
    (fst (insert_event (in_id inc) Status_change (Some Resolved) (mo_name m @ '' recovered, incident auto-resolved.'') False None d1))"
  have u: "in_id u = in_id inc" "in_notifiedAt u = in_notifiedAt q" using q by (simp_all add: move_row_def)
  have "resolve_one app target now m inc (d, acc) =
      (if in_notifiedAt q \<noteq> None
       then recordDispatchIntent (mo_organizationId m) (cause_key (in_id inc) Incident_resolved None) (Some (in_id inc))
              (resolvedIntent app (move_row Resolved now q) m (target m)) d3
       else d3, acc @ [move_row Resolved now q])"
    using Some x u q(4) by (simp add: resolve_one_def move_row_def [abs_def] d3_def Let_def)
  moreover have "db_incidents d3 = swapped (in_id inc) (\<lambda>r. in_status r \<noteq> Resolved) (move_row Resolved now) (db_incidents d)"
    "db_nextId d3 = Suc (db_nextId d)" "db_intents d3 = db_intents d" "db_monitors d3 = db_monitors d"
    "db_events d3 = db_events d @ [\<lparr>ev_id = db_nextId d, ev_incidentId = in_id inc, ev_type = Status_change,
      ev_status = Some Resolved, ev_message = mo_name m @ '' recovered, incident auto-resolved.'',
      ev_internal = False, ev_createdBy = None\<rparr>]"
    by (simp_all add: d3_def d1) (simp add: insert_event_def)
  ultimately show ?thesis using that(2) q by blast
qed

lemma canTransition_resolve: "s \<noteq> Resolved \<Longrightarrow> canTransition s Resolved"
  by (cases s) (simp_all add: canTransition_def INCIDENT_STATUSES_def)

lemma resolve_table: "table_change d (fst (resolve_one app target now m inc (d, acc)))"
proof (cases rule: resolve_effect [of app target now m inc d acc])
  case 1
  then show ?thesis by (simp add: table_change_same)
next
  case (2 q d3)
  let ?d' = "fst (resolve_one app target now m inc (d, acc))"
  have "db_nextId d3 \<le> db_nextId ?d'" unfolding 2(9) using record_nextId [of d3] by simp
  moreover have "db_incidents ?d' = db_incidents d3" unfolding 2(9) by simp
  ultimately show ?thesis
    using 2(4,5) by (intro table_change_swap [where i = "in_id inc" and f = "move_row Resolved now"
        and guard = "\<lambda>r. in_status r \<noteq> Resolved"])
      (auto intro: row_change.moved canTransition_resolve)
qed

section \<open>Every interleaving\<close>

text \<open>
  One transaction, or one statement of one, of any operator or worker. The commits
  take the row the caller saw, which may have changed since. \<open>monitors\<close> stands for
  everything other transactions do to the tables this module only reads.
\<close>

inductive incident_step :: "string \<Rightarrow> (monitor \<Rightarrow> string) \<Rightarrow> db \<Rightarrow> db \<Rightarrow> bool" for app target where
  create: "incident_step app target d (fst (createIncident app now actor title sev msg d))"
| acknowledge: "acknowledge_commit now actor i d = Inr (d', r) \<Longrightarrow> incident_step app target d d'"
| status: "canTransition (in_status seen) st \<Longrightarrow>
    status_commit app target now actor seen st msg d = Inr (d', r) \<Longrightarrow> incident_step app target d d'"
| post: "postIncidentUpdate app actor i msg internal d = Inr d' \<Longrightarrow> incident_step app target d d'"
| severity: "severity_commit app actor seen sev d = Inr (d', r) \<Longrightarrow> incident_step app target d d'"
| postmortem: "postmortem_commit actor i content d = Inr (d', r) \<Longrightarrow> incident_step app target d d'"
| open_auto: "incident_step app target d (fst (openMonitorIncident now m desc d))"
| claim: "incident_step app target d (fst (claimOpenedNotifications app target now inc m paged d))"
| resolve_auto: "incident_step app target d (fst (resolve_one app target now m inc (d, acc)))"
| system: "incident_step app target d (recordSystemEvent i msg d)"
| elsewhere: "map it_causeKey intents = map it_causeKey (db_intents d) \<Longrightarrow> db_nextId d \<le> n \<Longrightarrow> incident_step app target d
    (d\<lparr>db_monitors := ms, db_checks := cs, db_heartbeats := hs, db_ledger := l, db_outbox := b, db_intents := intents, db_nextId := n\<rparr>)"

lemma step_table: "incident_step app target d d' \<Longrightarrow> table_change d d'"
proof (induction rule: incident_step.induct)
  case (system d i msg)
  show ?case by (rule table_change_same) (simp_all add: recordSystemEvent_def)
next
  case (elsewhere intents d n ms cs hs l b)
  show ?case by (rule table_change_same) (simp_all add: elsewhere)
qed (fact create_table acknowledge_table status_table post_table severity_table postmortem_table
    open_table claim_table resolve_table | erule (1) status_table | erule acknowledge_table
    | erule post_table | erule severity_table | erule postmortem_table)+

text \<open>The whole transaction is a sequence of such statements.\<close>

lemma resolve_steps: "(incident_step app target)\<^sup>*\<^sup>* d (fst (resolveMonitorIncidents app target now m d))"
proof -
  have "(incident_step app target)\<^sup>*\<^sup>* (fst s) (fst (fold (resolve_one app target now m) rs s))" for rs s
  proof (induction rs arbitrary: s)
    case (Cons r rs)
    have "incident_step app target (fst s) (fst (resolve_one app target now m r s))"
      using incident_step.resolve_auto [of app target "fst s" now m r "snd s"] by simp
    then show ?case using Cons by (simp add: converse_rtranclp_into_rtranclp)
  qed simp
  from this [of "(d, [])"] show ?thesis unfolding resolveMonitorIncidents_def by simp
qed

section \<open>History is not rewritten\<close>

definition evolves :: "incident \<Rightarrow> incident \<Rightarrow> bool" where
  "evolves r r' \<longleftrightarrow>
     in_id r' = in_id r \<and> in_organizationId r' = in_organizationId r \<and> in_title r' = in_title r \<and>
     in_source r' = in_source r \<and> in_monitorId r' = in_monitorId r \<and> in_startedAt r' = in_startedAt r \<and>
     in_shadow r' = in_shadow r \<and> in_createdBy r' = in_createdBy r \<and>
     in_statusRevision r \<le> in_statusRevision r' \<and>
     (in_statusRevision r = in_statusRevision r' \<longrightarrow>
        in_status r' = in_status r \<and> in_resolvedAt r' = in_resolvedAt r) \<and>
     (in_status r = Resolved \<longrightarrow>
        in_statusRevision r' = in_statusRevision r \<and> in_severity r' = in_severity r \<and>
        in_acknowledgedAt r' = in_acknowledgedAt r \<and> in_acknowledgedBy r' = in_acknowledgedBy r) \<and>
     (in_notifiedAt r \<noteq> None \<longrightarrow> in_notifiedAt r' = in_notifiedAt r) \<and>
     (in_acknowledgedAt r \<noteq> None \<longrightarrow>
        in_acknowledgedAt r' = in_acknowledgedAt r \<and> in_acknowledgedBy r' = in_acknowledgedBy r)"

lemma evolves_refl: "evolves r r"
  by (simp add: evolves_def)

lemma evolves_trans: "evolves r s \<Longrightarrow> evolves s t \<Longrightarrow> evolves r t"
  unfolding evolves_def by (intro conjI impI; simp)

lemma row_change_evolves: "row_change d r r' \<Longrightarrow> evolves r r'"
  by (induction rule: row_change.induct)
    (auto simp: evolves_def ack_row_def move_row_def canTransition_def split: if_splits)

text \<open>Later states of the table extend earlier ones row by row.\<close>

definition table_evolves :: "incident list \<Rightarrow> incident list \<Rightarrow> bool" where
  "table_evolves xs ys \<longleftrightarrow> length xs \<le> length ys \<and> (\<forall>n < length xs. evolves (xs ! n) (ys ! n))"

lemma table_evolves_refl: "table_evolves xs xs"
  by (simp add: table_evolves_def evolves_refl)

lemma table_evolves_trans: "table_evolves xs ys \<Longrightarrow> table_evolves ys zs \<Longrightarrow> table_evolves xs zs"
  unfolding table_evolves_def by (meson evolves_trans le_trans less_le_trans)

lemma table_change_evolves:
  assumes "table_change d d'"
  shows "table_evolves (db_incidents d) (db_incidents d')"
proof -
  consider "list_all2 (row_change d) (db_incidents d) (db_incidents d')"
    | r where "db_incidents d' = db_incidents d @ [r]"
    using assms by (auto simp: table_change_def)
  then show ?thesis
  proof cases
    case 1
    then show ?thesis
      by (auto simp: table_evolves_def list_all2_conv_all_nth intro: row_change_evolves)
  next
    case 2
    then show ?thesis by (simp add: table_evolves_def nth_append evolves_refl)
  qed
qed


definition opened_db :: db where
  "opened_db = fst (openMonitorIncident 7 sample_monitor ''timeout'' sample_db)"

lemma opened_db_incidents:
  "db_incidents opened_db =
     [(new_incident 0 ''org'' ''api is down'' Critical 7)\<lparr>in_source := Src_monitor, in_monitorId := Some ''m1''\<rparr>]"
  by (simp add: opened_db_def openMonitorIncident_def sample_db_def sample_monitor_def find_monitor_def
      insert_incident_def new_incident_def Let_def)


section \<open>The invariant\<close>

definition rows_inv :: "db \<Rightarrow> bool" where
  "rows_inv d \<longleftrightarrow>
     distinct (map in_id (db_incidents d)) \<and>
     (\<forall>r \<in> set (db_incidents d). in_id r < db_nextId d) \<and>
     (\<forall>r \<in> set (db_incidents d). in_resolvedAt r \<noteq> None \<longleftrightarrow> in_status r = Resolved) \<and>
     (\<forall>m. \<forall>r \<in> set (db_incidents d). \<forall>s \<in> set (db_incidents d).
        active_for m r \<longrightarrow> active_for m s \<longrightarrow> in_id r = in_id s)"

lemma row_change_facts:
  assumes "row_change d r r'"
  shows "in_id r' = in_id r" and "active_for m r' \<Longrightarrow> active_for m r"
    and "(in_resolvedAt r \<noteq> None \<longleftrightarrow> in_status r = Resolved) \<Longrightarrow> (in_resolvedAt r' \<noteq> None \<longleftrightarrow> in_status r' = Resolved)"
  using assms
  by (induction rule: row_change.induct)
    (auto simp: ack_row_def move_row_def active_for_def canTransition_def split: if_splits)

lemma rows_inv_change:
  assumes "rows_inv d" and "table_change d d'"
  shows "rows_inv d'"
  using assms(2) unfolding table_change_def
proof (elim disjE conjE exE)
  assume rel: "list_all2 (row_change d) (db_incidents d) (db_incidents d')" and n: "db_nextId d \<le> db_nextId d'"
  have ids: "map in_id (db_incidents d') = map in_id (db_incidents d)"
    using rel by (induction rule: list_all2_induct) (simp_all add: row_change_facts)
  have bwd: "\<exists>r \<in> set (db_incidents d). row_change d r r'" if "r' \<in> set (db_incidents d')" for r'
    using rel that by (metis in_set_conv_nth list_all2_conv_all_nth)
  have "in_id r' < db_nextId d'" if "r' \<in> set (db_incidents d')" for r'
    using bwd [OF that] assms(1) n row_change_facts(1) by (fastforce simp: rows_inv_def)
  moreover have "in_resolvedAt r' \<noteq> None \<longleftrightarrow> in_status r' = Resolved" if "r' \<in> set (db_incidents d')" for r'
    using bwd [OF that] assms(1) row_change_facts(3) unfolding rows_inv_def by blast
  moreover have "in_id r' = in_id s'" if "r' \<in> set (db_incidents d')" "s' \<in> set (db_incidents d')"
    "active_for m r'" "active_for m s'" for m r' s'
  proof -
    from that(1,2) obtain r s where rs: "r \<in> set (db_incidents d)" "s \<in> set (db_incidents d)"
      "row_change d r r'" "row_change d s s'" using bwd by blast
    then have "active_for m r" "active_for m s" using that(3,4) row_change_facts(2) by blast+
    then have "in_id r = in_id s" using assms(1) rs(1,2) unfolding rows_inv_def by blast
    then show ?thesis using rs(3,4) row_change_facts(1) by simp
  qed
  moreover have "distinct (map in_id (db_incidents d'))" unfolding ids using assms(1) by (simp add: rows_inv_def)
  ultimately show ?thesis unfolding rows_inv_def by blast
next
  fix r
  assume r: "fresh_row d r" and inc: "db_incidents d' = db_incidents d @ [r]" and n: "db_nextId d < db_nextId d'"
  have lt: "\<forall>q \<in> set (db_incidents d). in_id q < db_nextId d" using assms(1) by (simp add: rows_inv_def)
  have act: "\<not> active_for m q" if "active_for m r" "q \<in> set (db_incidents d)" for m q
    using r that by (auto simp: fresh_row_def active_for_def)
  have rid: "in_id r = db_nextId d" "in_resolvedAt r = None" "in_status r = Investigating"
    using r by (simp_all add: fresh_row_def)
  have "distinct (map in_id (db_incidents d))" and res: "\<forall>q \<in> set (db_incidents d). in_resolvedAt q \<noteq> None \<longleftrightarrow> in_status q = Resolved"
    using assms(1) unfolding rows_inv_def by blast+
  then have "distinct (map in_id (db_incidents d'))" using lt rid(1) by (auto simp: inc)
  moreover have "\<forall>q \<in> set (db_incidents d'). in_id q < db_nextId d'"
    using lt rid(1) n less_trans by (auto simp: inc)
  moreover have "\<forall>q \<in> set (db_incidents d'). in_resolvedAt q \<noteq> None \<longleftrightarrow> in_status q = Resolved"
    using res rid by (simp add: inc)
  moreover have "in_id q = in_id s" if "q \<in> set (db_incidents d')" "s \<in> set (db_incidents d')"
    "active_for m q" "active_for m s" for m q s
    using that act assms(1) unfolding inc rows_inv_def by (metis UnE empty_iff set_append list.set insert_iff)
  ultimately show ?thesis unfolding rows_inv_def by blast
qed

definition intents_inv :: "db \<Rightarrow> bool" where
  "intents_inv d \<longleftrightarrow>
     distinct (map it_causeKey (db_intents d)) \<and>
     (\<forall>r \<in> set (db_incidents d). in_source r = Src_manual \<or> in_notifiedAt r \<noteq> None \<longrightarrow>
        has_intent d (cause_key (in_id r) Incident_opened None)) \<and>
     (\<forall>i. has_intent d (cause_key i Incident_opened None) \<longrightarrow>
        (\<exists>r \<in> set (db_incidents d). in_id r = i \<and> (in_source r = Src_manual \<or> in_notifiedAt r \<noteq> None))) \<and>
     (\<forall>i. has_intent d (cause_key i Incident_resolved None) \<longrightarrow>
        (\<exists>r \<in> set (db_incidents d). in_id r = i \<and> in_status r = Resolved)) \<and>
     (\<forall>i e. has_intent d (cause_key i Incident_updated (Some e)) \<longrightarrow> e < db_nextId d)"

lemma updated_bound:
  "intents_inv d \<Longrightarrow> has_intent d (cause_key i Incident_updated (Some e)) \<Longrightarrow> e < db_nextId d"
  unfolding intents_inv_def by blast

definition incident_inv :: "db \<Rightarrow> bool" where
  "incident_inv d \<longleftrightarrow> rows_inv d \<and> intents_inv d"

text \<open>Changes that leave both sides of the intent clauses alone.\<close>

definition same_claims :: "incident \<Rightarrow> incident \<Rightarrow> bool" where
  "same_claims r r' \<longleftrightarrow> in_id r' = in_id r \<and> in_source r' = in_source r \<and> in_notifiedAt r' = in_notifiedAt r \<and>
     (in_status r = Resolved \<longrightarrow> in_status r' = Resolved)"

lemma intents_inv_quiet:
  assumes "intents_inv d" and "map it_causeKey (db_intents d') = map it_causeKey (db_intents d)" and "db_nextId d \<le> db_nextId d'"
    and "list_all2 same_claims (db_incidents d) (db_incidents d')"
  shows "intents_inv d'"
proof -
  have fwd: "\<exists>r' \<in> set (db_incidents d'). same_claims r r'" if "r \<in> set (db_incidents d)" for r
    using assms(4) that by (metis in_set_conv_nth list_all2_conv_all_nth)
  have bwd: "\<exists>r \<in> set (db_incidents d). same_claims r r'" if "r' \<in> set (db_incidents d')" for r'
    using assms(4) that by (metis in_set_conv_nth list_all2_conv_all_nth)
  have h: "has_intent d' k = has_intent d k" for k using assms(2) unfolding has_intent_def by (metis list.set_map)
  show ?thesis
    unfolding intents_inv_def h
  proof (intro conjI allI impI ballI)
    show "distinct (map it_causeKey (db_intents d'))" using assms(1,2) by (simp add: intents_inv_def)
    show "has_intent d (cause_key (in_id r') Incident_opened None)"
      if "r' \<in> set (db_incidents d')" "in_source r' = Src_manual \<or> in_notifiedAt r' \<noteq> None" for r'
      using bwd [OF that(1)] that(2) assms(1) by (auto simp: intents_inv_def same_claims_def)
    show "\<exists>r \<in> set (db_incidents d'). in_id r = i \<and> (in_source r = Src_manual \<or> in_notifiedAt r \<noteq> None)"
      if "has_intent d (cause_key i Incident_opened None)" for i
      using assms(1) that fwd unfolding intents_inv_def same_claims_def by metis
    show "\<exists>r \<in> set (db_incidents d'). in_id r = i \<and> in_status r = Resolved"
      if "has_intent d (cause_key i Incident_resolved None)" for i
      using assms(1) that fwd unfolding intents_inv_def same_claims_def by metis
    show "e < db_nextId d'" if "has_intent d (cause_key i Incident_updated (Some e))" for i e
      using updated_bound [OF assms(1) that] assms(3) by (rule less_le_trans)
  qed
qed

lemma intents_inv_record:
  assumes "intents_inv d" and "\<not> owes_nothing p"
    and "(\<exists>e < db_nextId d. k = cause_key i Incident_updated (Some e)) \<or>
      (k = cause_key i Incident_resolved None \<and> (\<exists>r \<in> set (db_incidents d). in_id r = i \<and> in_status r = Resolved))"
  shows "intents_inv (recordDispatchIntent org k (Some i) p d)"
proof -
  let ?d' = "recordDispatchIntent org k (Some i) p d"
  have n: "db_nextId d \<le> db_nextId ?d'" by (rule record_nextId)
  have h: "has_intent ?d' k' \<longleftrightarrow> has_intent d k' \<or> k' = k" for k' using assms(2) by simp
  have "e < db_nextId ?d'" if "has_intent ?d' (cause_key j Incident_updated (Some e))" for j e
    using that assms(3) updated_bound [OF assms(1)] n unfolding h by (auto simp: cause_key_inj intro: less_le_trans)
  moreover have "distinct (map it_causeKey (db_intents ?d'))"
    using assms(1) by (intro record_keys_distinct) (simp add: intents_inv_def)
  ultimately show ?thesis
    using assms(1,3) unfolding intents_inv_def h record_frame by (auto simp: cause_key_inj)
qed

lemma swapped_same_claims:
  assumes "\<And>r. r \<in> set rs \<Longrightarrow> guard r \<Longrightarrow> same_claims r (f r)"
  shows "list_all2 same_claims rs (swapped i guard f rs)"
  using assms unfolding swapped_def list_all2_map2
  by (intro list.rel_refl_strong) (simp add: same_claims_def)

lemma intents_inv_open:
  assumes "intents_inv d" and "fresh_row d r" and "in_source r = Src_monitor"
    and "db_incidents d' = db_incidents d @ [r]" and "db_nextId d \<le> db_nextId d'" and "db_intents d' = db_intents d"
  shows "intents_inv d'"
  using assms unfolding intents_inv_def has_intent_def fresh_row_def
  by (simp add: ball_Un bex_Un) (meson le_trans less_le_trans)

lemma intents_inv_create:
  assumes "rows_inv d" and "intents_inv d"
  shows "intents_inv (fst (createIncident app now actor title sev msg d))"
proof -
  define r where "r = (new_incident (db_nextId d) (aa_organizationId actor) title sev now)
    \<lparr>in_createdBy := Some (aa_userId actor)\<rparr>"
  define d3 where "d3 = writeAudit (aa_organizationId actor) (Some (aa_userId actor)) ''incident.created'' (On_incident (in_id r))
      [(''title'', JStr (in_title r)), (''severity'', JStr (severity_text (in_severity r)))]
      (fst (insert_event (in_id r) Created (Some (in_status r))
        (if truthy msg then the msg else ''Incident opened: '' @ title) False (Some (aa_userId actor)) (insert_incident r d)))"
  let ?k = "cause_key (in_id r) Incident_opened None"
  let ?d' = "recordDispatchIntent (aa_organizationId actor) ?k (Some (in_id r)) (operatorIntent app r None Incident_opened None) d3"
  have d': "fst (createIncident app now actor title sev msg d) = ?d'"
    by (simp add: createIncident_def r_def d3_def Let_def)
  have d3: "db_incidents d3 = db_incidents d @ [r]" "db_intents d3 = db_intents d" "db_nextId d3 = Suc (Suc (db_nextId d))"
    by (simp_all add: d3_def insert_incident_def)
  have r: "in_source r = Src_manual" "in_notifiedAt r = None" "in_id r = db_nextId d" "in_status r \<noteq> Resolved"
    by (simp_all add: r_def new_incident_def)
  have h: "has_intent ?d' k' \<longleftrightarrow> has_intent d k' \<or> k' = ?k" for k'
    by (simp add: has_intent_def [of d3] d3(2) has_intent_def [of d, symmetric])
  have n: "db_nextId d \<le> db_nextId ?d'" using record_nextId [of d3] d3(3) by (metis Suc_leD)
  have "e < db_nextId ?d'" if "has_intent ?d' (cause_key j Incident_updated (Some e))" for j e
    using that updated_bound [OF assms(2)] n unfolding h by (auto simp: cause_key_inj intro: less_le_trans)
  moreover have "distinct (map it_causeKey (db_intents ?d'))"
    using assms(2) d3 by (intro record_keys_distinct) (simp add: intents_inv_def)
  ultimately show ?thesis
    using assms(2) r unfolding d' intents_inv_def h record_frame d3 by (auto simp: cause_key_inj)
qed

lemma intents_inv_claim:
  assumes "rows_inv d" and "intents_inv d"
  shows "intents_inv (fst (claimOpenedNotifications app target now inc m paged d))"
proof (cases rule: claim_effect [of app target now inc m paged d])
  case 1
  then show ?thesis using assms(2) by simp
next
  case (2 q d1 payload)
  let ?f = "\<lambda>r. r\<lparr>in_notifiedAt := Some now\<rparr>"
  let ?k = "cause_key (in_id inc) Incident_opened None"
  define d' where "d' = fst (claimOpenedNotifications app target now inc m paged d)"
  have d': "d' = recordDispatchIntent (mo_organizationId m) ?k (Some (in_id inc)) payload d1" by (simp add: d'_def 2(6))
  have h: "has_intent d' k' \<longleftrightarrow> has_intent d k' \<or> k' = ?k" for k'
    unfolding d' 2(5) using 2(4) by (auto simp: has_intent_def recordDispatchIntent_def)
  have inc: "db_incidents d' = swapped (in_id inc) (\<lambda>r. in_notifiedAt r = None) ?f (db_incidents d)"
    unfolding d' using 2(4) by simp
  have fwd: "\<exists>r' \<in> set (db_incidents d'). in_id r' = in_id r \<and> in_source r' = in_source r \<and> in_status r' = in_status r \<and>
      (in_notifiedAt r \<noteq> None \<or> in_id r = in_id inc \<longrightarrow> in_notifiedAt r' \<noteq> None)" if "r \<in> set (db_incidents d)" for r
    using that unfolding inc swapped_def by (intro bexI [of _ "if in_id r = in_id inc \<and> in_notifiedAt r = None then ?f r else r"]) auto
  have bwd: "\<exists>r \<in> set (db_incidents d). in_id r' = in_id r \<and> in_source r' = in_source r \<and>
      (in_notifiedAt r' \<noteq> None \<longrightarrow> in_notifiedAt r \<noteq> None \<or> in_id r = in_id inc)" if "r' \<in> set (db_incidents d')" for r'
  proof -
    from that obtain r where "r \<in> set (db_incidents d)" "r' = (if in_id r = in_id inc \<and> in_notifiedAt r = None then ?f r else r)"
      unfolding inc swapped_def by auto
    then show ?thesis by (intro bexI [of _ r]) auto
  qed
  have n: "db_nextId d \<le> db_nextId d'" unfolding d' using record_nextId [of d1] 2(4) by simp
  have "intents_inv d'"
    unfolding intents_inv_def h
  proof (intro conjI allI impI ballI)
    show "distinct (map it_causeKey (db_intents d'))"
      unfolding d' using assms(2) 2(4) by (intro record_keys_distinct) (simp add: intents_inv_def)
    show "has_intent d (cause_key (in_id r') Incident_opened None) \<or> cause_key (in_id r') Incident_opened None = ?k"
      if "r' \<in> set (db_incidents d')" "in_source r' = Src_manual \<or> in_notifiedAt r' \<noteq> None" for r'
      using bwd [OF that(1)] that(2) assms(2) unfolding intents_inv_def by metis
    show "\<exists>r \<in> set (db_incidents d'). in_id r = i \<and> (in_source r = Src_manual \<or> in_notifiedAt r \<noteq> None)"
      if "has_intent d (cause_key i Incident_opened None) \<or> cause_key i Incident_opened None = ?k" for i
      using that assms(2) fwd 2(1,2) unfolding intents_inv_def cause_key_inj by metis
    show "\<exists>r \<in> set (db_incidents d'). in_id r = i \<and> in_status r = Resolved"
      if "has_intent d (cause_key i Incident_resolved None) \<or> cause_key i Incident_resolved None = ?k" for i
    proof -
      have "has_intent d (cause_key i Incident_resolved None)" using that by (simp add: cause_key_inj)
      then obtain r where r: "r \<in> set (db_incidents d)" "in_id r = i" "in_status r = Resolved"
        using assms(2) unfolding intents_inv_def by blast
      then show ?thesis using fwd [OF r(1)] by auto
    qed
    show "e < db_nextId d'"
      if "has_intent d (cause_key i Incident_updated (Some e)) \<or> cause_key i Incident_updated (Some e) = ?k" for i e
      using that updated_bound [OF assms(2)] n by (auto simp: cause_key_inj intro: less_le_trans)
  qed
  then show ?thesis by (simp add: d'_def)
qed

lemma move_same_claims:
  "in_status r \<noteq> Resolved \<Longrightarrow> same_claims r (move_row s now r)"
  "same_claims r (ack_row now actor r)" "same_claims r (r\<lparr>in_severity := sev\<rparr>)" "same_claims r (r\<lparr>in_postmortem := c\<rparr>)"
  by (simp_all add: same_claims_def move_row_def ack_row_def)

lemma same_claims_refl: "list_all2 same_claims rs rs"
  by (simp add: list.rel_refl_strong same_claims_def)

lemma status_payload_owes: "\<not> owes_nothing (status_payload app target r mon b e)"
  by (simp add: status_payload_def Let_def split: option.splits)

lemma intents_inv_status:
  assumes "intents_inv d" and "canTransition (in_status seen) st"
    and "status_commit app target now actor seen st msg d = Inr (d', r)"
  shows "intents_inv d'"
  using assms(3)
proof (cases rule: status_effect)
  case (1 q d3)
  have active: "in_status seen \<noteq> Resolved" using assms(2) by (auto simp: canTransition_def)
  have d3: "intents_inv d3"
    using active 1(6-8) by (intro intents_inv_quiet [OF assms(1)])
      (auto intro!: swapped_same_claims move_same_claims(1))
  have "move_row st now q \<in> set (db_incidents d3)"
    using 1(1-4,6) by (auto simp: swapped_def image_iff intro!: bexI [of _ q])
  moreover have "in_id (move_row st now q) = in_id seen" "in_status (move_row st now q) = st"
    using 1(2) by (simp_all add: move_row_def)
  ultimately have "st = Resolved \<Longrightarrow> \<exists>r \<in> set (db_incidents d3). in_id r = in_id seen \<and> in_status r = Resolved" by blast
  then show ?thesis
    unfolding 1(10) using 1(7) by (intro intents_inv_record [OF d3 status_payload_owes]) auto
qed

lemma intents_inv_severity:
  assumes "intents_inv d" and "severity_commit app actor seen sev d = Inr (d', r)"
  shows "intents_inv d'"
  using assms(2)
proof (cases rule: severity_effect)
  case (1 q d2)
  then obtain p where p: "\<not> owes_nothing p" "d' = recordDispatchIntent (aa_organizationId actor)
      (cause_key (in_id seen) Incident_updated (Some (db_nextId d))) (Some (in_id seen)) p d2" by blast
  have "intents_inv d2"
    using 1(6-8) by (intro intents_inv_quiet [OF assms(1)]) (auto intro!: swapped_same_claims move_same_claims)
  then show ?thesis unfolding p(2) using p(1) 1(7) by (intro intents_inv_record) auto
qed

lemma intents_inv_post:
  assumes "intents_inv d" and "postIncidentUpdate app actor i msg internal d = Inr d'"
  shows "intents_inv d'"
  using assms(2)
proof (cases rule: post_effect)
  case (1 r d1)
  have d1: "intents_inv d1"
    unfolding 1(5) by (rule intents_inv_quiet [OF assms(1)]) (simp_all add: same_claims_refl)
  show ?thesis
  proof (cases internal)
    case False
    show ?thesis unfolding 1(6) if_not_P [OF False]
      using 1(5) by (intro intents_inv_record [OF d1]) auto
  qed (use d1 1(6) in simp)
qed

lemma intents_inv_resolve:
  assumes "intents_inv d"
  shows "intents_inv (fst (resolve_one app target now m inc (d, acc)))"
proof (cases rule: resolve_effect [of app target now m inc d acc])
  case 1
  then show ?thesis using assms by simp
next
  case (2 q d3)
  have d3: "intents_inv d3"
    using 2(4-6) by (intro intents_inv_quiet [OF assms]) (auto intro!: swapped_same_claims move_same_claims(1))
  have "move_row Resolved now q \<in> set (db_incidents d3)"
    using 2(1-4) by (auto simp: swapped_def image_iff intro!: bexI [of _ q])
  moreover have "in_id (move_row Resolved now q) = in_id inc" "in_status (move_row Resolved now q) = Resolved"
    using 2(2) by (simp_all add: move_row_def)
  ultimately have "\<exists>r \<in> set (db_incidents d3). in_id r = in_id inc \<and> in_status r = Resolved" by blast
  then show ?thesis
    unfolding 2(9) fst_conv using d3 by (cases "in_notifiedAt q = None") (simp_all add: intents_inv_record)
qed

lemma incident_inv_step:
  assumes "incident_inv d" and "incident_step app target d d'"
  shows "incident_inv d'"
proof -
  have r: "rows_inv d" and i: "intents_inv d" using assms(1) by (simp_all add: incident_inv_def)
  have "intents_inv d'"
    using assms(2)
  proof cases
    case (create now actor title sev msg)
    then show ?thesis using intents_inv_create [OF r i] by simp
  next
    case (acknowledge now actor j q)
    from acknowledge_effect [OF acknowledge] show ?thesis
      by (intro intents_inv_quiet [OF i]) (auto simp: same_claims_refl intro!: swapped_same_claims move_same_claims)
  next
    case (status seen st now actor msg q)
    then show ?thesis using intents_inv_status [OF i] by blast
  next
    case (post actor j msg internal)
    then show ?thesis using intents_inv_post [OF i] by blast
  next
    case (severity actor seen sev q)
    then show ?thesis using intents_inv_severity [OF i] by blast
  next
    case (postmortem actor j content q)
    from postmortem_effect [OF postmortem] show ?thesis
      by (intro intents_inv_quiet [OF i]) (auto intro!: swapped_same_claims move_same_claims)
  next
    case (open_auto now m desc)
    show ?thesis
    proof (cases rule: open_effect [of now m desc d])
      case 1
      then show ?thesis using i open_auto by simp
    next
      case (2 q current d2)
      then show ?thesis using open_auto intents_inv_open [OF i 2(2,3,10)] by simp
    qed
  next
    case (claim now inc m paged)
    then show ?thesis using intents_inv_claim [OF r i] by simp
  next
    case (resolve_auto now m inc acc)
    then show ?thesis using intents_inv_resolve [OF i] by simp
  next
    case (system j msg)
    then show ?thesis
      by (intro intents_inv_quiet [OF i]) (simp_all add: recordSystemEvent_def same_claims_refl)
  next
    case (elsewhere intents n ms cs hs l b)
    then show ?thesis by (intro intents_inv_quiet [OF i]) (simp_all add: same_claims_refl)
  qed
  then show ?thesis using rows_inv_change [OF r step_table [OF assms(2)]] by (simp add: incident_inv_def)
qed

text \<open>An installation with no incident and no intent yet.\<close>

definition no_incidents :: "db \<Rightarrow> bool" where
  "no_incidents d \<longleftrightarrow> db_incidents d = [] \<and> db_intents d = []"

interpretation incidents: state_machine no_incidents "incident_step app target" incident_inv for app target
proof
  show "no_incidents d \<Longrightarrow> incident_inv d" for d
    by (simp add: no_incidents_def incident_inv_def rows_inv_def intents_inv_def has_intent_def)
  show "incident_inv d \<Longrightarrow> incident_step app target d d' \<Longrightarrow> incident_inv d'" for d d'
    by (rule incident_inv_step)
qed



section \<open>The closed timeline\<close>

definition timeline_ok :: "db \<Rightarrow> db \<Rightarrow> bool" where
  "timeline_ok d d' \<longleftrightarrow>
     (\<exists>new. db_events d' = db_events d @ new \<and>
        (\<forall>e \<in> set new. ev_type e = System \<or> db_nextId d \<le> ev_incidentId e \<or>
           (\<exists>r \<in> set (db_incidents d). in_id r = ev_incidentId e \<and> in_status r \<noteq> Resolved)))"

lemma timeline_refl: "db_events d' = db_events d \<Longrightarrow> timeline_ok d d'"
  by (simp add: timeline_ok_def)

lemma event_appended:
  "db_events (fst (insert_event i ty st msg internal author d)) = db_events d @
     [\<lparr>ev_id = db_nextId d, ev_incidentId = i, ev_type = ty, ev_status = st, ev_message = msg,
       ev_internal = internal, ev_createdBy = author\<rparr>]"
  by (simp add: insert_event_def)

lemma timeline_one:
  assumes "db_events d' = db_events d @ [e]"
    and "ev_type e = System \<or> db_nextId d \<le> ev_incidentId e \<or>
      (\<exists>r \<in> set (db_incidents d). in_id r = ev_incidentId e \<and> in_status r \<noteq> Resolved)"
  shows "timeline_ok d d'"
  unfolding timeline_ok_def using assms by (intro exI [of _ "[e]"]) simp

lemma timeline_status:
  assumes "canTransition (in_status seen) st" and "status_commit app target now actor seen st msg d = Inr (d', r)"
  shows "timeline_ok d d'"
proof -
  from assms(2) obtain u d1 where sw: "swap (in_id seen) (\<lambda>r. in_organizationId r = aa_organizationId actor \<and>
      in_status r = in_status seen) (move_row st now) d = Some (u, d1)"
    unfolding status_commit_def row_defs by (auto split: option.splits)
  then obtain q where q: "q \<in> set (db_incidents d)" "in_id q = in_id seen" "in_status q = in_status seen"
    and d1: "db_events d1 = db_events d"
    by (elim swap_Some) auto
  have "in_status q \<noteq> Resolved" using assms(1) q(3) by (auto simp: canTransition_def)
  moreover have "db_events d' = db_events d @ [\<lparr>ev_id = db_nextId d1, ev_incidentId = in_id seen, ev_type = Status_change,
      ev_status = Some st, ev_message = msg, ev_internal = False, ev_createdBy = Some (aa_userId actor)\<rparr>]"
    using assms(2) sw d1 unfolding status_commit_def row_defs
    by (auto simp: Let_def event_appended split: if_splits)
  ultimately show ?thesis using q by (auto intro!: timeline_one)
qed

lemma timeline_severity:
  assumes "severity_commit app actor seen sev d = Inr (d', r)"
  shows "timeline_ok d d'"
proof -
  from assms obtain u d1 where sw: "swap (in_id seen) (\<lambda>r. in_organizationId r = aa_organizationId actor \<and>
      in_status r \<noteq> Resolved) (\<lambda>r. r\<lparr>in_severity := sev\<rparr>) d = Some (u, d1)"
    unfolding severity_commit_def by (auto split: option.splits)
  then obtain q where q: "q \<in> set (db_incidents d)" "in_id q = in_id seen" "in_status q \<noteq> Resolved"
    and d1: "db_events d1 = db_events d"
    by (elim swap_Some) auto
  have "\<exists>e. db_events d' = db_events d @ [e] \<and> ev_incidentId e = in_id seen"
    using assms sw d1 unfolding severity_commit_def by (auto simp: Let_def event_appended)
  then show ?thesis using q timeline_one by metis
qed

lemma timeline_acknowledge:
  assumes "acknowledge_commit now actor i d = Inr (d', r)"
  shows "timeline_ok d d'"
proof (cases "swap i (\<lambda>r. in_organizationId r = aa_organizationId actor \<and> in_acknowledgedAt r = None \<and>
    in_status r \<noteq> Resolved) (ack_row now actor) d")
  case None
  then have "d' = d" using assms unfolding acknowledge_commit_def row_defs by (auto split: sum.splits if_splits)
  then show ?thesis by (simp add: timeline_refl)
next
  case (Some x)
  obtain u d1 where x: "x = (u, d1)" by (cases x)
  then have d1: "db_events d1 = db_events d" using Some by (auto elim: swap_Some)
  have "\<exists>e. db_events d' = db_events d @ [e] \<and> ev_type e = System"
    using assms Some x d1 unfolding acknowledge_commit_def row_defs by (auto simp: event_appended)
  then show ?thesis using timeline_one by metis
qed

lemma timeline_open: "timeline_ok d (fst (openMonitorIncident now m desc d))"
proof (cases "fst (openMonitorIncident now m desc d) = d")
  case True
  then show ?thesis by (simp add: timeline_refl)
next
  case False
  have "\<exists>e. db_events (fst (openMonitorIncident now m desc d)) = db_events d @ [e] \<and> ev_incidentId e = db_nextId d"
    using False unfolding openMonitorIncident_def
    by (auto simp: Let_def event_appended insert_incident_def new_incident_def split: option.splits if_splits)
  then show ?thesis using timeline_one by (metis order_refl)
qed

text \<open>
  C3: once an incident is resolved its timeline is closed. Whatever transaction
  commits next, by an operator or a worker and on however stale a read, the timeline
  only grows, and a line added to an incident that was already resolved is a system
  line, which the public page does not show.
\<close>

theorem resolved_timeline_closed:
  assumes "incident_step app target d d'"
    and "rows_inv d" and "r \<in> set (db_incidents d)" and "in_status r = Resolved"
  shows "\<exists>new. db_events d' = db_events d @ new \<and>
    (\<forall>e \<in> set new. ev_incidentId e = in_id r \<longrightarrow> ev_type e = System)"
proof -
  have "timeline_ok d d'"
    using assms(1)
  proof cases
    case (create now actor title sev msg)
    have "\<exists>e. db_events d' = db_events d @ [e] \<and> ev_incidentId e = db_nextId d"
      unfolding create by (simp add: createIncident_def Let_def event_appended insert_incident_def new_incident_def)
    then show ?thesis using timeline_one by (metis order_refl)
  next
    case (acknowledge now actor j q)
    then show ?thesis by (rule timeline_acknowledge)
  next
    case (status seen st now actor msg q)
    then show ?thesis by (rule timeline_status)
  next
    case (post actor j msg internal)
    from this show ?thesis
      by (cases rule: post_effect) (auto intro!: timeline_one simp: event_appended)
  next
    case (severity actor seen sev q)
    then show ?thesis by (rule timeline_severity)
  next
    case (postmortem actor j content q)
    then show ?thesis using postmortem_effect(4) by (simp add: timeline_refl)
  next
    case (open_auto now m desc)
    then show ?thesis using timeline_open by simp
  next
    case (claim now inc m paged)
    then show ?thesis
      by (cases rule: claim_effect [of app target now inc m paged d]) (auto intro!: timeline_refl)
  next
    case (resolve_auto now m inc acc)
    show ?thesis
    proof (cases rule: resolve_effect [of app target now m inc d acc])
      case 1
      then show ?thesis using resolve_auto by (simp add: timeline_refl)
    next
      case (2 q d3)
      have "db_events d' = db_events d3" unfolding resolve_auto 2(9) by simp
      then show ?thesis using 2(1-3,8) by (auto intro!: timeline_one)
    qed
  next
    case (system j msg)
    then show ?thesis by (auto intro!: timeline_one simp: recordSystemEvent_def event_appended)
  next
    case (elsewhere intents n ms cs hs l b)
    then show ?thesis by (simp add: timeline_refl)
  qed
  then obtain new where new: "db_events d' = db_events d @ new"
    "\<forall>e \<in> set new. ev_type e = System \<or> db_nextId d \<le> ev_incidentId e \<or>
       (\<exists>q \<in> set (db_incidents d). in_id q = ev_incidentId e \<and> in_status q \<noteq> Resolved)"
    unfolding timeline_ok_def by blast
  have "ev_type e = System" if "e \<in> set new" "ev_incidentId e = in_id r" for e
  proof -
    have "in_id r < db_nextId d" and inj: "inj_on in_id (set (db_incidents d))"
      using assms(2,3) by (simp_all add: rows_inv_def distinct_map)
    then show ?thesis using new(2) that assms(3,4) by (metis inj_onD not_le)
  qed
  with new(1) show ?thesis by blast
qed

theorem resolved_timeline_closed_witness:
  "\<exists>new. db_events (recordSystemEvent 0 ''note'' (opened_db\<lparr>db_incidents := map (move_row Resolved 9) (db_incidents opened_db)\<rparr>)) =
     db_events opened_db @ new \<and> (\<forall>e \<in> set new. ev_incidentId e = 0 \<longrightarrow> ev_type e = System)"
proof -
  let ?d = "opened_db\<lparr>db_incidents := map (move_row Resolved 9) (db_incidents opened_db)\<rparr>"
  let ?r = "move_row Resolved 9 ((new_incident 0 ''org'' ''api is down'' Critical 7)
    \<lparr>in_source := Src_monitor, in_monitorId := Some ''m1''\<rparr>)"
  have n: "db_nextId opened_db = 2"
    by (simp add: opened_db_def openMonitorIncident_def sample_db_def sample_monitor_def find_monitor_def
        insert_incident_def new_incident_def Let_def)
  have inc: "db_incidents ?d = [?r]" by (simp add: opened_db_incidents)
  then have "rows_inv ?d" by (simp add: rows_inv_def n move_row_def new_incident_def)
  from resolved_timeline_closed [OF incident_step.system [of "[]" mo_url ?d 0 "''note''"] this, of ?r] inc
  show ?thesis by (simp add: move_row_def new_incident_def)
qed

end
