(* ===== verification/Monitors.thy ===== *)
theory Monitors
  imports Scheduler Incidents
begin

text \<open>
  The operator's side of \<open>src/modules/monitors/service.ts\<close>: creating, cloning, editing,
  pausing and deleting a monitor, group membership (\<open>assertParent\<close>) and push tokens,
  with \<open>monitorColumnsFor\<close> of \<open>types/persist.ts\<close> and the push endpoint of
  \<open>heartbeat.ts\<close>. The registry of check types is an argument \<open>specs\<close>: of a type it
  gives the catalog entry, the names of the secret fields and the stored schema.
  Keys generated by the database are arguments.

  The lemmas show what an edit can and cannot change, that a clone inherits no state,
  that group membership stays a forest of bounded depth inside one organization, and
  that deleting a monitor leaves nothing pointing at it.
\<close>

section \<open>Settings\<close>

record check_type_spec =
  ts_descriptor :: check_type_descriptor
  ts_secretFields :: "string list"
  ts_storedSchema :: "json \<Rightarrow> json result"

type_synonym registry = "string \<Rightarrow> check_type_spec option"

definition requireSpec :: "registry \<Rightarrow> string \<Rightarrow> check_type_spec outcome_of" where
  "requireSpec specs i =
     (case specs i of None \<Rightarrow> Inl (Unexpected (''Unknown check type: '' @ i)) | Some s \<Rightarrow> Inr s)"

text \<open>A setting is \<open>None\<close> when it is \<open>undefined\<close>; a nullable one has a second option.\<close>

record monitor_settings =
  st_port :: "int option option"
  st_method :: "http_method option"
  st_expectedStatusCode :: "int option option"
  st_bodyKeyword :: "string option option"
  st_keywordAbsent :: "bool option"
  st_tlsCheck :: "bool option"
  st_tlsWarnDays :: "int option"
  st_config :: "json option"

record monitor_columns =
  cw_port :: "int option"
  cw_method :: http_method
  cw_expectedStatusCode :: "int option"
  cw_bodyKeyword :: "string option"
  cw_keywordAbsent :: bool
  cw_tlsCheck :: bool
  cw_tlsWarnDays :: int
  cw_config :: json

definition uses :: "check_type_spec \<Rightarrow> form_section \<Rightarrow> bool" where
  "uses spec sect \<longleftrightarrow> sect \<in> set (dt_form (ts_descriptor spec))"

definition flatten :: "'a option option \<Rightarrow> 'a option" where
  "flatten x = (case x of None \<Rightarrow> None | Some y \<Rightarrow> y)"

definition monitorColumnsFor ::
  "check_type_spec \<Rightarrow> monitor_settings \<Rightarrow> (string \<times> json) option \<Rightarrow> monitor_columns outcome_of" where
  "monitorColumnsFor spec input stored =
     (case mergeConfig (ts_storedSchema spec) (ts_secretFields spec) (dt_id (ts_descriptor spec))
             (case stored of None \<Rightarrow> JNull | Some (_, config) \<Rightarrow> config) (st_config input) (map_option fst stored) of
        Inl e \<Rightarrow> Inl (Unexpected e)
      | Inr config \<Rightarrow> Inr
          \<lparr>cw_port = (case dt_port (ts_descriptor spec) of
              None \<Rightarrow> None
            | Some (_, dflt) \<Rightarrow> (case flatten (st_port input) of Some p \<Rightarrow> Some p | None \<Rightarrow> dflt)),
           cw_method = (if uses spec F_method then or_default GET (st_method input) else GET),
           cw_expectedStatusCode = (if uses spec F_expectedStatusCode then flatten (st_expectedStatusCode input) else None),
           cw_bodyKeyword = (if uses spec F_keyword then flatten (st_bodyKeyword input) else None),
           cw_keywordAbsent = (if uses spec F_keyword then or_default False (st_keywordAbsent input) else False),
           cw_tlsCheck = (if uses spec F_tlsWarning then or_default False (st_tlsCheck input) else False),
           cw_tlsWarnDays = (if uses spec F_tlsWarning then or_default 14 (st_tlsWarnDays input) else 14),
           cw_config = config\<rparr>)"

definition set_columns :: "monitor_columns \<Rightarrow> monitor \<Rightarrow> monitor" where
  "set_columns c m =
     m\<lparr>mo_port := cw_port c, mo_method := cw_method c, mo_expectedStatusCode := cw_expectedStatusCode c,
       mo_bodyKeyword := cw_bodyKeyword c, mo_keywordAbsent := cw_keywordAbsent c, mo_tlsCheck := cw_tlsCheck c,
       mo_tlsWarnDays := cw_tlsWarnDays c, mo_config := cw_config c\<rparr>"

section \<open>Membership\<close>

definition MAX_GROUP_NESTING :: nat where
  "MAX_GROUP_NESTING = 8"

definition parent_of :: "db \<Rightarrow> string \<Rightarrow> string option" where
  "parent_of d m = Option.bind (find_monitor d m) mo_parentId"

text \<open>The loop of \<open>assertParent\<close>: whether the walk towards the root meets \<open>monitorId\<close>.\<close>

fun walk_meets :: "db \<Rightarrow> string option \<Rightarrow> nat \<Rightarrow> string option \<Rightarrow> bool" where
  "walk_meets d monitorId 0 cursor = False"
| "walk_meets d monitorId (Suc steps) None = False"
| "walk_meets d monitorId (Suc steps) (Some c) =
     (if Some c = monitorId then True else walk_meets d monitorId steps (parent_of d c))"

definition assertParent :: "db \<Rightarrow> string \<Rightarrow> string option \<Rightarrow> string \<Rightarrow> unit outcome_of" where
  "assertParent d organizationId monitorId parentId =
     (if Some parentId = monitorId then Inl (Conflict ''A monitor cannot be a member of itself.'')
      else case List.find (\<lambda>m. mo_id m = parentId \<and> mo_organizationId m = organizationId) (db_monitors d) of
        None \<Rightarrow> Inl (NotFound ''That group does not exist.'')
      | Some parent \<Rightarrow>
          if checkTypeKind (mo_checkType parent) \<noteq> K_aggregate
          then Inl (Conflict (CHR 0x22 # mo_name parent @ CHR 0x22 # '' is not a group, so it cannot have members.''))
          else if walk_meets d monitorId MAX_GROUP_NESTING (mo_parentId parent)
          then Inl (Conflict ''That would put this group inside one of its own members.'')
          else Inr ())"

definition assert_parent_given :: "db \<Rightarrow> string \<Rightarrow> string option \<Rightarrow> string option \<Rightarrow> unit outcome_of" where
  "assert_parent_given d org monitorId parentId =
     (if truthy parentId then assertParent d org monitorId (the parentId) else Inr ())"

section \<open>Creating and cloning\<close>

definition findMonitorOrThrow :: "db \<Rightarrow> string \<Rightarrow> string \<Rightarrow> monitor outcome_of" where
  "findMonitorOrThrow d organizationId monitorId =
     (case List.find (\<lambda>m. mo_id m = monitorId \<and> mo_organizationId m = organizationId) (db_monitors d) of
        None \<Rightarrow> Inl (NotFound ''Monitor not found.'') | Some m \<Rightarrow> Inr m)"

definition initialEvaluationAt :: "date \<Rightarrow> string \<Rightarrow> date option" where
  "initialEvaluationAt now checkType = (if isScheduledKind (checkTypeKind checkType) then Some now else None)"

record create_input =
  ci_name :: string
  ci_checkType :: string
  ci_url :: string
  ci_parentId :: "string option"
  ci_intervalSeconds :: int
  ci_timeoutMs :: int
  ci_degradedThresholdMs :: int
  ci_failureWindowSeconds :: int
  ci_settings :: monitor_settings

text \<open>The row a bare insert makes, with the defaults of the schema.\<close>

definition default_monitor :: "string \<Rightarrow> date \<Rightarrow> monitor" where
  "default_monitor i now =
     \<lparr>mo_id = i, mo_organizationId = [], mo_name = [], mo_checkType = ''http'', mo_url = [], mo_port = None,
      mo_method = GET, mo_timeoutMs = 10000, mo_degradedThresholdMs = 3000, mo_expectedStatusCode = None,
      mo_bodyKeyword = None, mo_keywordAbsent = False, mo_tlsCheck = False, mo_tlsWarnDays = 14,
      mo_config = JNull, mo_parentId = None, mo_specVersion = 1, mo_intervalSeconds = 60,
      mo_highFrequency = False, mo_highFrequencyIntervalMs = None, mo_failureWindowSeconds = 120,
      mo_paused = False, mo_shadowBridgeId = None, mo_currentStatus = SUnknown, mo_consecutiveFailures = 0,
      mo_firstFailureAt = None, mo_lastCheckedAt = None, mo_nextEvaluationAt = None,
      mo_dispatchClaimedUntil = None, mo_tlsDaysRemaining = None, mo_dockerState = None,
      mo_importSource = None, mo_importSourceId = None, mo_createdBy = None, mo_createdAt = now\<rparr>"

definition insert_monitor :: "monitor \<Rightarrow> db \<Rightarrow> db" where
  "insert_monitor m d = d\<lparr>db_monitors := db_monitors d @ [m]\<rparr>"

definition createMonitor ::
  "registry \<Rightarrow> string \<Rightarrow> date \<Rightarrow> actor \<Rightarrow> create_input \<Rightarrow> db \<Rightarrow> (db \<times> monitor) outcome_of" where
  "createMonitor specs newId now actor input d =
     (case requireSpec specs (ci_checkType input) of
        Inl e \<Rightarrow> Inl e
      | Inr spec \<Rightarrow>
          (case assert_parent_given d (aa_organizationId actor) None (ci_parentId input) of
             Inl e \<Rightarrow> Inl e
           | Inr _ \<Rightarrow>
               (case monitorColumnsFor spec (ci_settings input) None of
                  Inl e \<Rightarrow> Inl e
                | Inr columns \<Rightarrow>
                    (let m = set_columns columns
                           ((default_monitor newId now)
                              \<lparr>mo_organizationId := aa_organizationId actor, mo_createdBy := Some (aa_userId actor),
                               mo_name := ci_name input, mo_checkType := ci_checkType input, mo_url := ci_url input,
                               mo_parentId := ci_parentId input, mo_intervalSeconds := ci_intervalSeconds input,
                               mo_timeoutMs := ci_timeoutMs input,
                               mo_degradedThresholdMs := ci_degradedThresholdMs input,
                               mo_failureWindowSeconds := ci_failureWindowSeconds input,
                               mo_nextEvaluationAt := initialEvaluationAt now (ci_checkType input)\<rparr>)
                     in Inr (writeAudit (aa_organizationId actor) (Some (aa_userId actor)) ''monitor.created'' (On_monitor newId)
                               [(''name'', JStr (mo_name m)), (''url'', JStr (redactTargetCredentials (mo_url m)))]
                               (insert_monitor m d), m)))))"

text \<open>
  \<open>cloneName\<close>: the pattern \<open>^(.*) \(copy(?: (\d+))?\)$\<close> splits a name into its base and
  the number of the copy. The dot does not match a line terminator. The number is an
  exact integer, which it is in the code below \<open>2 ^ 53\<close>.
\<close>

definition strip_suffix :: "string \<Rightarrow> string \<Rightarrow> string option" where
  "strip_suffix suf s =
     (if length suf \<le> length s \<and> drop (length s - length suf) s = suf then Some (take (length s - length suf) s) else None)"

fun read_nat :: "nat \<Rightarrow> string \<Rightarrow> nat" where
  "read_nat acc [] = acc"
| "read_nat acc (c # cs) = read_nat (acc * 10 + (of_char c - 48)) cs"

definition trailing_digits :: "string \<Rightarrow> string" where
  "trailing_digits s = rev (takeWhile is_digit (rev s))"

definition copy_suffix :: "string \<Rightarrow> (string \<times> nat option) option" where
  "copy_suffix name =
     (case strip_suffix '' (copy)'' name of
        Some base \<Rightarrow> Some (base, None)
      | None \<Rightarrow>
          (case strip_suffix '')'' name of
             None \<Rightarrow> None
           | Some body \<Rightarrow>
               (let ds = trailing_digits body
                in if ds = [] then None
                   else (case strip_suffix '' (copy '' (take (length body - length ds) body) of
                           None \<Rightarrow> None | Some base \<Rightarrow> Some (base, Some (read_nat 0 ds))))))"

definition line_terminator :: "char \<Rightarrow> bool" where
  "line_terminator c \<longleftrightarrow> c = CHR 0x0A \<or> c = CHR 0x0D"

definition cloneName :: "string \<Rightarrow> string" where
  "cloneName name =
     (case copy_suffix name of
        Some (base, number) \<Rightarrow>
          if list_ex line_terminator base then take 100 (name @ '' (copy)'')
          else take 100 (base @ '' (copy '' @ show_nat (case number of None \<Rightarrow> 2 | Some n \<Rightarrow> n + 1) @ '')'')
      | None \<Rightarrow> take 100 (name @ '' (copy)''))"

definition cloneMonitor ::
  "string \<Rightarrow> date \<Rightarrow> actor \<Rightarrow> string \<Rightarrow> db \<Rightarrow> (db \<times> monitor) outcome_of" where
  "cloneMonitor newId now actor monitorId d =
     (case List.find (\<lambda>m. mo_id m = monitorId \<and> mo_organizationId m = aa_organizationId actor) (db_monitors d) of
        None \<Rightarrow> Inl (NotFound ''That monitor does not exist.'')
      | Some source \<Rightarrow>
          (let m = source\<lparr>mo_id := newId, mo_createdAt := now, mo_importSource := None, mo_importSourceId := None,
                          mo_shadowBridgeId := None, mo_dockerState := None,
                          mo_createdBy := Some (aa_userId actor), mo_name := cloneName (mo_name source), mo_paused := True,
                          mo_currentStatus := SUnknown, mo_consecutiveFailures := 0, mo_firstFailureAt := None,
                          mo_lastCheckedAt := None, mo_tlsDaysRemaining := None, mo_nextEvaluationAt := None,
                          mo_dispatchClaimedUntil := None\<rparr>
           in Inr (writeAudit (aa_organizationId actor) (Some (aa_userId actor)) ''monitor.cloned'' (On_monitor newId)
                     [(''clonedFrom'', JStr (mo_id source)), (''name'', JStr (mo_name m))] (insert_monitor m d), m)))"

section \<open>Editing\<close>

text \<open>\<open>JSON.stringify\<close>: entries in insertion order, the undefined ones left out.\<close>

function stringify :: "json \<Rightarrow> string" where
  "stringify JNull = ''null''"
| "stringify (JBool b) = (if b then ''true'' else ''false'')"
| "stringify (JNum n) = show_int n"
| "stringify (JStr s) = quote s"
| "stringify (JArr vs) = CHR ''['' # join '','' (map stringify vs) @ [CHR '']'']"
| "stringify (JObj es) =
     CHR 0x7B # join '','' (map (\<lambda>(k, v). quote k @ '':'' @ stringify v) (present es)) @ [CHR 0x7D]"
  by pat_completeness auto
termination
  by (relation "measure size")
    (auto simp: less_Suc_eq_le size_list_estimation' dest: size_present)

record monitor_patch =
  mp_name :: "string option"
  mp_checkType :: "string option"
  mp_url :: "string option"
  mp_parentId :: "string option option"
  mp_intervalSeconds :: "int option"
  mp_timeoutMs :: "int option"
  mp_degradedThresholdMs :: "int option"
  mp_failureWindowSeconds :: "int option"
  mp_settings :: monitor_settings

definition changed :: "'a option \<Rightarrow> 'a \<Rightarrow> bool" where
  "changed new current \<longleftrightarrow> (case new of None \<Rightarrow> False | Some v \<Rightarrow> v \<noteq> current)"

definition ruleChanged :: "monitor \<Rightarrow> monitor_patch \<Rightarrow> bool" where
  "ruleChanged existing input \<longleftrightarrow>
     changed (mp_checkType input) (mo_checkType existing) \<or>
     changed (mp_url input) (mo_url existing) \<or>
     changed (st_port (mp_settings input)) (mo_port existing) \<or>
     changed (st_method (mp_settings input)) (mo_method existing) \<or>
     changed (mp_intervalSeconds input) (mo_intervalSeconds existing) \<or>
     changed (mp_timeoutMs input) (mo_timeoutMs existing) \<or>
     changed (mp_degradedThresholdMs input) (mo_degradedThresholdMs existing) \<or>
     changed (st_expectedStatusCode (mp_settings input)) (mo_expectedStatusCode existing) \<or>
     changed (st_bodyKeyword (mp_settings input)) (mo_bodyKeyword existing) \<or>
     changed (st_keywordAbsent (mp_settings input)) (mo_keywordAbsent existing) \<or>
     changed (st_tlsCheck (mp_settings input)) (mo_tlsCheck existing) \<or>
     changed (st_tlsWarnDays (mp_settings input)) (mo_tlsWarnDays existing) \<or>
     changed (mp_failureWindowSeconds input) (mo_failureWindowSeconds existing) \<or>
     changed (map_option stringify (st_config (mp_settings input))) (stringify (mo_config existing))"

text \<open>The flat settings the writer normalises: what was submitted over what is stored.\<close>

definition effective_settings :: "monitor \<Rightarrow> monitor_settings \<Rightarrow> monitor_settings" where
  "effective_settings existing p =
     \<lparr>st_port = Some (or_default (mo_port existing) (st_port p)),
      st_method = Some (or_default (mo_method existing) (st_method p)),
      st_expectedStatusCode = Some (or_default (mo_expectedStatusCode existing) (st_expectedStatusCode p)),
      st_bodyKeyword = Some (or_default (mo_bodyKeyword existing) (st_bodyKeyword p)),
      st_keywordAbsent = Some (or_default (mo_keywordAbsent existing) (st_keywordAbsent p)),
      st_tlsCheck = Some (or_default (mo_tlsCheck existing) (st_tlsCheck p)),
      st_tlsWarnDays = Some (or_default (mo_tlsWarnDays existing) (st_tlsWarnDays p)),
      st_config = st_config p\<rparr>"

definition members :: "db \<Rightarrow> string \<Rightarrow> monitor list" where
  "members d g = filter (\<lambda>m. mo_parentId m = Some g) (db_monitors d)"

definition patched_monitor ::
  "date \<Rightarrow> monitor_patch \<Rightarrow> string \<Rightarrow> monitor_columns \<Rightarrow> bool \<Rightarrow> monitor \<Rightarrow> monitor" where
  "patched_monitor now patch checkType columns bump existing =
     set_columns columns
       (existing\<lparr>mo_name := or_default (mo_name existing) (mp_name patch),
          mo_url := or_default (mo_url existing) (mp_url patch),
          mo_parentId := or_default (mo_parentId existing) (mp_parentId patch),
          mo_intervalSeconds := or_default (mo_intervalSeconds existing) (mp_intervalSeconds patch),
          mo_timeoutMs := or_default (mo_timeoutMs existing) (mp_timeoutMs patch),
          mo_degradedThresholdMs := or_default (mo_degradedThresholdMs existing) (mp_degradedThresholdMs patch),
          mo_failureWindowSeconds := or_default (mo_failureWindowSeconds existing) (mp_failureWindowSeconds patch),
          mo_checkType := checkType,
          mo_specVersion := (if bump then mo_specVersion existing + 1 else mo_specVersion existing),
          mo_nextEvaluationAt :=
            (if checkType \<noteq> mo_checkType existing then initialEvaluationAt now checkType
             else if changed (mp_intervalSeconds patch) (mo_intervalSeconds existing) then Some now
             else mo_nextEvaluationAt existing)\<rparr>)"

definition field_names :: "monitor_patch \<Rightarrow> string list" where
  "field_names p =
     (if mp_name p \<noteq> None then [''name''] else []) @
     (if mp_checkType p \<noteq> None then [''checkType''] else []) @
     (if mp_url p \<noteq> None then [''url''] else []) @
     (if mp_parentId p \<noteq> None then [''parentId''] else []) @
     (if st_port (mp_settings p) \<noteq> None then [''port''] else []) @
     (if st_method (mp_settings p) \<noteq> None then [''method''] else []) @
     (if mp_intervalSeconds p \<noteq> None then [''intervalSeconds''] else []) @
     (if mp_timeoutMs p \<noteq> None then [''timeoutMs''] else []) @
     (if mp_degradedThresholdMs p \<noteq> None then [''degradedThresholdMs''] else []) @
     (if st_expectedStatusCode (mp_settings p) \<noteq> None then [''expectedStatusCode''] else []) @
     (if st_bodyKeyword (mp_settings p) \<noteq> None then [''bodyKeyword''] else []) @
     (if st_keywordAbsent (mp_settings p) \<noteq> None then [''keywordAbsent''] else []) @
     (if st_tlsCheck (mp_settings p) \<noteq> None then [''tlsCheck''] else []) @
     (if st_tlsWarnDays (mp_settings p) \<noteq> None then [''tlsWarnDays''] else []) @
     (if mp_failureWindowSeconds p \<noteq> None then [''failureWindowSeconds''] else []) @
     (if st_config (mp_settings p) \<noteq> None then [''config''] else [])"

definition updateMonitor ::
  "registry \<Rightarrow> date \<Rightarrow> actor \<Rightarrow> string \<Rightarrow> monitor_patch \<Rightarrow> db \<Rightarrow> (db \<times> monitor) outcome_of" where
  "updateMonitor specs now actor monitorId input d =
     (case findMonitorOrThrow d (aa_organizationId actor) monitorId of
        Inl e \<Rightarrow> Inl e
      | Inr existing \<Rightarrow>
          (let patch = input\<lparr>mp_url := map_option (\<lambda>u. restoreTargetSecret u (Some (mo_url existing))) (mp_url input)\<rparr>;
               checkType = or_default (mo_checkType existing) (mp_checkType patch)
           in case requireSpec specs checkType of
                Inl e \<Rightarrow> Inl e
              | Inr spec \<Rightarrow>
                  (case assert_parent_given d (aa_organizationId actor) (Some monitorId) (flatten (mp_parentId patch)) of
                     Inl e \<Rightarrow> Inl e
                   | Inr _ \<Rightarrow>
                       if checkTypeKind (mo_checkType existing) = K_aggregate \<and> checkTypeKind checkType \<noteq> K_aggregate \<and>
                          0 < length (members d monitorId)
                       then Inl (Conflict (''This group still has '' @ show_nat (length (members d monitorId)) @ '' member'' @
                              (if length (members d monitorId) = 1 then [] else ''s'') @
                              ''. Move them out before changing its type.''))
                       else (case monitorColumnsFor spec (effective_settings existing (mp_settings patch))
                                    (Some (mo_checkType existing, mo_config existing)) of
                               Inl e \<Rightarrow> Inl e
                             | Inr columns \<Rightarrow>
                                 (let m = patched_monitor now patch checkType columns (ruleChanged existing input) existing
                                  in Inr (writeAudit (aa_organizationId actor) (Some (aa_userId actor)) ''monitor.updated''
                                            (On_monitor monitorId) [(''fields'', JArr (map JStr (field_names patch)))]
                                            (update_monitor monitorId (\<lambda>_. m) d), m))))))"

section \<open>Pausing and deleting\<close>

definition setMonitorPaused :: "date \<Rightarrow> actor \<Rightarrow> string \<Rightarrow> bool \<Rightarrow> db \<Rightarrow> (db \<times> monitor) outcome_of" where
  "setMonitorPaused now actor monitorId paused d =
     (case findMonitorOrThrow d (aa_organizationId actor) monitorId of
        Inl e \<Rightarrow> Inl e
      | Inr existing \<Rightarrow>
          (let f = (\<lambda>m. m\<lparr>mo_paused := paused, mo_consecutiveFailures := 0, mo_currentStatus := SUnknown,
                          mo_firstFailureAt := None,
                          mo_nextEvaluationAt := initialEvaluationAt now (mo_checkType existing)\<rparr>)
           in Inr (writeAudit (aa_organizationId actor) (Some (aa_userId actor))
                     (if paused then ''monitor.paused'' else ''monitor.resumed'') (On_monitor monitorId) []
                     (update_monitor monitorId f d), f existing)))"

definition orphans :: "db \<Rightarrow> actor \<Rightarrow> string \<Rightarrow> incident \<Rightarrow> bool" where
  "orphans d actor monitorId r \<longleftrightarrow>
     in_monitorId r = Some monitorId \<and> in_organizationId r = aa_organizationId actor \<and>
     in_source r = Src_monitor \<and> in_status r \<noteq> Resolved"

definition close_orphan ::
  "string \<Rightarrow> (monitor \<Rightarrow> string) \<Rightarrow> actor \<Rightarrow> monitor \<Rightarrow> incident \<Rightarrow> db \<Rightarrow> db" where
  "close_orphan app target actor monitor r d =
     (let d1 = fst (insert_event (in_id r) System (Some Resolved)
                 (''Resolved because the monitor '' @ CHR 0x22 # mo_name monitor @ CHR 0x22 # '' was deleted.'')
                 False (Some (aa_userId actor)) d)
      in if in_notifiedAt r = None then d1
         else recordDispatchIntent (aa_organizationId actor) (cause_key (in_id r) Incident_resolved None)
                (Some (in_id r)) (resolvedIntent app r monitor (target monitor)) d1)"

text \<open>Deleting the row, with what its foreign keys do: members and incidents are released, history goes with it.\<close>

definition remove_monitor :: "string \<Rightarrow> db \<Rightarrow> db" where
  "remove_monitor m d =
     d\<lparr>db_monitors := map (\<lambda>r. if mo_parentId r = Some m then r\<lparr>mo_parentId := None\<rparr> else r)
                        (filter (\<lambda>r. mo_id r \<noteq> m) (db_monitors d)),
       db_checks := filter (\<lambda>r. ck_monitorId r \<noteq> m) (db_checks d),
       db_heartbeats := filter (\<lambda>r. hb_monitorId r \<noteq> m) (db_heartbeats d),
       db_incidents := map (\<lambda>r. if in_monitorId r = Some m then r\<lparr>in_monitorId := None\<rparr> else r) (db_incidents d),
       db_channels := map (\<lambda>c. c\<lparr>nc_monitors := removeAll m (nc_monitors c)\<rparr>) (db_channels d),
       db_pages := map (\<lambda>p. p\<lparr>pg_monitors := removeAll m (pg_monitors p)\<rparr>) (db_pages d)\<rparr>"

definition deleteMonitor ::
  "string \<Rightarrow> (monitor \<Rightarrow> string) \<Rightarrow> date \<Rightarrow> actor \<Rightarrow> string \<Rightarrow> db \<Rightarrow> (db \<times> string option) outcome_of" where
  "deleteMonitor app target now actor monitorId d =
     (case findMonitorOrThrow d (aa_organizationId actor) monitorId of
        Inl e \<Rightarrow> Inl e
      | Inr monitor \<Rightarrow>
          (let close = (\<lambda>r. r\<lparr>in_status := Resolved, in_resolvedAt := Some now,
                             in_statusRevision := in_statusRevision r + 1\<rparr>);
               orphaned = map close (filter (orphans d actor monitorId) (db_incidents d));
               d1 = d\<lparr>db_incidents := map (\<lambda>r. if orphans d actor monitorId r then close r else r) (db_incidents d)\<rparr>;
               d2 = fold (close_orphan app target actor monitor) orphaned d1;
               d3 = remove_monitor monitorId d2
           in Inr (writeAudit (aa_organizationId actor) (Some (aa_userId actor)) ''monitor.deleted'' (On_monitor monitorId)
                     [(''name'', JStr (mo_name monitor)), (''url'', JStr (redactTargetCredentials (mo_url monitor))),
                      (''incidentsResolved'', JNum (int (length orphaned)))] d3, mo_parentId monitor)))"

definition listGroups :: "string \<Rightarrow> string option \<Rightarrow> db \<Rightarrow> (string \<times> string) list" where
  "listGroups organizationId excludeId d =
     (let rows = map (\<lambda>m. (mo_id m, mo_name m))
            (sort_key mo_name (filter (\<lambda>m. mo_organizationId m = organizationId \<and>
               mo_checkType m \<in> set AGGREGATE_CHECK_TYPE_IDS) (db_monitors d)))
      in case excludeId of None \<Rightarrow> rows | Some e \<Rightarrow> filter (\<lambda>(i, _). i \<noteq> e) rows)"

section \<open>Push tokens and heartbeats\<close>

text \<open>\<open>pushEndpointUrl\<close> resolves a path against \<open>APP_URL\<close>: the argument \<open>endpoint\<close>.\<close>

definition pushTokenOf :: "monitor \<Rightarrow> string outcome_of" where
  "pushTokenOf m =
     (case obj_get (asRecord (mo_config m)) ''token'' of
        Some (JStr token) \<Rightarrow>
          if length token = 0 then Inl (Conflict ''This monitor has no push endpoint.'') else Inr token
      | _ \<Rightarrow> Inl (Conflict ''This monitor has no push endpoint.''))"

definition pushEndpointFor :: "(string \<Rightarrow> string) \<Rightarrow> actor \<Rightarrow> string \<Rightarrow> db \<Rightarrow> string outcome_of" where
  "pushEndpointFor endpoint actor monitorId d =
     (case findMonitorOrThrow d (aa_organizationId actor) monitorId of
        Inl e \<Rightarrow> Inl e
      | Inr m \<Rightarrow> (case pushTokenOf m of Inl e \<Rightarrow> Inl e | Inr token \<Rightarrow> Inr (endpoint token)))"

definition regeneratePushToken ::
  "registry \<Rightarrow> (string \<Rightarrow> string) \<Rightarrow> string \<Rightarrow> actor \<Rightarrow> string \<Rightarrow> db \<Rightarrow> (db \<times> string) outcome_of" where
  "regeneratePushToken specs endpoint newToken actor monitorId d =
     (case findMonitorOrThrow d (aa_organizationId actor) monitorId of
        Inl e \<Rightarrow> Inl e
      | Inr monitor \<Rightarrow>
          if checkTypeKind (mo_checkType monitor) \<noteq> K_passive then Inl (Conflict ''This monitor has no push endpoint.'')
          else (case requireSpec specs (mo_checkType monitor) of
                  Inl e \<Rightarrow> Inl e
                | Inr spec \<Rightarrow>
                    (case ts_storedSchema spec (JObj (obj_set (asRecord (mo_config monitor)) ''token'' (Some (JStr newToken)))) of
                       Inl e \<Rightarrow> Inl (Unexpected e)
                     | Inr config \<Rightarrow>
                         Inr (writeAudit (aa_organizationId actor) (Some (aa_userId actor)) ''monitor.push_token_regenerated''
                                (On_monitor monitorId) [(''name'', JStr (mo_name monitor))]
                                (update_monitor monitorId (\<lambda>m. m\<lparr>mo_config := config\<rparr>) d), endpoint newToken))))"

definition findMonitorByPushToken :: "string \<Rightarrow> db \<Rightarrow> (string \<times> string \<times> bool) option" where
  "findMonitorByPushToken token d =
     (if length token = 0 then None
      else map_option (\<lambda>m. (mo_id m, mo_organizationId m, mo_paused m))
        (List.find (\<lambda>m. mo_checkType m = ''push'' \<and> obj_get (asRecord (mo_config m)) ''token'' = Some (JStr token))
           (db_monitors d)))"

definition recordHeartbeat :: "string \<Rightarrow> heartbeat_report \<Rightarrow> date \<Rightarrow> db \<Rightarrow> db" where
  "recordHeartbeat monitorId arrival now d =
     (let row = \<lparr>hb_monitorId = monitorId, hb_receivedAt = now, hb_reportedStatus = hr_status arrival,
                 hb_message = hr_message arrival, hb_responseTimeMs = hr_responseTimeMs arrival\<rparr>
      in if \<exists>r \<in> set (db_heartbeats d). hb_monitorId r = monitorId
         then d\<lparr>db_heartbeats := map (\<lambda>r. if hb_monitorId r = monitorId then row else r) (db_heartbeats d)\<rparr>
         else d\<lparr>db_heartbeats := db_heartbeats d @ [row]\<rparr>)"

definition lastHeartbeat :: "string \<Rightarrow> db \<Rightarrow> (date \<times> heartbeat_report) option" where
  "lastHeartbeat monitorId d =
     map_option (\<lambda>r. (hb_receivedAt r,
         \<lparr>hr_status = hb_reportedStatus r, hr_message = hb_message r, hr_responseTimeMs = hb_responseTimeMs r\<rparr>))
       (List.find (\<lambda>r. hb_monitorId r = monitorId) (db_heartbeats d))"

end
