(* ===== verification/Membership.thy ===== *)
theory Membership
  imports Monitors
begin

text \<open>
  Group membership and tenancy over the operator's transactions of \<open>Monitors\<close>. A step
  is one committed transaction; the invariant says that ids are unique and that every
  membership names an existing group of the same organization. Cycles are treated
  apart, because the code refuses them only up to the depth it walks.
\<close>

section \<open>How each transaction changes the table of monitors\<close>

lemma find_two: "List.find (\<lambda>m. mo_id m = i \<and> mo_organizationId m = org) ms = Some m \<Longrightarrow>
    m \<in> set ms \<and> mo_id m = i \<and> mo_organizationId m = org"
  by (auto simp: find_Some_iff)

lemma findMonitorOrThrowD:
  "findMonitorOrThrow d org i = Inr m \<Longrightarrow> m \<in> set (db_monitors d) \<and> mo_id m = i \<and> mo_organizationId m = org"
  unfolding findMonitorOrThrow_def by (auto split: option.splits dest: find_two)

lemma update_monitor_frame [simp]:
  "db_monitors (update_monitor i f d) = map (\<lambda>r. if mo_id r = i then f r else r) (db_monitors d)"
  "db_checks (update_monitor i f d) = db_checks d"
  "db_heartbeats (update_monitor i f d) = db_heartbeats d"
  "db_incidents (update_monitor i f d) = db_incidents d"
  "db_events (update_monitor i f d) = db_events d"
  "db_intents (update_monitor i f d) = db_intents d"
  "db_audit (update_monitor i f d) = db_audit d"
  "db_ledger (update_monitor i f d) = db_ledger d"
  "db_nextId (update_monitor i f d) = db_nextId d"
  by (simp_all add: update_monitor_def)

lemma insert_monitor_frame [simp]:
  "db_monitors (insert_monitor m d) = db_monitors d @ [m]"
  "db_incidents (insert_monitor m d) = db_incidents d"
  by (simp_all add: insert_monitor_def)

lemma set_columns_sel [simp]:
  "mo_id (set_columns c m) = mo_id m"
  "mo_organizationId (set_columns c m) = mo_organizationId m"
  "mo_name (set_columns c m) = mo_name m"
  "mo_url (set_columns c m) = mo_url m"
  "mo_checkType (set_columns c m) = mo_checkType m"
  "mo_parentId (set_columns c m) = mo_parentId m"
  "mo_specVersion (set_columns c m) = mo_specVersion m"
  "mo_paused (set_columns c m) = mo_paused m"
  "mo_shadowBridgeId (set_columns c m) = mo_shadowBridgeId m"
  "mo_currentStatus (set_columns c m) = mo_currentStatus m"
  "mo_consecutiveFailures (set_columns c m) = mo_consecutiveFailures m"
  "mo_firstFailureAt (set_columns c m) = mo_firstFailureAt m"
  "mo_lastCheckedAt (set_columns c m) = mo_lastCheckedAt m"
  "mo_dispatchClaimedUntil (set_columns c m) = mo_dispatchClaimedUntil m"
  "mo_dockerState (set_columns c m) = mo_dockerState m"
  "mo_nextEvaluationAt (set_columns c m) = mo_nextEvaluationAt m"
  "mo_intervalSeconds (set_columns c m) = mo_intervalSeconds m"
  "mo_failureWindowSeconds (set_columns c m) = mo_failureWindowSeconds m"
  "mo_createdAt (set_columns c m) = mo_createdAt m"
  "mo_highFrequency (set_columns c m) = mo_highFrequency m"
  by (simp_all add: set_columns_def)

lemma patched_monitor_sel [simp]:
  "mo_id (patched_monitor now p ty c b m) = mo_id m"
  "mo_organizationId (patched_monitor now p ty c b m) = mo_organizationId m"
  "mo_checkType (patched_monitor now p ty c b m) = ty"
  "mo_parentId (patched_monitor now p ty c b m) = or_default (mo_parentId m) (mp_parentId p)"
  "mo_specVersion (patched_monitor now p ty c b m) = (if b then mo_specVersion m + 1 else mo_specVersion m)"
  by (simp_all add: patched_monitor_def)

lemma createMonitorE:
  assumes "createMonitor specs newId now actor input d = Inr (d', m)"
  obtains "assert_parent_given d (aa_organizationId actor) None (ci_parentId input) = Inr ()"
    and "db_monitors d' = db_monitors d @ [m]" and "mo_id m = newId" and "mo_organizationId m = aa_organizationId actor"
    and "mo_parentId m = ci_parentId input" and "db_incidents d' = db_incidents d"
proof -
  from assms show ?thesis
    unfolding createMonitor_def
    by (auto simp: Let_def default_monitor_def split: sum.splits intro!: that)
qed

lemma cloneMonitorE:
  assumes "cloneMonitor newId now actor i d = Inr (d', m)"
  obtains source where "source \<in> set (db_monitors d)" and "mo_organizationId source = aa_organizationId actor"
    and "db_monitors d' = db_monitors d @ [m]" and "mo_id m = newId" and "mo_organizationId m = aa_organizationId actor"
    and "mo_parentId m = mo_parentId source" and "mo_paused m" and "mo_shadowBridgeId m = None"
    and "mo_currentStatus m = SUnknown" and "mo_firstFailureAt m = None" and "mo_dockerState m = None"
    and "mo_config m = mo_config source" and "mo_url m = mo_url source" and "db_incidents d' = db_incidents d"
  using assms unfolding cloneMonitor_def
  by (auto simp: Let_def split: option.splits dest!: find_two)

lemma updateMonitorE:
  assumes "updateMonitor specs now actor i input d = Inr (d', m)"
  obtains existing checkType columns where "existing \<in> set (db_monitors d)" and "mo_id existing = i"
    and "mo_organizationId existing = aa_organizationId actor"
    and "checkType = or_default (mo_checkType existing) (mp_checkType input)"
    and "assert_parent_given d (aa_organizationId actor) (Some i) (flatten (mp_parentId input)) = Inr ()"
    and "checkTypeKind (mo_checkType existing) = K_aggregate \<Longrightarrow> checkTypeKind checkType \<noteq> K_aggregate \<Longrightarrow> members d i = []"
    and "m = patched_monitor now
      (input\<lparr>mp_url := map_option (\<lambda>u. restoreTargetSecret u (Some (mo_url existing))) (mp_url input)\<rparr>)
      checkType columns (ruleChanged existing input) existing"
    and "db_monitors d' = map (\<lambda>r. if mo_id r = i then m else r) (db_monitors d)" and "db_incidents d' = db_incidents d"
proof -
  obtain existing where e: "findMonitorOrThrow d (aa_organizationId actor) i = Inr existing"
    using assms unfolding updateMonitor_def by (auto split: sum.splits)
  from assms show ?thesis
    unfolding updateMonitor_def e
    by (auto simp: Let_def findMonitorOrThrowD [OF e] split: sum.splits if_splits intro!: that)
qed

lemma setMonitorPausedE:
  assumes "setMonitorPaused now actor i paused d = Inr (d', m)"
  obtains existing f where "existing \<in> set (db_monitors d)" and "mo_id existing = i"
    and "mo_organizationId existing = aa_organizationId actor"
    and "f = (\<lambda>m. m\<lparr>mo_paused := paused, mo_consecutiveFailures := 0, mo_currentStatus := SUnknown,
        mo_firstFailureAt := None, mo_nextEvaluationAt := initialEvaluationAt now (mo_checkType existing)\<rparr>)"
    and "m = f existing"
    and "db_monitors d' = map (\<lambda>r. if mo_id r = i then f r else r) (db_monitors d)" and "db_incidents d' = db_incidents d"
proof -
  obtain existing where e: "findMonitorOrThrow d (aa_organizationId actor) i = Inr existing"
    using assms unfolding setMonitorPaused_def by (auto split: sum.splits)
  from assms show ?thesis
    unfolding setMonitorPaused_def e
    by (intro that [OF _ _ _ refl]) (auto simp: findMonitorOrThrowD [OF e])
qed

lemma close_orphan_frame [simp]:
  "db_monitors (close_orphan app target actor m r d) = db_monitors d"
  "db_incidents (close_orphan app target actor m r d) = db_incidents d"
  "db_checks (close_orphan app target actor m r d) = db_checks d"
  "db_heartbeats (close_orphan app target actor m r d) = db_heartbeats d"
  by (simp_all add: close_orphan_def Let_def)

lemma close_orphans_frame [simp]:
  "db_monitors (fold (close_orphan app target actor m) rs d) = db_monitors d"
  "db_incidents (fold (close_orphan app target actor m) rs d) = db_incidents d"
  "db_checks (fold (close_orphan app target actor m) rs d) = db_checks d"
  "db_heartbeats (fold (close_orphan app target actor m) rs d) = db_heartbeats d"
  by (induction rs arbitrary: d) simp_all

lemma deleteMonitorE:
  assumes "deleteMonitor app target now actor i d = Inr (d', g)"
  obtains m where "m \<in> set (db_monitors d)" and "mo_id m = i" and "mo_organizationId m = aa_organizationId actor"
    and "g = mo_parentId m"
    and "db_monitors d' = map (\<lambda>r. if mo_parentId r = Some i then r\<lparr>mo_parentId := None\<rparr> else r)
        (filter (\<lambda>r. mo_id r \<noteq> i) (db_monitors d))"
    and "db_incidents d' = map (\<lambda>r. if in_monitorId r = Some i then r\<lparr>in_monitorId := None\<rparr> else r)
        (map (\<lambda>r. if orphans d actor i r then r\<lparr>in_status := Resolved, in_resolvedAt := Some now,
             in_statusRevision := in_statusRevision r + 1\<rparr> else r) (db_incidents d))"
    and "db_checks d' = filter (\<lambda>r. ck_monitorId r \<noteq> i) (db_checks d)"
    and "db_heartbeats d' = filter (\<lambda>r. hb_monitorId r \<noteq> i) (db_heartbeats d)"
proof -
  obtain m where m: "findMonitorOrThrow d (aa_organizationId actor) i = Inr m"
    using assms unfolding deleteMonitor_def by (auto split: sum.splits)
  from assms show ?thesis
    unfolding deleteMonitor_def m
    by (intro that [of m]) (auto simp: Let_def remove_monitor_def findMonitorOrThrowD [OF m])
qed

lemma regenerateE:
  assumes "regeneratePushToken specs endpoint token actor i d = Inr (d', u)"
  obtains config where "db_monitors d' = map (\<lambda>r. if mo_id r = i then r\<lparr>mo_config := config\<rparr> else r) (db_monitors d)"
    and "db_incidents d' = db_incidents d"
proof -
  obtain config where "d' = writeAudit (aa_organizationId actor) (Some (aa_userId actor)) ''monitor.push_token_regenerated''
      (On_monitor i) [(''name'', JStr (mo_name (projr (findMonitorOrThrow d (aa_organizationId actor) i))))]
      (update_monitor i (\<lambda>m. m\<lparr>mo_config := config\<rparr>) d)"
    using assms unfolding regeneratePushToken_def by (auto split: sum.splits if_splits)
  then show ?thesis by (intro that [of config]) simp_all
qed

section \<open>The invariant\<close>

definition membership_inv :: "db \<Rightarrow> bool" where
  "membership_inv d \<longleftrightarrow>
     distinct (map mo_id (db_monitors d)) \<and>
     (\<forall>m \<in> set (db_monitors d). \<forall>p. mo_parentId m = Some p \<longrightarrow>
        (\<exists>g \<in> set (db_monitors d). mo_id g = p \<and> mo_organizationId g = mo_organizationId m \<and>
           checkTypeKind (mo_checkType g) = K_aggregate))"

lemma membership_invI:
  assumes "distinct (map mo_id (db_monitors d))"
    and "\<And>m p. m \<in> set (db_monitors d) \<Longrightarrow> mo_parentId m = Some p \<Longrightarrow>
      \<exists>g \<in> set (db_monitors d). mo_id g = p \<and> mo_organizationId g = mo_organizationId m \<and>
        checkTypeKind (mo_checkType g) = K_aggregate"
  shows "membership_inv d"
  using assms by (simp add: membership_inv_def)

lemma membership_invD:
  assumes "membership_inv d" and "m \<in> set (db_monitors d)" and "mo_parentId m = Some p"
  obtains g where "g \<in> set (db_monitors d)" and "mo_id g = p" and "mo_organizationId g = mo_organizationId m"
    and "checkTypeKind (mo_checkType g) = K_aggregate"
  using assms by (auto simp: membership_inv_def)

lemma assert_parent_givenD:
  assumes "assert_parent_given d org me p = Inr ()" and "p = Some q" and "q \<noteq> []"
  obtains g where "g \<in> set (db_monitors d)" and "mo_id g = q" and "mo_organizationId g = org"
    and "checkTypeKind (mo_checkType g) = K_aggregate" and "Some q \<noteq> me"
    and "\<not> walk_meets d me MAX_GROUP_NESTING (mo_parentId g)"
  using assms unfolding assert_parent_given_def assertParent_def
  by (auto split: if_splits option.splits dest!: find_two intro: that)

text \<open>Updating rows in place keeps the invariant when ids, tenants and groups stay what they are.\<close>

lemma membership_inv_map:
  assumes inv: "membership_inv d" and rows: "db_monitors d' = map f (db_monitors d)"
    and ids: "\<And>m. m \<in> set (db_monitors d) \<Longrightarrow> mo_id (f m) = mo_id m \<and> mo_organizationId (f m) = mo_organizationId m"
    and types: "\<And>m q. m \<in> set (db_monitors d) \<Longrightarrow> checkTypeKind (mo_checkType m) = K_aggregate \<Longrightarrow>
      q \<in> set (db_monitors d) \<Longrightarrow> mo_parentId (f q) = Some (mo_id m) \<Longrightarrow> checkTypeKind (mo_checkType (f m)) = K_aggregate"
    and parents: "\<And>m p. m \<in> set (db_monitors d) \<Longrightarrow> mo_parentId (f m) = Some p \<Longrightarrow>
      \<exists>g \<in> set (db_monitors d). mo_id g = p \<and> mo_organizationId g = mo_organizationId m \<and>
        checkTypeKind (mo_checkType g) = K_aggregate"
  shows "membership_inv d'"
proof (rule membership_invI)
  have "map mo_id (db_monitors d') = map mo_id (db_monitors d)" using ids by (simp add: rows)
  then show "distinct (map mo_id (db_monitors d'))" using inv by (simp add: membership_inv_def)
next
  fix m' p
  assume "m' \<in> set (db_monitors d')" and p: "mo_parentId m' = Some p"
  then obtain m where m: "m \<in> set (db_monitors d)" "m' = f m" by (auto simp: rows)
  with parents p obtain g where g: "g \<in> set (db_monitors d)" "mo_id g = p"
      "mo_organizationId g = mo_organizationId m" "checkTypeKind (mo_checkType g) = K_aggregate" by blast
  then have "checkTypeKind (mo_checkType (f g)) = K_aggregate" using types [of g m] m p by simp
  then show "\<exists>g \<in> set (db_monitors d'). mo_id g = p \<and> mo_organizationId g = mo_organizationId m' \<and>
      checkTypeKind (mo_checkType g) = K_aggregate"
    using g m ids by (intro bexI [of _ "f g"]) (simp_all add: rows)
qed

lemma membership_inv_snoc:
  assumes inv: "membership_inv d" and rows: "db_monitors d' = db_monitors d @ [m]"
    and fresh: "mo_id m \<notin> mo_id ` set (db_monitors d)"
    and parent: "\<And>p. mo_parentId m = Some p \<Longrightarrow> \<exists>g \<in> set (db_monitors d). mo_id g = p \<and>
      mo_organizationId g = mo_organizationId m \<and> checkTypeKind (mo_checkType g) = K_aggregate"
  shows "membership_inv d'"
  using assms unfolding membership_inv_def by auto

text \<open>One committed transaction of an operator, and of anybody.\<close>

inductive operator_step :: "registry \<Rightarrow> string \<Rightarrow> (monitor \<Rightarrow> string) \<Rightarrow> actor \<Rightarrow> db \<Rightarrow> db \<Rightarrow> bool" for specs app target actor where
  create: "createMonitor specs newId now actor input d = Inr (d', m) \<Longrightarrow>
    newId \<notin> mo_id ` set (db_monitors d) \<Longrightarrow> ci_parentId input \<noteq> Some [] \<Longrightarrow> operator_step specs app target actor d d'"
| clone: "cloneMonitor newId now actor i d = Inr (d', m) \<Longrightarrow>
    newId \<notin> mo_id ` set (db_monitors d) \<Longrightarrow> operator_step specs app target actor d d'"
| update: "updateMonitor specs now actor i input d = Inr (d', m) \<Longrightarrow>
    flatten (mp_parentId input) \<noteq> Some [] \<Longrightarrow> operator_step specs app target actor d d'"
| pause: "setMonitorPaused now actor i paused d = Inr (d', m) \<Longrightarrow> operator_step specs app target actor d d'"
| delete: "deleteMonitor app target now actor i d = Inr (d', g) \<Longrightarrow> operator_step specs app target actor d d'"
| token: "regeneratePushToken specs endpoint tok actor i d = Inr (d', u) \<Longrightarrow> operator_step specs app target actor d d'"

inductive monitor_step :: "registry \<Rightarrow> string \<Rightarrow> (monitor \<Rightarrow> string) \<Rightarrow> db \<Rightarrow> db \<Rightarrow> bool" for specs app target where
  by_operator: "operator_step specs app target actor d d' \<Longrightarrow> monitor_step specs app target d d'"
| heartbeat: "monitor_step specs app target d (recordHeartbeat i arrival now d)"

lemma update_membership:
  assumes inv: "membership_inv d" and up: "updateMonitor specs now actor i input d = Inr (d', m)"
    and given: "flatten (mp_parentId input) \<noteq> Some []"
  shows "membership_inv d'"
  using up
proof (rule updateMonitorE)
  fix existing checkType columns
  assume e: "existing \<in> set (db_monitors d)" "mo_id existing = i" "mo_organizationId existing = aa_organizationId actor"
    and ok: "assert_parent_given d (aa_organizationId actor) (Some i) (flatten (mp_parentId input)) = Inr ()"
    and ty: "checkTypeKind (mo_checkType existing) = K_aggregate \<Longrightarrow> checkTypeKind checkType \<noteq> K_aggregate \<Longrightarrow> members d i = []"
    and m: "m = patched_monitor now
      (input\<lparr>mp_url := map_option (\<lambda>u. restoreTargetSecret u (Some (mo_url existing))) (mp_url input)\<rparr>)
      checkType columns (ruleChanged existing input) existing"
    and rows: "db_monitors d' = map (\<lambda>r. if mo_id r = i then m else r) (db_monitors d)"
  have dist: "distinct (map mo_id (db_monitors d))" using inv by (simp add: membership_inv_def)
  have same: "r = existing" if "r \<in> set (db_monitors d)" "mo_id r = i" for r
    using monitor_by_id [OF dist that(1) e(1)] that(2) e(2) by simp
  have par: "mo_parentId m = or_default (mo_parentId existing) (mp_parentId input)"
    and mt: "mo_id m = i" "mo_organizationId m = mo_organizationId existing" "mo_checkType m = checkType"
    using m e by simp_all
  have newpar: "\<exists>g \<in> set (db_monitors d). mo_id g = p \<and> mo_organizationId g = mo_organizationId existing \<and>
      checkTypeKind (mo_checkType g) = K_aggregate \<and> (mp_parentId input \<noteq> None \<longrightarrow> p \<noteq> i)" if p: "mo_parentId m = Some p" for p
  proof (cases "mp_parentId input")
    case None
    then have "mo_parentId existing = Some p" using p par by (simp add: or_default_def)
    then show ?thesis using membership_invD [OF inv e(1)] None by blast
  next
    case (Some q)
    then have "flatten (mp_parentId input) = Some p" using p par by (simp add: or_default_def flatten_def)
    moreover have "p \<noteq> []" using given calculation by auto
    ultimately show ?thesis using assert_parent_givenD [OF ok] e by metis
  qed
  show ?thesis
  proof (rule membership_inv_map [OF inv rows])
    show "mo_id (if mo_id r = i then m else r) = mo_id r \<and>
        mo_organizationId (if mo_id r = i then m else r) = mo_organizationId r" if "r \<in> set (db_monitors d)" for r
      using same [OF that] mt by auto
    show "checkTypeKind (mo_checkType (if mo_id r = i then m else r)) = K_aggregate"
      if r: "r \<in> set (db_monitors d)" "checkTypeKind (mo_checkType r) = K_aggregate" "q \<in> set (db_monitors d)"
        "mo_parentId (if mo_id q = i then m else q) = Some (mo_id r)" for r q
    proof (cases "mo_id r = i")
      case True
      then have ex: "existing = r" using same r by simp
      have "checkTypeKind checkType = K_aggregate"
      proof (rule ccontr)
        assume "checkTypeKind checkType \<noteq> K_aggregate"
        then have none: "members d i = []" using ty ex r by simp
        show False
        proof (cases "mo_id q = i")
          case False
          then have "q \<in> set (members d i)" using r True by (simp add: members_def)
          then show False using none by simp
        next
          case qi: True
          then have pm: "mo_parentId m = Some i" using r True by simp
          then have "mp_parentId input = None" using newpar by blast
          then have "mo_parentId existing = Some i" using pm par by (simp add: or_default_def)
          then have "existing \<in> set (members d i)" using e by (simp add: members_def)
          then show False using none by simp
        qed
      qed
      then show ?thesis using True mt by simp
    qed (simp add: r)
    show "\<exists>g \<in> set (db_monitors d). mo_id g = p \<and> mo_organizationId g = mo_organizationId r \<and>
        checkTypeKind (mo_checkType g) = K_aggregate"
      if r: "r \<in> set (db_monitors d)" "mo_parentId (if mo_id r = i then m else r) = Some p" for r p
    proof (cases "mo_id r = i")
      case True
      then show ?thesis using newpar [of p] r same [of r] by auto
    next
      case False
      then show ?thesis using membership_invD [OF inv r(1)] r(2) by (simp split: if_splits) metis
    qed
  qed
qed

lemma delete_membership:
  assumes inv: "membership_inv d" and del: "deleteMonitor app target now actor i d = Inr (d', g)"
  shows "membership_inv d'"
  using del
proof (rule deleteMonitorE)
  assume rows: "db_monitors d' = map (\<lambda>r. if mo_parentId r = Some i then r\<lparr>mo_parentId := None\<rparr> else r)
      (filter (\<lambda>r. mo_id r \<noteq> i) (db_monitors d))"
  let ?d = "d\<lparr>db_monitors := filter (\<lambda>r. mo_id r \<noteq> i) (db_monitors d)\<rparr>"
  have ids: "map mo_id (db_monitors d') = map mo_id (filter (\<lambda>r. mo_id r \<noteq> i) (db_monitors d))"
    unfolding rows by simp
  show ?thesis
  proof (rule membership_invI)
    show "distinct (map mo_id (db_monitors d'))"
      using inv unfolding ids by (simp add: membership_inv_def distinct_map_filter)
    fix m' p assume "m' \<in> set (db_monitors d')" and p: "mo_parentId m' = Some p"
    then obtain m where m: "m \<in> set (db_monitors d)" "mo_id m \<noteq> i" "mo_parentId m = Some p" "p \<noteq> i" "m' = m"
      by (auto simp: rows split: if_splits)
    obtain g where g: "g \<in> set (db_monitors d)" "mo_id g = p" "mo_organizationId g = mo_organizationId m"
        "checkTypeKind (mo_checkType g) = K_aggregate"
      using membership_invD [OF inv m(1,3)] by blast
    let ?g = "if mo_parentId g = Some i then g\<lparr>mo_parentId := None\<rparr> else g"
    have "?g \<in> set (db_monitors d')" using g m unfolding rows by auto
    then show "\<exists>g \<in> set (db_monitors d'). mo_id g = p \<and> mo_organizationId g = mo_organizationId m' \<and>
        checkTypeKind (mo_checkType g) = K_aggregate"
      using g m by (intro bexI [of _ ?g]) auto
  qed
qed

lemma operator_membership:
  assumes "membership_inv d" and "operator_step specs app target actor d d'"
  shows "membership_inv d'"
  using assms(2,1)
proof cases
  case (create newId now input m)
  from create(1) show ?thesis
  proof (rule createMonitorE)
    assume ok: "assert_parent_given d (aa_organizationId actor) None (ci_parentId input) = Inr ()"
      and rows: "db_monitors d' = db_monitors d @ [m]" and m: "mo_id m = newId"
        "mo_organizationId m = aa_organizationId actor" "mo_parentId m = ci_parentId input"
    have "\<exists>g \<in> set (db_monitors d). mo_id g = p \<and> mo_organizationId g = mo_organizationId m \<and>
        checkTypeKind (mo_checkType g) = K_aggregate" if "mo_parentId m = Some p" for p
      using assert_parent_givenD [OF ok, of p] m that create(3) by fastforce
    then show ?thesis using membership_inv_snoc [OF assms(1) rows] m create(2) by simp
  qed
next
  case (clone newId now i m)
  from clone(1) show ?thesis
  proof (rule cloneMonitorE)
    fix source
    assume src: "source \<in> set (db_monitors d)" "mo_organizationId source = aa_organizationId actor"
      and rows: "db_monitors d' = db_monitors d @ [m]" and m: "mo_id m = newId"
        "mo_organizationId m = aa_organizationId actor" "mo_parentId m = mo_parentId source"
    have "\<exists>g \<in> set (db_monitors d). mo_id g = p \<and> mo_organizationId g = mo_organizationId m \<and>
        checkTypeKind (mo_checkType g) = K_aggregate" if "mo_parentId m = Some p" for p
      using membership_invD [OF assms(1) src(1), of p] m src that by metis
    then show ?thesis using membership_inv_snoc [OF assms(1) rows] m clone(2) by simp
  qed
next
  case (update now i input m)
  with assms(1) show ?thesis by (blast intro: update_membership)
next
  case (pause now i paused m)
  from pause show ?thesis
  proof (rule setMonitorPausedE)
    fix existing f
    assume f: "f = (\<lambda>m. m\<lparr>mo_paused := paused, mo_consecutiveFailures := 0, mo_currentStatus := SUnknown,
        mo_firstFailureAt := None, mo_nextEvaluationAt := initialEvaluationAt now (mo_checkType existing)\<rparr>)"
      and rows: "db_monitors d' = map (\<lambda>r. if mo_id r = i then f r else r) (db_monitors d)"
    show ?thesis
      by (rule membership_inv_map [OF assms(1) rows])
        (auto simp: f elim: membership_invD [OF assms(1)] split: if_splits)
  qed
next
  case (delete now i g)
  with assms(1) show ?thesis by (blast intro: delete_membership)
next
  case (token endpoint tok i u)
  from token show ?thesis
  proof (rule regenerateE)
    fix config
    assume rows: "db_monitors d' = map (\<lambda>r. if mo_id r = i then r\<lparr>mo_config := config\<rparr> else r) (db_monitors d)"
    show ?thesis
      by (rule membership_inv_map [OF assms(1) rows])
        (auto elim: membership_invD [OF assms(1)] split: if_splits)
  qed
qed

lemma membership_step:
  assumes "membership_inv d" and "monitor_step specs app target d d'"
  shows "membership_inv d'"
  using assms(2)
proof cases
  case (by_operator actor)
  with assms(1) show ?thesis by (rule operator_membership)
next
  case (heartbeat i arrival now)
  then have "db_monitors d' = db_monitors d" by (simp add: recordHeartbeat_def Let_def)
  then show ?thesis using assms(1) by (simp add: membership_inv_def)
qed

definition no_monitors :: "db \<Rightarrow> bool" where
  "no_monitors d \<longleftrightarrow> db_monitors d = []"

lemma no_monitors_inv: "no_monitors d \<Longrightarrow> membership_inv d"
  by (simp add: no_monitors_def membership_inv_def)

interpretation membership: state_machine no_monitors "monitor_step specs app target" membership_inv for specs app target
  by unfold_locales (fact no_monitors_inv, rule membership_step)


text \<open>An installation with one group and one member, built by two transactions.\<close>

definition plain_specs :: registry where
  "plain_specs i = Some \<lparr>ts_descriptor = describeCheckType i, ts_secretFields = [], ts_storedSchema = Inr\<rparr>"

definition no_settings :: monitor_settings where
  "no_settings = \<lparr>st_port = None, st_method = None, st_expectedStatusCode = None, st_bodyKeyword = None,
     st_keywordAbsent = None, st_tlsCheck = None, st_tlsWarnDays = None, st_config = None\<rparr>"

definition new_input :: "string \<Rightarrow> string \<Rightarrow> string option \<Rightarrow> create_input" where
  "new_input name type parent = \<lparr>ci_name = name, ci_checkType = type, ci_url = ''https://api.example'', ci_parentId = parent,
     ci_intervalSeconds = 60, ci_timeoutMs = 10000, ci_degradedThresholdMs = 3000, ci_failureWindowSeconds = 120,
     ci_settings = no_settings\<rparr>"

definition operator :: actor where
  "operator = \<lparr>aa_organizationId = ''org'', aa_userId = ''u1''\<rparr>"

definition empty_db :: db where
  "empty_db = sample_db\<lparr>db_monitors := []\<rparr>"

lemma empty_columns:
  "monitorColumnsFor \<lparr>ts_descriptor = t, ts_secretFields = [], ts_storedSchema = Inr\<rparr> no_settings None =
     Inr \<lparr>cw_port = (case dt_port t of None \<Rightarrow> None | Some (_, dflt) \<Rightarrow> dflt), cw_method = GET, cw_expectedStatusCode = None,
       cw_bodyKeyword = None, cw_keywordAbsent = False, cw_tlsCheck = False, cw_tlsWarnDays = 14, cw_config = JObj []\<rparr>"
  by (simp add: monitorColumnsFor_def mergeConfig_def no_settings_def flatten_def or_default_def asRecord_def uses_def
      split: option.splits)

lemma create_ok:
  assumes "assert_parent_given d ''org'' None parent = Inr ()"
  shows "\<exists>d' m. createMonitor plain_specs i now operator (new_input name type parent) d = Inr (d', m) \<and>
    db_monitors d' = db_monitors d @ [m] \<and> mo_id m = i \<and> mo_organizationId m = ''org'' \<and> mo_name m = name \<and>
    mo_checkType m = type \<and> mo_parentId m = parent"
  using assms
  by (simp add: createMonitor_def requireSpec_def plain_specs_def new_input_def operator_def empty_columns Let_def
      default_monitor_def)


section \<open>Cycles\<close>

definition member_rel :: "db \<Rightarrow> (string \<times> string) set" where
  "member_rel d = {(a, b). parent_of d a = Some b}"

text \<open>The group \<open>n\<close> steps above.\<close>

primrec up :: "db \<Rightarrow> nat \<Rightarrow> string option \<Rightarrow> string option" where
  "up d 0 c = c"
| "up d (Suc n) c = up d n (Option.bind c (parent_of d))"

lemma up_None [simp]: "up d n None = None"
  by (induction n) simp_all

lemma walk_meets_sound:
  assumes "\<not> walk_meets d (Some i) n c" and "up d n c = None"
  shows "up d k c \<noteq> Some i"
  using assms
proof (induction n arbitrary: c k)
  case (Suc n)
  show ?case
  proof (cases c)
    case (Some b)
    then show ?thesis using Suc by (cases k) (auto split: if_splits)
  qed simp
qed simp

lemma rtrancl_up: "(a, b) \<in> (member_rel d)\<^sup>* \<Longrightarrow> \<exists>k. up d k (Some a) = Some b"
proof (induction rule: converse_rtrancl_induct)
  case base
  show ?case by (rule exI [of _ 0]) simp
next
  case (step x y)
  then obtain k where "up d k (Some y) = Some b" by blast
  then show ?case using step(1) by (intro exI [of _ "Suc k"]) (simp add: member_rel_def)
qed

lemma parent_of_update:
  assumes "distinct (map mo_id (db_monitors d))" and "e \<in> set (db_monitors d)" and "mo_id e = i" and "mo_id m = i"
    and rows: "db_monitors d' = map (\<lambda>r. if mo_id r = i then m else r) (db_monitors d)"
  shows "parent_of d' a = (if a = i then mo_parentId m else parent_of d a)"
proof -
  have ids: "map mo_id (db_monitors d') = map mo_id (db_monitors d)" using assms(4) by (simp add: rows)
  have mem: "r \<in> set (db_monitors d') \<longleftrightarrow> r = m \<or> r \<in> set (db_monitors d) \<and> mo_id r \<noteq> i" for r
    unfolding rows using assms(2,3) by auto
  have dist: "distinct (map mo_id (db_monitors d'))" using assms(1) ids by simp
  show ?thesis
  proof (cases "a = i")
    case True
    have "find_monitor d' i = Some m" using find_monitor_iff [OF dist] mem assms(4) by simp
    with True show ?thesis by (simp add: parent_of_def)
  next
    case False
    have "find_monitor d' a = Some r \<longleftrightarrow> find_monitor d a = Some r" for r
      using False mem [of r] assms(4) find_monitor_iff [OF dist, of a r] find_monitor_iff [OF assms(1), of a r] by auto
    then have "find_monitor d' a = find_monitor d a" by (metis not_None_eq)
    with False show ?thesis by (simp add: parent_of_def)
  qed
qed

text \<open>
  an edit keeps the groups free of cycles, as long as the chain above the chosen
  group is no longer than the walk of \<open>assertParent\<close>.
\<close>

theorem update_keeps_groups_acyclic:
  assumes "membership_inv d" and "acyclic (member_rel d)"
    and "updateMonitor specs now actor i input d = Inr (d', m)"
    and "\<forall>p. flatten (mp_parentId input) = Some p \<longrightarrow> p \<noteq> [] \<and> up d MAX_GROUP_NESTING (parent_of d p) = None"
  shows "acyclic (member_rel d')"
  using assms(3)
proof (rule updateMonitorE)
  fix existing checkType columns
  assume e: "existing \<in> set (db_monitors d)" "mo_id existing = i"
    and ok: "assert_parent_given d (aa_organizationId actor) (Some i) (flatten (mp_parentId input)) = Inr ()"
    and m: "m = patched_monitor now
      (input\<lparr>mp_url := map_option (\<lambda>u. restoreTargetSecret u (Some (mo_url existing))) (mp_url input)\<rparr>)
      checkType columns (ruleChanged existing input) existing"
    and rows: "db_monitors d' = map (\<lambda>r. if mo_id r = i then m else r) (db_monitors d)"
  have dist: "distinct (map mo_id (db_monitors d))" using assms(1) by (simp add: membership_inv_def)
  have par: "mo_parentId m = or_default (mo_parentId existing) (mp_parentId input)" "mo_id m = i" using m e by simp_all
  have parent: "parent_of d' a = (if a = i then mo_parentId m else parent_of d a)" for a
    using parent_of_update [OF dist e par(2) rows] .
  let ?R0 = "{(a, b) \<in> member_rel d. a \<noteq> i}"
  have ac0: "acyclic ?R0" using assms(2) by (rule acyclic_subset) auto
  show ?thesis
  proof (cases "mp_parentId input")
    case None
    have "parent_of d i = mo_parentId existing" using find_monitor_iff [OF dist, of i existing] e by (simp add: parent_of_def)
    then have "parent_of d' a = parent_of d a" for a using par None parent [of a] by (simp add: or_default_def)
    then have "member_rel d' = member_rel d" by (simp add: member_rel_def)
    then show ?thesis using assms(2) by simp
  next
    case (Some q)
    show ?thesis
    proof (cases q)
      case None
      then have "member_rel d' = ?R0" using Some par parent by (auto simp: member_rel_def or_default_def split: if_splits)
      then show ?thesis using ac0 by simp
    next
      case (Some p)
      then have fl: "flatten (mp_parentId input) = Some p" using \<open>mp_parentId input = Some q\<close> by (simp add: flatten_def)
      then have p: "p \<noteq> []" "up d MAX_GROUP_NESTING (parent_of d p) = None" using assms(4) by auto
      obtain g where g: "g \<in> set (db_monitors d)" "mo_id g = p" "Some p \<noteq> Some i"
          "\<not> walk_meets d (Some i) MAX_GROUP_NESTING (mo_parentId g)"
        using assert_parent_givenD [OF ok fl p(1)] by blast
      have "parent_of d p = mo_parentId g" using find_monitor_iff [OF dist, of p g] g by (simp add: parent_of_def)
      then have never: "up d k (parent_of d p) \<noteq> Some i" for k
        using walk_meets_sound [OF g(4)] p(2) by simp
      have "(p, i) \<notin> (member_rel d)\<^sup>*"
      proof
        assume "(p, i) \<in> (member_rel d)\<^sup>*"
        then obtain k where "up d k (Some p) = Some i" using rtrancl_up by blast
        then show False using g(3) never by (cases k) auto
      qed
      then have "(p, i) \<notin> ?R0\<^sup>*" using rtrancl_mono [of ?R0 "member_rel d"] by auto
      moreover have "member_rel d' = insert (i, p) ?R0"
        using \<open>mp_parentId input = Some q\<close> Some par parent by (auto simp: member_rel_def or_default_def split: if_splits)
      ultimately show ?thesis using ac0 by (simp add: acyclic_insert)
    qed
  qed
qed

definition no_patch :: monitor_patch where
  "no_patch = \<lparr>mp_name = None, mp_checkType = None, mp_url = None, mp_parentId = None, mp_intervalSeconds = None,
     mp_timeoutMs = None, mp_degradedThresholdMs = None, mp_failureWindowSeconds = None, mp_settings = no_settings\<rparr>"

text \<open>\<open>n\<close> groups, each inside the one before it.\<close>

definition nested_groups :: "nat \<Rightarrow> db" where
  "nested_groups n = sample_db\<lparr>db_monitors := map (\<lambda>k. sample_monitor\<lparr>mo_id := show_nat k, mo_checkType := ''group'',
     mo_parentId := (if k = 0 then None else Some (show_nat (k - 1)))\<rparr>) [0..<n]\<rparr>"

definition moved_under :: "string \<Rightarrow> string \<Rightarrow> db \<Rightarrow> db option" where
  "moved_under i p d = (case updateMonitor plain_specs 0 operator i (no_patch\<lparr>mp_parentId := Some (Some p)\<rparr>) d of
     Inl _ \<Rightarrow> None | Inr (d', _) \<Rightarrow> Some d')"

lemma nested_two:
  "db_monitors (nested_groups 2) =
     [sample_monitor\<lparr>mo_id := ''0'', mo_checkType := ''group'', mo_parentId := None\<rparr>,
      sample_monitor\<lparr>mo_id := ''1'', mo_checkType := ''group'', mo_parentId := Some ''0''\<rparr>]"
proof -
  have "show_nat 0 = ''0''" "show_nat 1 = ''1''" by code_simp+
  moreover have "[0..<2] = [0, 1::nat]" by code_simp
  ultimately show ?thesis by (simp add: nested_groups_def)
qed

theorem update_keeps_groups_acyclic_witness:
  "\<exists>d' m. updateMonitor plain_specs 0 operator ''1'' (no_patch\<lparr>mp_parentId := Some (Some ''0'')\<rparr>) (nested_groups 2) = Inr (d', m) \<and>
     acyclic (member_rel d')"
proof -
  have ids: "mo_organizationId sample_monitor = ''org''" by (simp add: sample_monitor_def)
  have parent: "parent_of (nested_groups 2) a = (if a = ''1'' then Some ''0'' else None)" for a
    by (simp add: parent_of_def find_monitor_def nested_two)
  have "\<not> Option.is_none (moved_under ''1'' ''0'' (nested_groups 2))" by code_simp
  then obtain d' m where u: "updateMonitor plain_specs 0 operator ''1'' (no_patch\<lparr>mp_parentId := Some (Some ''0'')\<rparr>) (nested_groups 2) = Inr (d', m)"
    by (auto simp: moved_under_def Option.is_none_def split: sum.splits)
  have "membership_inv (nested_groups 2)"
    by (simp add: membership_inv_def nested_two ids checkTypeKind_aggregate)
  moreover have "acyclic (member_rel (nested_groups 2))"
  proof -
    have "member_rel (nested_groups 2) = {(''1'', ''0'')}" using parent by (auto simp: member_rel_def split: if_splits)
    then show ?thesis by (simp add: acyclic_insert) (simp add: acyclic_def)
  qed
  moreover have "\<forall>p. flatten (mp_parentId (no_patch\<lparr>mp_parentId := Some (Some ''0'')\<rparr>)) = Some p \<longrightarrow>
      p \<noteq> [] \<and> up (nested_groups 2) MAX_GROUP_NESTING (parent_of (nested_groups 2) p) = None"
    using parent by (simp add: flatten_def)
  ultimately show ?thesis using update_keeps_groups_acyclic [OF _ _ u] u by blast
qed

text \<open>
  Past that depth the walk stops before it has seen the whole chain. Ten nested groups
  can be closed into a cycle by one edit, which the comments of \<open>assertParent\<close> (``at any
  distance'') and of \<open>outcome.ts\<close> (``a cycle cannot be created through the service
  layer'') rule out; nine cannot.
\<close>

lemma deep_cycle_accepted:
  "map_option (\<lambda>d. up d 10 (Some ''0'')) (moved_under ''0'' ''9'' (nested_groups 10)) = Some (Some ''0'')"
  by code_simp

lemma shallow_cycle_refused: "Option.is_none (moved_under ''0'' ''8'' (nested_groups 9))"
  by code_simp

end
