(* ===== verification/Monitor_Edits.thy ===== *)
theory Monitor_Edits
  imports Membership
begin

text \<open>
  What the operator's transactions of \<open>Monitors\<close> change and what they leave alone: an
  edit against the observed state, a clone against its original, one tenant against the
  others, a deleted monitor against the rows that pointed at it, a heartbeat against the
  other monitors.
\<close>

section \<open>Editing\<close>

text \<open>The state the checks maintain, and the tenant.\<close>

definition observed_part ::
  "monitor \<Rightarrow> string \<times> string \<times> bool \<times> string option \<times> monitor_status \<times> int \<times> date option \<times> date option \<times> date option \<times>
    docker_check_state option \<times> bool" where
  "observed_part m =
     (mo_id m, mo_organizationId m, mo_paused m, mo_shadowBridgeId m, mo_currentStatus m, mo_consecutiveFailures m,
      mo_firstFailureAt m, mo_lastCheckedAt m, mo_dispatchClaimedUntil m, mo_dockerState m, mo_highFrequency m)"

lemma patched_observed: "observed_part (patched_monitor now p ty c b m) = observed_part m"
  by (simp add: observed_part_def patched_monitor_def)

text \<open>
  an edit never touches what the checks observed. The run of failures, the status,
  the claim, the restart memory, the pause and the shadow flag are the ones the row
  had, so neither widening nor narrowing a failure window restarts the clock; and the
  version of the rule moves by one exactly when the rule was compared as changed.
\<close>

theorem update_keeps_observed_state:
  assumes "membership_inv d" and "updateMonitor specs now actor i input d = Inr (d', m)"
  shows "\<exists>existing. find_monitor d i = Some existing \<and> find_monitor d' i = Some m \<and>
    observed_part m = observed_part existing \<and>
    mo_specVersion m = mo_specVersion existing + (if ruleChanged existing input then 1 else 0)"
  using assms(2)
proof (rule updateMonitorE)
  fix existing checkType columns
  assume e: "existing \<in> set (db_monitors d)" "mo_id existing = i"
    and m: "m = patched_monitor now
      (input\<lparr>mp_url := map_option (\<lambda>u. restoreTargetSecret u (Some (mo_url existing))) (mp_url input)\<rparr>)
      checkType columns (ruleChanged existing input) existing"
    and rows: "db_monitors d' = map (\<lambda>r. if mo_id r = i then m else r) (db_monitors d)"
  have dist: "distinct (map mo_id (db_monitors d))" using assms(1) by (simp add: membership_inv_def)
  have "map mo_id (db_monitors d') = map mo_id (db_monitors d)" using m e by (simp add: rows)
  then have "distinct (map mo_id (db_monitors d'))" using dist by simp
  moreover have "m \<in> set (db_monitors d')" "mo_id m = i" using e m by (auto simp: rows)
  ultimately have "find_monitor d' i = Some m" by (simp add: find_monitor_iff)
  moreover have "find_monitor d i = Some existing" using find_monitor_iff [OF dist] e by simp
  ultimately show ?thesis using m patched_observed by auto
qed

definition sample_rename :: monitor_patch where
  "sample_rename = no_patch\<lparr>mp_name := Some ''renamed'', mp_failureWindowSeconds := Some 0\<rparr>"

lemma sample_membership: "membership_inv sample_db"
  by (simp add: membership_inv_def sample_db_def sample_monitor_def)

lemma sample_update_ok: "\<not> isl (updateMonitor plain_specs 5 operator ''m1'' sample_rename sample_db)"
  by code_simp

theorem update_keeps_observed_state_witness:
  "\<exists>d' m. updateMonitor plain_specs 5 operator ''m1'' sample_rename sample_db = Inr (d', m) \<and>
     mo_firstFailureAt m = Some 0 \<and> mo_currentStatus m = SDown"
proof -
  obtain d' m where u: "updateMonitor plain_specs 5 operator ''m1'' sample_rename sample_db = Inr (d', m)"
    using sample_update_ok by (cases "updateMonitor plain_specs 5 operator ''m1'' sample_rename sample_db") auto
  have "find_monitor sample_db ''m1'' = Some sample_monitor"
    by (simp add: find_monitor_def sample_db_def sample_monitor_def)
  then show ?thesis
    using update_keeps_observed_state [OF sample_membership u] u by (auto simp: observed_part_def sample_monitor_def)
qed

text \<open>
  The version is compared on what the browser sent, not on the patch with the password
  put back, although the comment in \<open>updateMonitor\<close> says that \<open>ruleChanged\<close> reads the
  restored target: saving a monitor whose target holds a password, without touching
  anything, makes a new version of an unchanged rule.
\<close>

definition secret_monitor_db :: db where
  "secret_monitor_db = sample_db\<lparr>db_monitors := [sample_monitor\<lparr>mo_url := ''postgres://app:pw@db/x''\<rparr>]\<rparr>"

lemma masked_save_bumps_version:
  "(case updateMonitor plain_specs 5 operator ''m1''
       (no_patch\<lparr>mp_url := Some (maskTargetSecret ''postgres://app:pw@db/x'')\<rparr>) secret_monitor_db of
      Inl _ \<Rightarrow> False
    | Inr (_, m) \<Rightarrow> mo_url m = ''postgres://app:pw@db/x'' \<and> mo_specVersion m = 2)"
  by code_simp

section \<open>Cloning\<close>

text \<open>
  a clone has the settings and the credentials of its original and none of its
  state: it is paused, has observed nothing, belongs to no migration, and is not due.
\<close>

theorem clone_carries_no_state:
  assumes "membership_inv d" and "newId \<notin> mo_id ` set (db_monitors d)"
    and "cloneMonitor newId now actor i d = Inr (d', m)"
  shows "\<exists>source. find_monitor d i = Some source \<and> mo_organizationId source = aa_organizationId actor \<and>
    find_monitor d' newId = Some m \<and> find_monitor d' i = Some source \<and>
    monitor_view m = monitor_view source \<and>
    observed_part m = (newId, aa_organizationId actor, True, None, SUnknown, 0, None, None, None, None, mo_highFrequency source) \<and>
    \<not> dueCondition UNSCHEDULED_CHECK_TYPE_IDS None t m"
proof -
  obtain source where f: "List.find (\<lambda>m. mo_id m = i \<and> mo_organizationId m = aa_organizationId actor) (db_monitors d) = Some source"
    using assms(3) unfolding cloneMonitor_def by (auto split: option.splits)
  note src = find_two [OF f]
  have m: "m = source\<lparr>mo_id := newId, mo_createdAt := now, mo_importSource := None, mo_importSourceId := None,
        mo_shadowBridgeId := None, mo_dockerState := None,
        mo_createdBy := Some (aa_userId actor), mo_name := cloneName (mo_name source), mo_paused := True,
        mo_currentStatus := SUnknown, mo_consecutiveFailures := 0, mo_firstFailureAt := None,
        mo_lastCheckedAt := None, mo_tlsDaysRemaining := None, mo_nextEvaluationAt := None,
        mo_dispatchClaimedUntil := None\<rparr>"
    and rows: "db_monitors d' = db_monitors d @ [m]"
    using assms(3) f unfolding cloneMonitor_def by (auto simp: Let_def)
  have dist: "distinct (map mo_id (db_monitors d))" using assms(1) by (simp add: membership_inv_def)
  have "mo_id m = newId" by (simp add: m)
  then have dist': "distinct (map mo_id (db_monitors d'))" using dist assms(2) by (simp add: rows)
  have "find_monitor d i = Some source" "find_monitor d' newId = Some m" "find_monitor d' i = Some source"
    using find_monitor_iff [OF dist] find_monitor_iff [OF dist'] src by (simp_all add: rows m)
  then show ?thesis
    using src by (simp add: m monitor_view_def observed_part_def dueCondition_def)
qed

theorem clone_carries_no_state_witness:
  "\<exists>d' m. cloneMonitor ''m2'' 9 operator ''m1'' sample_db = Inr (d', m) \<and> mo_paused m \<and> mo_currentStatus m = SUnknown"
proof -
  have "\<not> isl (cloneMonitor ''m2'' 9 operator ''m1'' sample_db)" by code_simp
  then obtain d' m where c: "cloneMonitor ''m2'' 9 operator ''m1'' sample_db = Inr (d', m)"
    by (cases "cloneMonitor ''m2'' 9 operator ''m1'' sample_db") auto
  have "''m2'' \<notin> mo_id ` set (db_monitors sample_db)" by (simp add: sample_db_def sample_monitor_def)
  then show ?thesis using clone_carries_no_state [OF sample_membership _ c, of 0] c by (auto simp: observed_part_def)
qed

subsection \<open>Names of copies\<close>

lemma strip_suffix_append [simp]: "strip_suffix suf (x @ suf) = Some x"
  by (simp add: strip_suffix_def)

lemma read_nat_append: "read_nat a (xs @ ys) = read_nat (read_nat a xs) ys"
  by (induction xs arbitrary: a) simp_all

lemma of_digit_char: "k < 10 \<Longrightarrow> of_char (digit_char k) - (48::nat) = k"
  by (simp add: digit_char_def nth_Cons' numeral_eq_Suc less_Suc_eq) auto

lemma read_show_nat: "read_nat 0 (show_nat n) = n"
proof (induction n rule: show_nat.induct)
  case (1 n)
  then show ?case by (subst show_nat.simps) (auto simp: read_nat_append of_digit_char)
qed

lemma trailing_digits_append:
  assumes "list_all is_digit ds" and "\<not> is_digit c"
  shows "trailing_digits (x @ c # ds) = ds"
proof -
  have "takeWhile is_digit (rev ds @ c # rev x) = rev ds"
    using assms by (simp add: takeWhile_tail list_all_iff)
  then show ?thesis by (simp add: trailing_digits_def)
qed

definition copy_name :: "string \<Rightarrow> nat \<Rightarrow> string" where
  "copy_name b n =
     (if n = 0 then b else if n = 1 then b @ '' (copy)'' else b @ '' (copy '' @ show_nat n @ '')'')"

lemma copy_suffix_numbered: "copy_suffix (b @ '' (copy '' @ show_nat n @ '')'') = Some (b, Some n)"
proof -
  let ?s = "b @ '' (copy '' @ show_nat n @ '')''"
  obtain ds c where sn: "show_nat n = ds @ [c]" "is_digit c"
    using show_nat_digits [of n] by (metis append_butlast_last_id last_in_set list_all_iff)
  have "drop k ?s \<noteq> '' (copy)''" for k
  proof
    assume "drop k ?s = '' (copy)''"
    then have "rev ?s = rev (take k ?s @ '' (copy)'')" by (metis append_take_drop_id)
    then have "CHR '')'' # c # rev (b @ '' (copy '' @ ds) = CHR '')'' # CHR ''y'' # rev (take k ?s @ '' (cop'')"
      unfolding sn(1) by simp
    then show False using sn(2) by (auto simp: is_digit_def)
  qed
  then have "strip_suffix '' (copy)'' ?s = None" by (simp only: strip_suffix_def simp_thms if_False)
  moreover have "strip_suffix '')'' ?s = Some (b @ '' (copy '' @ show_nat n)"
    using strip_suffix_append [of "'')''" "b @ '' (copy '' @ show_nat n"] by simp
  moreover have "trailing_digits (b @ '' (copy '' @ show_nat n) = show_nat n"
    using trailing_digits_append [of "show_nat n" "CHR '' ''" "b @ '' (copy''"] show_nat_digits [of n]
    by (simp add: is_digit_def)
  moreover have "strip_suffix '' (copy '' (b @ '' (copy '') = Some b" by (rule strip_suffix_append)
  ultimately show ?thesis
    using show_nat_digits [of n] by (simp add: copy_suffix_def Let_def read_show_nat)
qed

lemma copy_suffix_first: "copy_suffix (b @ '' (copy)'') = Some (b, None)"
  by (simp add: copy_suffix_def del: append.simps)

text \<open>
  copies are numbered, not nested. From a name that is not itself the name of a
  copy, cloning clones gives \<open>(copy)\<close>, \<open>(copy 2)\<close>, \<open>(copy 3)\<close> and so on for as long as
  the name fits in its hundred characters, and no name is ever longer than that.
\<close>

theorem clone_names_are_numbered:
  assumes "copy_suffix b = None" and "\<not> list_ex line_terminator b" and "\<forall>k \<le> n. length (copy_name b k) \<le> 100"
  shows "(cloneName ^^ n) b = copy_name b n \<and> length (cloneName x) \<le> 100"
proof -
  have step: "cloneName (copy_name b k) = take 100 (copy_name b (Suc k))" for k
    using assms(1,2)
    by (cases k) (auto simp: cloneName_def copy_name_def copy_suffix_first [simplified] copy_suffix_numbered [simplified] numeral_2_eq_2)
  have "(cloneName ^^ k) b = copy_name b k" if "k \<le> n" for k
    using that
  proof (induction k)
    case (Suc k)
    then show ?case using step [of k] assms(3) by simp
  qed (simp add: copy_name_def)
  moreover have "length (cloneName x) \<le> 100"
    unfolding cloneName_def by (cases "copy_suffix x") (auto split: prod.splits simp del: take_append)
  ultimately show ?thesis by simp
qed

theorem clone_names_are_numbered_witness:
  "(cloneName ^^ 2) ''Checkout'' = ''Checkout (copy 2)''"
proof -
  have "show_nat 2 = ''2''" by code_simp
  then have n: "copy_name ''Checkout'' 2 = ''Checkout (copy 2)''" by (simp add: copy_name_def)
  have "copy_suffix ''Checkout'' = None" by code_simp
  moreover have "\<not> list_ex line_terminator ''Checkout''" by (simp add: line_terminator_def)
  moreover have "\<forall>k \<le> 2. length (copy_name ''Checkout'' k) \<le> 100"
  proof (intro allI impI)
    fix k :: nat assume "k \<le> 2"
    then consider "k = 0" | "k = 1" | "k = 2" by linarith
    then show "length (copy_name ''Checkout'' k) \<le> 100" by cases (simp_all only: n, simp_all add: copy_name_def)
  qed
  ultimately show ?thesis using clone_names_are_numbered [of "''Checkout''" 2 "[]"] n by simp
qed

section \<open>Tenants\<close>

definition tenant_monitors :: "string \<Rightarrow> db \<Rightarrow> monitor list" where
  "tenant_monitors org d = filter (\<lambda>m. mo_organizationId m = org) (db_monitors d)"

definition tenant_incidents :: "string \<Rightarrow> db \<Rightarrow> incident list" where
  "tenant_incidents org d = filter (\<lambda>r. in_organizationId r = org) (db_incidents d)"

text \<open>An incident belongs to the tenant of its monitor.\<close>

definition incident_tenancy :: "db \<Rightarrow> bool" where
  "incident_tenancy d \<longleftrightarrow> (\<forall>r \<in> set (db_incidents d). \<forall>m \<in> set (db_monitors d).
     in_monitorId r = Some (mo_id m) \<longrightarrow> in_organizationId r = mo_organizationId m)"

lemma filter_map_untouched:
  assumes "\<And>x. x \<in> set xs \<Longrightarrow> P (f x) \<longleftrightarrow> P x" and "\<And>x. x \<in> set xs \<Longrightarrow> P x \<Longrightarrow> f x = x"
  shows "filter P (map f xs) = filter P xs"
  using assms by (induction xs) auto

lemma tenant_update:
  assumes "membership_inv d" and "e \<in> set (db_monitors d)" and "mo_id e = i" and "mo_organizationId e \<noteq> other"
    and "\<And>r. r \<in> set (db_monitors d) \<Longrightarrow> mo_id r = i \<Longrightarrow> mo_organizationId (f r) = mo_organizationId r"
    and "db_monitors d' = map (\<lambda>r. if mo_id r = i then f r else r) (db_monitors d)"
  shows "tenant_monitors other d' = tenant_monitors other d"
proof -
  have "r = e" if "r \<in> set (db_monitors d)" "mo_id r = i" for r
    using assms(1,2,3) that monitor_by_id by (metis membership_inv_def)
  then show ?thesis
    unfolding tenant_monitors_def assms(6) using assms(4,5) by (intro filter_map_untouched) auto
qed


definition shared_db :: db where
  "shared_db = sample_db\<lparr>db_monitors := [sample_monitor, sample_monitor\<lparr>mo_id := ''m9'', mo_organizationId := ''other''\<rparr>]\<rparr>"


section \<open>Deleting\<close>

lemma close_orphans_intents:
  assumes "r \<in> set rs" and "in_notifiedAt r \<noteq> None"
  shows "has_intent (fold (close_orphan app target actor m) rs d) (cause_key (in_id r) Incident_resolved None)"
proof -
  have keep: "has_intent (close_orphan app target actor m q d) k" if "has_intent d k" for q d k
    using that by (simp add: close_orphan_def Let_def has_intent_def recordDispatchIntent_def)
  have kept: "has_intent (fold (close_orphan app target actor m) qs d) k" if "has_intent d k" for qs d k
    using that by (induction qs arbitrary: d) (simp_all add: keep)
  show ?thesis
    using assms(1)
  proof (induction rs arbitrary: d)
    case (Cons q rs)
    show ?case
    proof (cases "q = r")
      case True
      have "has_intent (close_orphan app target actor m r d) (cause_key (in_id r) Incident_resolved None)"
        using assms(2) by (auto simp: close_orphan_def Let_def)
      then show ?thesis using True kept by simp
    qed (use Cons in simp)
  qed simp
qed

text \<open>
  C36: deleting a monitor leaves nothing behind that points at it and no outage open
  that nobody could close. Its open automatic incidents are resolved, every one that
  had been announced has its all-clear recorded in the same transaction, its members
  are released and its history is gone.
\<close>

theorem delete_leaves_nothing_dangling:
  assumes "deleteMonitor app target now actor i d = Inr (d', g)" and "incident_tenancy d"
  shows "find_monitor d' i = None \<and> members d' i = [] \<and>
    (\<forall>c \<in> set (db_checks d'). ck_monitorId c \<noteq> i) \<and> lastHeartbeat i d' = None \<and>
    (\<forall>r \<in> set (db_incidents d'). in_monitorId r \<noteq> Some i) \<and>
    (\<forall>r \<in> set (db_incidents d). in_monitorId r = Some i \<and> in_source r = Src_monitor \<and> in_status r \<noteq> Resolved \<longrightarrow>
       (\<exists>r' \<in> set (db_incidents d'). in_id r' = in_id r \<and> in_status r' = Resolved \<and> in_resolvedAt r' = Some now) \<and>
       (in_notifiedAt r \<noteq> None \<longrightarrow> has_intent d' (cause_key (in_id r) Incident_resolved None)))"
  using assms(1)
proof (rule deleteMonitorE)
  fix m
  assume m: "m \<in> set (db_monitors d)" "mo_id m = i" "mo_organizationId m = aa_organizationId actor"
    and rows: "db_monitors d' = map (\<lambda>r. if mo_parentId r = Some i then r\<lparr>mo_parentId := None\<rparr> else r)
        (filter (\<lambda>r. mo_id r \<noteq> i) (db_monitors d))"
    and incs: "db_incidents d' = map (\<lambda>r. if in_monitorId r = Some i then r\<lparr>in_monitorId := None\<rparr> else r)
        (map (\<lambda>r. if orphans d actor i r then r\<lparr>in_status := Resolved, in_resolvedAt := Some now,
             in_statusRevision := in_statusRevision r + 1\<rparr> else r) (db_incidents d))"
    and rest: "db_checks d' = filter (\<lambda>r. ck_monitorId r \<noteq> i) (db_checks d)"
      "db_heartbeats d' = filter (\<lambda>r. hb_monitorId r \<noteq> i) (db_heartbeats d)"
  have "find_monitor d' i = None" by (auto simp: find_monitor_def find_None_iff rows)
  moreover have "members d' i = []" by (auto simp: members_def filter_nil_iff rows)
  moreover have "\<forall>c \<in> set (db_checks d'). ck_monitorId c \<noteq> i" by (simp add: rest)
  moreover have "lastHeartbeat i d' = None" by (auto simp: lastHeartbeat_def find_None_iff rest)
  moreover have "\<forall>r \<in> set (db_incidents d'). in_monitorId r \<noteq> Some i" by (auto simp: incs)
  moreover have "(\<exists>r' \<in> set (db_incidents d'). in_id r' = in_id r \<and> in_status r' = Resolved \<and> in_resolvedAt r' = Some now) \<and>
      (in_notifiedAt r \<noteq> None \<longrightarrow> has_intent d' (cause_key (in_id r) Incident_resolved None))"
    if r: "r \<in> set (db_incidents d)" "in_monitorId r = Some i" "in_source r = Src_monitor" "in_status r \<noteq> Resolved" for r
  proof
    let ?close = "\<lambda>r. r\<lparr>in_status := Resolved, in_resolvedAt := Some now, in_statusRevision := in_statusRevision r + 1\<rparr>"
    have orph: "orphans d actor i r"
      using r m assms(2) by (auto simp: orphans_def incident_tenancy_def)
    then have "(?close r)\<lparr>in_monitorId := None\<rparr> \<in> set (db_incidents d')"
      unfolding incs using r by force
    then show "\<exists>r' \<in> set (db_incidents d'). in_id r' = in_id r \<and> in_status r' = Resolved \<and> in_resolvedAt r' = Some now"
      by (intro bexI) simp_all
    show "in_notifiedAt r \<noteq> None \<longrightarrow> has_intent d' (cause_key (in_id r) Incident_resolved None)"
    proof
      assume "in_notifiedAt r \<noteq> None"
      moreover have "?close r \<in> set (map ?close (filter (orphans d actor i) (db_incidents d)))" using r orph by auto
      ultimately have intent: "has_intent (fold (close_orphan app target actor mon)
          (map ?close (filter (orphans d actor i) (db_incidents d))) d0) (cause_key (in_id r) Incident_resolved None)" for d0 mon
        using close_orphans_intents [of "?close r"] by (simp del: set_map)
      obtain mon where "findMonitorOrThrow d (aa_organizationId actor) i = Inr mon"
        using assms(1) unfolding deleteMonitor_def by (auto split: sum.splits)
      then show "has_intent d' (cause_key (in_id r) Incident_resolved None)"
        using assms(1) intent unfolding deleteMonitor_def
        by (auto simp: Let_def has_intent_def remove_monitor_def writeAudit_def)
    qed
  qed
  ultimately show ?thesis by blast
qed

definition announced_incident :: incident where
  "announced_incident = (new_incident 0 ''org'' ''api is down'' Critical 0)
     \<lparr>in_source := Src_monitor, in_monitorId := Some ''m1'', in_notifiedAt := Some 1\<rparr>"

definition announced_db :: db where
  "announced_db = sample_db\<lparr>db_incidents := [announced_incident], db_nextId := 1\<rparr>"

theorem delete_leaves_nothing_dangling_witness:
  "\<exists>d' g. deleteMonitor ''https://v'' mo_url 9 operator ''m1'' announced_db = Inr (d', g) \<and>
     has_intent d' (cause_key 0 Incident_resolved None)"
proof -
  have "\<not> isl (deleteMonitor ''https://v'' mo_url 9 operator ''m1'' announced_db)" by code_simp
  then obtain d' g where r: "deleteMonitor ''https://v'' mo_url 9 operator ''m1'' announced_db = Inr (d', g)"
    by (cases "deleteMonitor ''https://v'' mo_url 9 operator ''m1'' announced_db") auto
  have "incident_tenancy announced_db"
    by (simp add: incident_tenancy_def announced_db_def announced_incident_def new_incident_def sample_db_def sample_monitor_def)
  then show ?thesis
    using delete_leaves_nothing_dangling [OF r] r
    by (auto simp: announced_db_def announced_incident_def new_incident_def)
qed

section \<open>Heartbeats\<close>

text \<open>
  the heartbeat table answers one question. After an arrival the last heartbeat of
  its monitor is that arrival, whatever was there before; nobody else's changed, and a
  table with one row per monitor still has one.
\<close>

theorem last_heartbeat_wins:
  assumes "distinct (map hb_monitorId (db_heartbeats d))"
  shows "lastHeartbeat i (recordHeartbeat i arrival now d) = Some (now, arrival) \<and>
    (\<forall>j. j \<noteq> i \<longrightarrow> lastHeartbeat j (recordHeartbeat i arrival now d) = lastHeartbeat j d) \<and>
    distinct (map hb_monitorId (db_heartbeats (recordHeartbeat i arrival now d))) \<and>
    db_monitors (recordHeartbeat i arrival now d) = db_monitors d \<and>
    db_incidents (recordHeartbeat i arrival now d) = db_incidents d"
proof -
  define row where "row = \<lparr>hb_monitorId = i, hb_receivedAt = now, hb_reportedStatus = hr_status arrival,
      hb_message = hr_message arrival, hb_responseTimeMs = hr_responseTimeMs arrival\<rparr>"
  have row: "hb_monitorId row = i" "hb_receivedAt row = now"
      "\<lparr>hr_status = hb_reportedStatus row, hr_message = hb_message row, hr_responseTimeMs = hb_responseTimeMs row\<rparr> = arrival"
    by (simp_all add: row_def)
  have upd: "List.find (\<lambda>r. hb_monitorId r = j) (map (\<lambda>r. if hb_monitorId r = i then row else r) rs) =
      (if j = i then (if \<exists>r \<in> set rs. hb_monitorId r = i then Some row else None)
       else List.find (\<lambda>r. hb_monitorId r = j) rs)" for j rs
    by (induction rs) (auto simp: row)
  have add: "List.find (\<lambda>r. hb_monitorId r = j) (rs @ [row]) =
      (case List.find (\<lambda>r. hb_monitorId r = j) rs of Some r \<Rightarrow> Some r | None \<Rightarrow> if j = i then Some row else None)" for j rs
    by (induction rs) (auto simp: row)
  have ids: "map (hb_monitorId \<circ> (\<lambda>r. if hb_monitorId r = i then row else r)) rs = map hb_monitorId rs" for rs
    by (simp add: row)
  show ?thesis
  proof (cases "\<exists>r \<in> set (db_heartbeats d). hb_monitorId r = i")
    case True
    then have "recordHeartbeat i arrival now d =
        d\<lparr>db_heartbeats := map (\<lambda>r. if hb_monitorId r = i then row else r) (db_heartbeats d)\<rparr>"
      by (simp add: recordHeartbeat_def row_def)
    then show ?thesis using assms True row by (simp add: lastHeartbeat_def upd ids del: map_eq_conv)
  next
    case False
    then have "recordHeartbeat i arrival now d = d\<lparr>db_heartbeats := db_heartbeats d @ [row]\<rparr>"
      by (simp add: recordHeartbeat_def row_def)
    moreover have "List.find (\<lambda>r. hb_monitorId r = i) (db_heartbeats d) = None"
      using False by (auto simp: find_None_iff)
    ultimately show ?thesis
      using assms False row by (auto simp: lastHeartbeat_def add split: option.splits)
  qed
qed

theorem last_heartbeat_wins_witness:
  "lastHeartbeat ''m1'' (recordHeartbeat ''m1'' \<lparr>hr_status = ReportedDown, hr_message = None, hr_responseTimeMs = None\<rparr> 9 sample_db) =
     Some (9, \<lparr>hr_status = ReportedDown, hr_message = None, hr_responseTimeMs = None\<rparr>)"
  using last_heartbeat_wins [of sample_db "''m1''" "\<lparr>hr_status = ReportedDown, hr_message = None, hr_responseTimeMs = None\<rparr>" 9]
  by (simp add: sample_db_def)

end
