(* ===== verification/Observations.thy ===== *)
theory Observations
  imports Monitor_Edits
begin

text \<open>
  One observation of one monitor, whatever kind it is, and recording it:
  \<open>src/modules/monitors/evaluate.ts\<close> and \<open>recordCheckOutcome\<close> of \<open>service.ts\<close>. The
  observation, its ledger stamp and the new state of the row commit together. The row is
  updated only where it still is what the outcome was derived from.

  The lemmas show what is recorded and what is derived, that an outcome whose monitor
  moved under the probe derives nothing, that a resume starts a new run of failures, and
  that the ledger can be verified from the columns that were stored.
\<close>

section \<open>Evaluating\<close>

definition memberStates :: "db \<Rightarrow> string \<Rightarrow> string option \<Rightarrow> child_state list" where
  "memberStates d groupId groupShadowBridgeId =
     map (\<lambda>m. \<lparr>ch_id = mo_id m, ch_name = mo_name m, ch_status = mo_currentStatus m, ch_paused = mo_paused m,
               ch_intervalSeconds = mo_intervalSeconds m\<rparr>)
       (sort_key mo_createdAt (filter (\<lambda>m. mo_parentId m = Some groupId \<and> mo_shadowBridgeId m = groupShadowBridgeId)
          (db_monitors d)))"

definition evaluateMonitor ::
  "('c \<Rightarrow> docker_config) \<Rightarrow> (string \<Rightarrow> 'c check_definition option) \<Rightarrow> date \<Rightarrow> monitor \<Rightarrow> db \<Rightarrow> check_result" where
  "evaluateMonitor dockerCast findCheckType now m d =
     (let dial = performCheck dockerCast (findCheckType (mo_checkType m)) (toCheckSpec m)
                   (if mo_checkType m = ''docker'' then Some (now, mo_dockerState m) else None)
      in case findCheckType (mo_checkType m) of
           None \<Rightarrow> dial
         | Some t \<Rightarrow>
             (let config = cd_fromRow t (monitor_view m)
              in case cd_evaluator t of
                   Active _ \<Rightarrow> dial
                 | Passive observe \<Rightarrow>
                     (let heartbeat = lastHeartbeat (mo_id m) d
                      in judgeMeasurement (cd_assertions t) config
                           (observe config (map_option fst heartbeat) (map_option snd heartbeat) (mo_createdAt m) now))
                 | Aggregate derive \<Rightarrow>
                     judgeMeasurement (cd_assertions t) config
                       (derive config (memberStates d (mo_id m) (mo_shadowBridgeId m)))
                 | Manual declared \<Rightarrow> judgeMeasurement (cd_assertions t) config (declared config)))"

section \<open>What is hashed\<close>

fun verdict_text :: "verdict \<Rightarrow> string" where
  "verdict_text VUp = ''up''"
| "verdict_text VDegraded = ''degraded''"
| "verdict_text VDown = ''down''"
| "verdict_text VIndeterminate = ''indeterminate''"

fun class_text :: "failure_class \<Rightarrow> string" where
  "class_text Transport = ''transport''"
| "class_text Assertion = ''assertion''"
| "class_text Misconfigured = ''misconfigured''"

fun value_json :: "fact_value \<Rightarrow> json" where
  "value_json (FStr s) = JStr s"
| "value_json (FNum n) = JNum n"
| "value_json (FBool b) = JBool b"
| "value_json FNull = JNull"

fun one_fact_json :: "fact \<Rightarrow> json" where
  "one_fact_json (FOne v) = value_json v"
| "one_fact_json (FList vs) = JArr (map value_json vs)"

text \<open>The facts as an object. The canonical form sorts the keys, so the order given here does not matter.\<close>

definition facts_json :: "fact_bag \<Rightarrow> json" where
  "facts_json facts = JObj (map (\<lambda>k. (k, map_option one_fact_json (facts k))) (sorted_list_of_set (dom facts)))"

definition claim_json ::
  "bool \<Rightarrow> date \<Rightarrow> string option \<Rightarrow> string option \<Rightarrow> int option \<Rightarrow> int option \<Rightarrow> string option \<Rightarrow> fact_bag \<Rightarrow> json" where
  "claim_json ok checkedAt v failureClass statusCode responseTimeMs err facts =
     JObj [(''ok'', Some (JBool ok)), (''checkedAt'', Some (JStr (toISOString checkedAt))),
           (''verdict'', Some (json_str v)), (''failureClass'', Some (json_str failureClass)),
           (''statusCode'', Some (json_num statusCode)), (''responseTimeMs'', Some (json_num responseTimeMs)),
           (''error'', Some (json_str err)), (''facts'', Some (facts_json facts))]"

definition observationClaim :: "check_result \<Rightarrow> date \<Rightarrow> json" where
  "observationClaim outcome checkedAt =
     claim_json (cr_ok outcome) checkedAt (Some (verdict_text (cr_verdict outcome)))
       (map_option class_text (cr_failureClass outcome)) (cr_statusCode outcome) (cr_responseTimeMs outcome)
       (cr_error outcome) (cr_facts outcome)"

section \<open>Recording\<close>

definition RECENT_OBSERVATION_WINDOW :: nat where
  "RECENT_OBSERVATION_WINDOW = 10"

definition recent_checks :: "string \<Rightarrow> check_row list \<Rightarrow> recent_observation list" where
  "recent_checks m checks =
     map (\<lambda>r. \<lparr>ro_ok = ck_ok r, ro_verdict = ck_verdict r\<rparr>)
       (take RECENT_OBSERVATION_WINDOW
         (rev (sort_key (\<lambda>r. (ck_checkedAt r, ck_id r)) (filter (\<lambda>r. ck_monitorId r = m) checks))))"

definition check_of :: "nat \<Rightarrow> string \<Rightarrow> date \<Rightarrow> check_result \<Rightarrow> ledger_stamp option \<Rightarrow> check_row" where
  "check_of i m now outcome stamp =
     \<lparr>ck_id = i, ck_monitorId = m, ck_checkedAt = now, ck_ok = cr_ok outcome, ck_statusCode = cr_statusCode outcome,
      ck_responseTimeMs = cr_responseTimeMs outcome, ck_error = cr_error outcome, ck_verdict = Some (cr_verdict outcome),
      ck_failureClass = cr_failureClass outcome, ck_facts = cr_facts outcome, ck_stamp = stamp\<rparr>"

text \<open>The stamp, when the caller has an identity, and the insert of the observation.\<close>

definition stamp_observation ::
  "(string \<Rightarrow> string) \<Rightarrow> monitor \<Rightarrow> check_result \<Rightarrow> string option \<Rightarrow> date \<Rightarrow> db \<Rightarrow> (db \<times> ledger_stamp option) outcome_of" where
  "stamp_observation sha256 monitor outcome actorId now d =
     (if truthy actorId
      then (case stampFact sha256 (lg_actors (db_ledger d))
                   \<lparr>si_actorId = the actorId, si_kind = Observation, si_subject = mo_id monitor,
                    si_specVersion = Some (mo_specVersion monitor), si_claim = observationClaim outcome now\<rparr> now of
              Inl e \<Rightarrow> Inl (Unexpected e)
            | Inr (actors, entry) \<Rightarrow>
                Inr (d\<lparr>db_ledger := (db_ledger d)\<lparr>lg_actors := actors, lg_facts := lg_facts (db_ledger d) @ [entry]\<rparr>\<rparr>,
                     Some (stamp_of entry)))
      else Inr (d, None))"

definition insert_check :: "string \<Rightarrow> date \<Rightarrow> check_result \<Rightarrow> ledger_stamp option \<Rightarrow> db \<Rightarrow> db outcome_of" where
  "insert_check m now outcome stamp d =
     (if find_monitor d m = None then Inl (Unexpected ''insert violates the reference to monitors'')
      else Inr (d\<lparr>db_checks := db_checks d @ [check_of (db_nextId d) m now outcome stamp], db_nextId := Suc (db_nextId d)\<rparr>))"

definition derived_state ::
  "monitor \<Rightarrow> check_result \<Rightarrow> date \<Rightarrow> reconciliation \<Rightarrow> recent_observation list \<Rightarrow> monitor \<Rightarrow> monitor" where
  "derived_state monitor outcome now rc recent row =
     row\<lparr>mo_consecutiveFailures :=
           (if cr_verdict outcome = VDown then mo_consecutiveFailures monitor + 1
            else if cr_verdict outcome = VIndeterminate then mo_consecutiveFailures monitor else 0),
         mo_firstFailureAt := advanceFailureRun (mo_firstFailureAt monitor) (cr_verdict outcome) now,
         mo_currentStatus := rc_status rc, mo_lastCheckedAt := Some now, mo_dispatchClaimedUntil := None,
         mo_nextEvaluationAt :=
           (if isScheduledKind (checkTypeKind (mo_checkType monitor))
            then Some (nextEvaluationAt (mo_intervalSeconds monitor) (Some (rc_status rc)) recent now) else None),
         mo_tlsDaysRemaining := (case cr_tlsDaysRemaining outcome of None \<Rightarrow> mo_tlsDaysRemaining row | Some t \<Rightarrow> t),
         mo_dockerState := (case cr_dockerState outcome of None \<Rightarrow> mo_dockerState row | Some s \<Rightarrow> Some s)\<rparr>"

definition reconcile_outcome :: "monitor \<Rightarrow> check_result \<Rightarrow> date \<Rightarrow> reconciliation" where
  "reconcile_outcome monitor outcome now =
     reconcile (mo_failureWindowSeconds monitor)
       \<lparr>os_verdict = cr_verdict outcome,
        os_firstFailureAt = advanceFailureRun (mo_firstFailureAt monitor) (cr_verdict outcome) now,
        os_previousStatus = mo_currentStatus monitor, os_now = now,
        os_degradedResolves = Some (case cr_dockerState outcome of None \<Rightarrow> True | Some s \<Rightarrow> \<not> dk_holdResolve s)\<rparr>"

text \<open>The row an outcome was derived from, as the predicate of the UPDATE states it.\<close>

definition unmoved :: "monitor \<Rightarrow> monitor \<Rightarrow> bool" where
  "unmoved monitor row \<longleftrightarrow>
     mo_id row = mo_id monitor \<and> \<not> mo_paused row \<and> mo_firstFailureAt row = mo_firstFailureAt monitor"

definition recordCheckOutcome ::
  "(string \<Rightarrow> string) \<Rightarrow> monitor \<Rightarrow> check_result \<Rightarrow> string option \<Rightarrow> date \<Rightarrow> db \<Rightarrow> (db \<times> monitor \<times> reconciliation) outcome_of" where
  "recordCheckOutcome sha256 monitor outcome actorId now d =
     (case stamp_observation sha256 monitor outcome actorId now d of
        Inl e \<Rightarrow> Inl e
      | Inr (d1, stamp) \<Rightarrow>
          (case insert_check (mo_id monitor) now outcome stamp d1 of
             Inl e \<Rightarrow> Inl e
           | Inr d2 \<Rightarrow>
               (let rc = reconcile_outcome monitor outcome now;
                    f = derived_state monitor outcome now rc (recent_checks (mo_id monitor) (db_checks d2))
                in case List.find (unmoved monitor) (db_monitors d2) of
                     Some row \<Rightarrow>
                       Inr (d2\<lparr>db_monitors := map (\<lambda>r. if unmoved monitor r then f r else r) (db_monitors d2)\<rparr>, f row, rc)
                   | None \<Rightarrow>
                       (case find_monitor d2 (mo_id monitor) of
                          None \<Rightarrow> Inl (NotFound ''Monitor disappeared mid-check.'')
                        | Some current \<Rightarrow>
                            Inr (d2, current,
                                 \<lparr>rc_status = mo_currentStatus current, rc_openIncident = False,
                                  rc_resolveIncidents = False\<rparr>)))))"

section \<open>The two ways an outcome lands\<close>

abbreviation observation_input :: "monitor \<Rightarrow> check_result \<Rightarrow> string \<Rightarrow> date \<Rightarrow> stamp_input" where
  "observation_input monitor outcome a now \<equiv>
     \<lparr>si_actorId = a, si_kind = Observation, si_subject = mo_id monitor,
      si_specVersion = Some (mo_specVersion monitor), si_claim = observationClaim outcome now\<rparr>"

definition stamped ::
  "(string \<Rightarrow> string) \<Rightarrow> monitor \<Rightarrow> check_result \<Rightarrow> string option \<Rightarrow> date \<Rightarrow> ledger \<Rightarrow> ledger \<Rightarrow> ledger_stamp option \<Rightarrow> bool" where
  "stamped sha256 monitor outcome actorId now l l' stamp \<longleftrightarrow>
     (if truthy actorId
      then \<exists>entry. writeFact sha256 (observation_input monitor outcome (the actorId) now) now l = Inr l' \<and>
             lg_facts l' = lg_facts l @ [entry] \<and> stamp = Some (stamp_of entry)
      else l' = l \<and> stamp = None)"

lemma stamp_observationE:
  assumes "stamp_observation sha256 monitor outcome actorId now d = Inr (d1, stamp)"
  obtains l where "d1 = d\<lparr>db_ledger := l\<rparr>" and "stamped sha256 monitor outcome actorId now (db_ledger d) l stamp"
proof (cases "truthy actorId")
  case True
  then obtain actors entry where
    "stampFact sha256 (lg_actors (db_ledger d)) (observation_input monitor outcome (the actorId) now) now = Inr (actors, entry)"
    "d1 = d\<lparr>db_ledger := (db_ledger d)\<lparr>lg_actors := actors, lg_facts := lg_facts (db_ledger d) @ [entry]\<rparr>\<rparr>"
    "stamp = Some (stamp_of entry)"
    using assms unfolding stamp_observation_def by (auto split: sum.splits)
  with True show ?thesis
    by (intro that [of "(db_ledger d)\<lparr>lg_actors := actors, lg_facts := lg_facts (db_ledger d) @ [entry]\<rparr>"])
      (simp_all add: stamped_def writeFact_def)
next
  case False
  with assms show ?thesis by (intro that [of "db_ledger d"]) (simp_all add: stamp_observation_def stamped_def)
qed

lemma recordCheckOutcome_cases:
  assumes "recordCheckOutcome sha256 monitor outcome actorId now d = Inr (d', m, rc)"
  obtains (moved) l stamp
    where "stamped sha256 monitor outcome actorId now (db_ledger d) l stamp"
      and "d' = d\<lparr>db_ledger := l, db_checks := db_checks d @ [check_of (db_nextId d) (mo_id monitor) now outcome stamp],
        db_nextId := Suc (db_nextId d)\<rparr>"
      and "\<forall>r \<in> set (db_monitors d). \<not> unmoved monitor r"
      and "find_monitor d (mo_id monitor) = Some m"
      and "rc = \<lparr>rc_status = mo_currentStatus m, rc_openIncident = False, rc_resolveIncidents = False\<rparr>"
  | (derived) l stamp row f
    where "stamped sha256 monitor outcome actorId now (db_ledger d) l stamp"
      and "row \<in> set (db_monitors d)" and "unmoved monitor row" and "rc = reconcile_outcome monitor outcome now"
      and "f = derived_state monitor outcome now rc (recent_checks (mo_id monitor)
          (db_checks d @ [check_of (db_nextId d) (mo_id monitor) now outcome stamp]))"
      and "m = f row"
      and "d' = d\<lparr>db_ledger := l, db_checks := db_checks d @ [check_of (db_nextId d) (mo_id monitor) now outcome stamp],
        db_nextId := Suc (db_nextId d), db_monitors := map (\<lambda>r. if unmoved monitor r then f r else r) (db_monitors d)\<rparr>"
proof -
  obtain d1 stamp where st: "stamp_observation sha256 monitor outcome actorId now d = Inr (d1, stamp)"
    using assms unfolding recordCheckOutcome_def by (auto split: sum.splits)
  obtain l where l: "d1 = d\<lparr>db_ledger := l\<rparr>" "stamped sha256 monitor outcome actorId now (db_ledger d) l stamp"
    by (rule stamp_observationE [OF st])
  let ?d2 = "d1\<lparr>db_checks := db_checks d1 @ [check_of (db_nextId d1) (mo_id monitor) now outcome stamp],
      db_nextId := Suc (db_nextId d1)\<rparr>"
  have ins: "insert_check (mo_id monitor) now outcome stamp d1 = Inr ?d2"
    using assms st unfolding recordCheckOutcome_def insert_check_def by (auto split: if_splits)
  show ?thesis
  proof (cases "List.find (unmoved monitor) (db_monitors d)")
    case None
    have "find_monitor ?d2 (mo_id monitor) = find_monitor d (mo_id monitor)" by (simp add: find_monitor_def l)
    then show ?thesis
      using assms None moved [OF l(2)] unfolding recordCheckOutcome_def st sum.case prod.case ins
      by (auto simp: l find_None_iff Let_def split: option.splits)
  next
    case (Some row)
    then have row: "row \<in> set (db_monitors d)" "unmoved monitor row" by (auto simp: find_Some_iff)
    let ?f = "derived_state monitor outcome now (reconcile_outcome monitor outcome now) (recent_checks (mo_id monitor)
          (db_checks d @ [check_of (db_nextId d) (mo_id monitor) now outcome stamp]))"
    have "rc = reconcile_outcome monitor outcome now" "m = ?f row"
        "d' = d\<lparr>db_ledger := l, db_checks := db_checks d @ [check_of (db_nextId d) (mo_id monitor) now outcome stamp],
          db_nextId := Suc (db_nextId d), db_monitors := map (\<lambda>r. if unmoved monitor r then ?f r else r) (db_monitors d)\<rparr>"
      using assms Some unfolding recordCheckOutcome_def st sum.case prod.case ins by (auto simp: l Let_def)
    then show ?thesis using derived [OF l(2) row] by blast
  qed
qed

lemma unsigned_record_ok:
  assumes "find_monitor d (mo_id monitor) = Some row"
  obtains d' m rc where "recordCheckOutcome sha256 monitor outcome None now d = Inr (d', m, rc)"
  using assms
  by (cases "List.find (unmoved monitor) (db_monitors d)")
    (auto simp: recordCheckOutcome_def stamp_observation_def insert_check_def Let_def find_monitor_def)

lemma moved_aux:
  assumes "recordCheckOutcome sha256 monitor outcome actorId now d = Inr (d', m, rc)"
    and "distinct (map mo_id (db_monitors d))" and "find_monitor d (mo_id monitor) = Some row"
    and "mo_paused row \<or> mo_firstFailureAt row \<noteq> mo_firstFailureAt monitor"
  shows "db_monitors d' = db_monitors d \<and> m = row \<and> \<not> rc_openIncident rc \<and> \<not> rc_resolveIncidents rc \<and>
    (\<exists>c. db_checks d' = db_checks d @ [c] \<and> ck_monitorId c = mo_id monitor \<and> ck_verdict c = Some (cr_verdict outcome))"
  using assms(1)
proof (cases rule: recordCheckOutcome_cases)
  case (moved l stamp)
  then show ?thesis using assms(3) by (simp add: check_of_def)
next
  case (derived l stamp row' f)
  then have "row' = row"
    using assms(2,3) find_monitor_iff [OF assms(2), of "mo_id monitor"] by (metis unmoved_def option.inject)
  then show ?thesis using derived(3) assms(4) by (auto simp: unmoved_def)
qed


definition sample_outcome :: "verdict \<Rightarrow> check_result" where
  "sample_outcome v =
     \<lparr>cr_ok = (v = VUp), cr_degraded = False, cr_statusCode = None, cr_responseTimeMs = None, cr_error = None,
      cr_tlsDaysRemaining = None, cr_verdict = v, cr_failureClass = None, cr_facts = Map.empty, cr_failedAssertions = [],
      cr_evidence = None, cr_dockerState = None\<rparr>"

definition paused_db :: db where
  "paused_db = sample_db\<lparr>db_monitors := [sample_monitor\<lparr>mo_paused := True\<rparr>]\<rparr>"


section \<open>The row follows the status controller\<close>

lemma reconcile_outcome_step:
  "rc_status (reconcile_outcome monitor outcome now) =
     snd (observe_step (mo_failureWindowSeconds monitor) (mo_firstFailureAt monitor, mo_currentStatus monitor) (cr_verdict outcome, now))"
  "rc_openIncident (reconcile_outcome monitor outcome now) \<longleftrightarrow> rc_status (reconcile_outcome monitor outcome now) = SDown"
  by (simp_all add: reconcile_outcome_def observe_step_def reconcile_def deriveStatus_def Let_def split: verdict.splits option.splits)

lemma observe_step_fst: "fst (observe_step w (ff, st) (v, now)) = advanceFailureRun ff v now"
  by (simp add: observe_step_def Let_def)

lemma refines_aux:
  assumes "recordCheckOutcome sha256 monitor outcome actorId now d = Inr (d', m, rc)"
    and "distinct (map mo_id (db_monitors d))" and "find_monitor d (mo_id monitor) = Some monitor" and "\<not> mo_paused monitor"
  shows "(mo_firstFailureAt m, mo_currentStatus m) =
      observe_step (mo_failureWindowSeconds monitor) (mo_firstFailureAt monitor, mo_currentStatus monitor) (cr_verdict outcome, now) \<and>
    find_monitor d' (mo_id monitor) = Some m \<and> (rc_openIncident rc \<longleftrightarrow> mo_currentStatus m = SDown) \<and>
    (\<forall>i. i \<noteq> mo_id monitor \<longrightarrow> find_monitor d' i = find_monitor d i)"
  using assms(1)
proof (cases rule: recordCheckOutcome_cases)
  case (moved l stamp)
  then show ?thesis using assms(3,4) by (auto simp: unmoved_def dest: find_monitor_mem)
next
  case (derived l stamp row f)
  have row: "row = monitor"
    using derived(2,3) assms(2,3) find_monitor_iff [OF assms(2), of "mo_id monitor"] by (metis unmoved_def option.inject)
  have f: "mo_id (f r) = mo_id r" for r by (simp add: derived(5) derived_state_def)
  have un: "unmoved monitor r \<longleftrightarrow> r = monitor" if "r \<in> set (db_monitors d)" for r
    using that assms(4) monitor_by_id [OF assms(2) that] find_monitor_mem [OF assms(3)] by (auto simp: unmoved_def)
  have rows: "db_monitors d' = map (\<lambda>r. if unmoved monitor r then f r else r) (db_monitors d)" by (simp add: derived(7))
  have "map mo_id (db_monitors d') = map mo_id (db_monitors d)" by (simp add: rows f)
  then have dist': "distinct (map mo_id (db_monitors d'))" using assms(2) by simp
  have mem: "r \<in> set (db_monitors d') \<longleftrightarrow> r = f monitor \<or> r \<in> set (db_monitors d) \<and> r \<noteq> monitor" for r
    unfolding rows using un derived(2) row by (auto simp: image_iff)
  have "find_monitor d' (mo_id monitor) = Some m"
    using find_monitor_iff [OF dist'] mem f derived(6) row by simp
  moreover have "find_monitor d' i = find_monitor d i" if "i \<noteq> mo_id monitor" for i
  proof -
    have "find_monitor d' i = Some r \<longleftrightarrow> find_monitor d i = Some r" for r
      using that find_monitor_iff [OF dist', of i r] find_monitor_iff [OF assms(2), of i r] mem f by auto
    then show ?thesis by (metis not_None_eq)
  qed
  moreover have "mo_firstFailureAt m = advanceFailureRun (mo_firstFailureAt monitor) (cr_verdict outcome) now"
      "mo_currentStatus m = rc_status (reconcile_outcome monitor outcome now)"
    by (simp_all add: derived(4,5,6) derived_state_def)
  ultimately show ?thesis
    by (simp add: derived(4) reconcile_outcome_step prod_eq_iff observe_step_fst)
qed

text \<open>
  C7: recording refines the status controller. As long as nothing moved the row between
  reading and writing it, the failure run and the status it stores are exactly one step
  of the controller's history, the row the caller gets back is the stored one, and no
  other monitor changed.
\<close>

theorem record_refines_controller:
  assumes "recordCheckOutcome sha256 monitor outcome actorId now d = Inr (d', m, rc)"
    and "distinct (map mo_id (db_monitors d))" and "find_monitor d (mo_id monitor) = Some monitor" and "\<not> mo_paused monitor"
  shows "(mo_firstFailureAt m, mo_currentStatus m) =
      observe_step (mo_failureWindowSeconds monitor) (mo_firstFailureAt monitor, mo_currentStatus monitor) (cr_verdict outcome, now) \<and>
    find_monitor d' (mo_id monitor) = Some m \<and> (rc_openIncident rc \<longleftrightarrow> mo_currentStatus m = SDown) \<and>
    (\<forall>i. i \<noteq> mo_id monitor \<longrightarrow> find_monitor d' i = find_monitor d i)"
  using refines_aux [OF assms] .

theorem record_refines_controller_witness:
  "\<exists>d' m rc. recordCheckOutcome id sample_monitor (sample_outcome VUp) None 9 sample_db = Inr (d', m, rc) \<and>
     mo_currentStatus m = SUp \<and> mo_firstFailureAt m = None"
proof -
  have f: "find_monitor sample_db (mo_id sample_monitor) = Some sample_monitor"
    by (simp add: find_monitor_def sample_db_def)
  obtain d' m rc where r: "recordCheckOutcome id sample_monitor (sample_outcome VUp) None 9 sample_db = Inr (d', m, rc)"
    by (rule unsigned_record_ok [OF f])
  have "distinct (map mo_id (db_monitors sample_db))" "\<not> mo_paused sample_monitor"
    by (simp_all add: sample_db_def sample_monitor_def)
  then show ?thesis
    using record_refines_controller [OF r _ f] r
    by (simp add: observe_step_def sample_outcome_def advanceFailureRun_def reconcile_def deriveStatus_def)
qed

section \<open>Pausing and resuming\<close>

lemma paused_row:
  assumes "setMonitorPaused now actor i paused d = Inr (d', m)" and "distinct (map mo_id (db_monitors d))"
  shows "distinct (map mo_id (db_monitors d'))" and "find_monitor d' i = Some m"
    and "\<exists>e. find_monitor d i = Some e \<and> m = e\<lparr>mo_paused := paused, mo_consecutiveFailures := 0, mo_currentStatus := SUnknown,
        mo_firstFailureAt := None, mo_nextEvaluationAt := initialEvaluationAt now (mo_checkType e)\<rparr>"
proof -
  from assms(1) obtain existing f where e: "existing \<in> set (db_monitors d)" "mo_id existing = i"
    and f: "f = (\<lambda>m. m\<lparr>mo_paused := paused, mo_consecutiveFailures := 0, mo_currentStatus := SUnknown,
        mo_firstFailureAt := None, mo_nextEvaluationAt := initialEvaluationAt now (mo_checkType existing)\<rparr>)"
    and m: "m = f existing" and rows: "db_monitors d' = map (\<lambda>r. if mo_id r = i then f r else r) (db_monitors d)"
    by (rule setMonitorPausedE) blast
  have "map mo_id (db_monitors d') = map mo_id (db_monitors d)" by (simp add: rows f)
  then show dist': "distinct (map mo_id (db_monitors d'))" using assms(2) by simp
  have "m \<in> set (db_monitors d')" "mo_id m = i" using e by (auto simp: rows m f)
  then show "find_monitor d' i = Some m" using find_monitor_iff [OF dist'] by simp
  have "find_monitor d i = Some existing" using find_monitor_iff [OF assms(2)] e by simp
  then show "\<exists>e. find_monitor d i = Some e \<and> m = e\<lparr>mo_paused := paused, mo_consecutiveFailures := 0, mo_currentStatus := SUnknown,
      mo_firstFailureAt := None, mo_nextEvaluationAt := initialEvaluationAt now (mo_checkType e)\<rparr>"
    by (simp add: m f)
qed

text \<open>
  a pause ends the outage that was being counted. After a pause and a resume, a
  check that was in flight when the monitor was still failing changes nothing, and the
  first failing check of the resumed monitor starts a new run: with any failure window
  it does not open an incident, however long the monitor had been failing before.
\<close>

theorem resume_starts_a_new_run:
  assumes dist: "distinct (map mo_id (db_monitors d))"
    and pause: "setMonitorPaused t1 actor (mo_id monitor) True d = Inr (d1, m1)"
    and resume: "setMonitorPaused t2 actor (mo_id monitor) False d1 = Inr (d2, m2)"
    and window: "0 < mo_failureWindowSeconds m2"
  shows "(mo_firstFailureAt monitor \<noteq> None \<and>
       recordCheckOutcome sha256 monitor outcome actorId now d2 = Inr (d3, m3, rc3) \<longrightarrow>
       db_monitors d3 = db_monitors d2 \<and> \<not> rc_openIncident rc3) \<and>
    (recordCheckOutcome sha256 m2 outcome actorId now d2 = Inr (d4, m4, rc4) \<and> cr_verdict outcome = VDown \<longrightarrow>
       \<not> rc_openIncident rc4 \<and> mo_firstFailureAt m4 = Some now \<and> mo_currentStatus m4 = SUnknown)"
proof (intro conjI impI)
  note p = paused_row [OF pause dist]
  note r = paused_row [OF resume p(1)]
  obtain e where e: "m2 = e\<lparr>mo_paused := False, mo_consecutiveFailures := 0, mo_currentStatus := SUnknown,
      mo_firstFailureAt := None, mo_nextEvaluationAt := initialEvaluationAt t2 (mo_checkType e)\<rparr>" using r(3) by blast
  have m2: "mo_firstFailureAt m2 = None" "mo_currentStatus m2 = SUnknown" "\<not> mo_paused m2" by (simp_all add: e)
  have id: "mo_id m2 = mo_id monitor" using find_monitor_mem [OF r(2)] by simp
  {
    assume "mo_firstFailureAt monitor \<noteq> None \<and>
      recordCheckOutcome sha256 monitor outcome actorId now d2 = Inr (d3, m3, rc3)"
    then show "db_monitors d3 = db_monitors d2" "\<not> rc_openIncident rc3"
      using moved_aux [of sha256 monitor outcome actorId now d2 d3 m3 rc3 m2] r(1,2) m2 by auto
  }
  {
    assume "recordCheckOutcome sha256 m2 outcome actorId now d2 = Inr (d4, m4, rc4) \<and> cr_verdict outcome = VDown"
    then show "\<not> rc_openIncident rc4" "mo_firstFailureAt m4 = Some now" "mo_currentStatus m4 = SUnknown"
      using refines_aux [of sha256 m2 outcome actorId now d2 d4 m4 rc4] r(1,2) m2 id window
      by (auto simp: observe_step_def advanceFailureRun_def reconcile_def deriveStatus_def Let_def)
  }
qed

definition windowed_db :: db where
  "windowed_db = sample_db\<lparr>db_monitors := [sample_monitor\<lparr>mo_failureWindowSeconds := 120\<rparr>]\<rparr>"

theorem resume_starts_a_new_run_witness:
  "\<exists>d1 m1 d2 m2. setMonitorPaused 1 operator ''m1'' True windowed_db = Inr (d1, m1) \<and>
     setMonitorPaused 2 operator ''m1'' False d1 = Inr (d2, m2) \<and>
     (\<exists>d4 m4 rc4. recordCheckOutcome id m2 (sample_outcome VDown) None 9 d2 = Inr (d4, m4, rc4) \<and> \<not> rc_openIncident rc4)"
proof -
  have e: "\<not> isl (setMonitorPaused 1 operator ''m1'' True windowed_db)"
    "\<not> isl (setMonitorPaused 2 operator ''m1'' False (fst (projr (setMonitorPaused 1 operator ''m1'' True windowed_db))))"
    by code_simp+
  from e(1) obtain d1 m1 where p: "setMonitorPaused 1 operator ''m1'' True windowed_db = Inr (d1, m1)"
    by (metis isl_def prod.exhaust sum.exhaust)
  from e(2) [unfolded p] obtain d2 m2 where r: "setMonitorPaused 2 operator ''m1'' False d1 = Inr (d2, m2)"
    by (metis isl_def prod.exhaust sum.exhaust fst_conv sum.sel(2))
  have dist: "distinct (map mo_id (db_monitors windowed_db))" by (simp add: windowed_db_def)
  have id_sample: "mo_id sample_monitor = ''m1''" and verdict_sample: "cr_verdict (sample_outcome VDown) = VDown"
    by (simp_all add: sample_monitor_def sample_outcome_def)
  have "0 < mo_failureWindowSeconds m2"
    using paused_row(3) [OF p dist] paused_row(3) [OF r paused_row(1) [OF p dist]] paused_row(2) [OF p dist]
    by (auto simp: windowed_db_def find_monitor_def sample_monitor_def)
  moreover obtain d4 m4 rc4 where "recordCheckOutcome id m2 (sample_outcome VDown) None 9 d2 = Inr (d4, m4, rc4)"
    by (rule unsigned_record_ok [of d2 m2 m2])
      (use paused_row(2) [OF r paused_row(1) [OF p dist]] find_monitor_mem in force)
  ultimately show ?thesis
    using resume_starts_a_new_run [OF dist, of 1 operator sample_monitor d1 m1 2 d2 m2 id "sample_outcome VDown" None 9] p r
    unfolding id_sample by (metis verdict_sample)
qed

text \<open>
  What the comment at the end of \<open>recordCheckOutcome\<close> promises, that a monitor paused and
  resumed under a probe ``measures again immediately instead of losing a cycle'', does
  not hold while it was failing: the outcome is dropped together with the write that
  would have given back the claim, and the monitor is not due before the lease of the
  old check runs out.
\<close>

lemma resumed_monitor_waits_out_the_lease:
  assumes "distinct (map mo_id (db_monitors d))"
    and "find_monitor d (mo_id monitor) = Some e" and "mo_dispatchClaimedUntil e = Some until"
    and "setMonitorPaused t1 actor (mo_id monitor) True d = Inr (d1, m1)"
    and "setMonitorPaused t2 actor (mo_id monitor) False d1 = Inr (d2, m2)"
    and "mo_firstFailureAt monitor \<noteq> None"
    and "recordCheckOutcome sha256 monitor outcome actorId now d2 = Inr (d3, m3, rc3)"
    and "t < until"
  shows "find_monitor d3 (mo_id monitor) = Some m3 \<and> \<not> dueCondition UNSCHEDULED_CHECK_TYPE_IDS None t m3"
proof -
  note p = paused_row [OF assms(4,1)]
  note r = paused_row [OF assms(5) p(1)]
  have m2: "mo_firstFailureAt m2 = None" "mo_dispatchClaimedUntil m2 = Some until"
    using p(2,3) r(3) assms(2,3) by auto
  have "db_monitors d3 = db_monitors d2 \<and> m3 = m2"
    using moved_aux [OF assms(7) r(1,2)] m2 assms(6) by auto
  then show ?thesis
    using r(2) m2 assms(8) by (simp add: find_monitor_def dueCondition_def unclaimed_def)
qed

section \<open>Verifying the ledger from the stored columns\<close>

definition row_fact :: "check_row \<Rightarrow> ledger_stamp \<Rightarrow> stored_fact" where
  "row_fact r st =
     (\<lparr>fi_actorId = ls_actorId st, fi_seq = ls_seq st, fi_hlc = ls_hlc st, fi_prevHash = ls_prevHash st,
       fi_kind = Observation, fi_subject = ck_monitorId r, fi_specVersion = ls_specVersion st,
       fi_claim = claim_json (ck_ok r) (ck_checkedAt r) (map_option verdict_text (ck_verdict r))
         (map_option class_text (ck_failureClass r)) (ck_statusCode r) (ck_responseTimeMs r) (ck_error r) (ck_facts r)\<rparr>,
      ls_hash st)"

definition stored_chain :: "check_row list \<Rightarrow> stored_fact list" where
  "stored_chain checks = List.map_filter (\<lambda>r. map_option (row_fact r) (ck_stamp r)) checks"

definition recording_inv :: "(string \<Rightarrow> string) \<Rightarrow> db \<Rightarrow> bool" where
  "recording_inv sha256 d \<longleftrightarrow>
     ledger_inv sha256 (db_ledger d) \<and> lg_facts (db_ledger d) = stored_chain (db_checks d)"

inductive recording_step :: "(string \<Rightarrow> string) \<Rightarrow> db \<Rightarrow> db \<Rightarrow> bool" for sha256 where
  observed: "recordCheckOutcome sha256 monitor outcome actorId now d = Inr (d', m, rc) \<Longrightarrow> recording_step sha256 d d'"
| register: "ensureActor fresh k n cache (db_ledger d) = (cache', l, a) \<Longrightarrow> recording_step sha256 d (d\<lparr>db_ledger := l\<rparr>)"
| elsewhere: "db_checks d' = db_checks d \<Longrightarrow> db_ledger d' = db_ledger d \<Longrightarrow> recording_step sha256 d d'"

lemma stored_chain_snoc:
  "stored_chain (cs @ [c]) = stored_chain cs @ (case ck_stamp c of None \<Rightarrow> [] | Some st \<Rightarrow> [row_fact c st])"
  by (simp add: stored_chain_def List.map_filter_def split: option.splits)

lemma row_fact_check_of:
  assumes "writeFact sha256 (observation_input monitor outcome a now) now l = Inr l'" and "lg_facts l' = lg_facts l @ [entry]"
  shows "row_fact (check_of i (mo_id monitor) now outcome (Some (stamp_of entry))) (stamp_of entry) = entry"
proof -
  obtain f hash where e: "entry = (f, hash)" by fastforce
  have "fi_kind f = Observation \<and> fi_subject f = mo_id monitor \<and> fi_claim f = observationClaim outcome now"
    using assms e by (auto simp: writeFact_def stampFact_def Let_def split: option.splits sum.splits)
  then show ?thesis
    by (simp add: e row_fact_def stamp_of_def check_of_def observationClaim_def)
qed

lemma recorded_inv:
  assumes "recording_inv sha256 d" and "stamped sha256 monitor outcome actorId now (db_ledger d) l stamp"
    and "db_ledger d' = l" and "db_checks d' = db_checks d @ [check_of i (mo_id monitor) now outcome stamp]"
  shows "recording_inv sha256 d'"
proof (cases "truthy actorId")
  case True
  then obtain entry where w: "writeFact sha256 (observation_input monitor outcome (the actorId) now) now (db_ledger d) = Inr l"
      "lg_facts l = lg_facts (db_ledger d) @ [entry]" "stamp = Some (stamp_of entry)"
    using assms(2) by (auto simp: stamped_def)
  have "ledger_inv sha256 l" using ledger_inv_write [OF _ w(1)] assms(1) by (simp add: recording_inv_def)
  then show ?thesis
    using assms(1,3,4) w row_fact_check_of [OF w(1,2)]
    by (simp add: recording_inv_def stored_chain_snoc) (simp add: check_of_def)
next
  case False
  then show ?thesis using assms by (simp add: stamped_def recording_inv_def stored_chain_snoc) (simp add: check_of_def)
qed

lemma recording_step_inv:
  assumes "recording_inv sha256 d" and "recording_step sha256 d d'"
  shows "recording_inv sha256 d'"
  using assms(2)
proof cases
  case (observed monitor outcome actorId now m rc)
  from observed show ?thesis
    by (cases rule: recordCheckOutcome_cases) (auto intro: recorded_inv [OF assms(1)])
next
  case (register fresh k n cache cache' l a)
  then show ?thesis
    using assms(1) ledger_inv_register ensureActor_ledger [OF register(2)]
    by (auto simp: recording_inv_def insert_actor_def)
next
  case elsewhere
  then show ?thesis using assms(1) by (simp add: recording_inv_def)
qed

definition nothing_recorded :: "db \<Rightarrow> bool" where
  "nothing_recorded d \<longleftrightarrow> db_checks d = [] \<and> empty_ledger (db_ledger d)"

interpretation recording: state_machine nothing_recorded "recording_step sha256" "recording_inv sha256" for sha256
proof
  show "nothing_recorded d \<Longrightarrow> recording_inv sha256 d" for d
    by (auto simp: nothing_recorded_def recording_inv_def stored_chain_def List.map_filter_def empty_ledger_def ledger_inv_def
        actor_inv_def facts_of_def)
  show "recording_inv sha256 s \<Longrightarrow> recording_step sha256 s t \<Longrightarrow> recording_inv sha256 t" for s t
    by (rule recording_step_inv)
qed


definition registered_db :: db where
  "registered_db = sample_db\<lparr>db_ledger := fst (snd (ensureActor ''a1'' Worker ''w'' [] (db_ledger sample_db)))\<rparr>"

definition one_observation :: "(db \<times> monitor \<times> reconciliation) outcome_of" where
  "one_observation = recordCheckOutcome id sample_monitor (sample_outcome VUp) (Some ''a1'') 1000 registered_db"

lemma one_observation_reached:
  assumes "one_observation = Inr (d, m, rc)"
  shows "reach nothing_recorded (recording_step id) d"
proof -
  have "reach nothing_recorded (recording_step id) sample_db"
    by (rule reach_init) (simp add: nothing_recorded_def sample_db_def empty_ledger_def)
  moreover obtain cache l a where "ensureActor ''a1'' Worker ''w'' [] (db_ledger sample_db) = (cache, l, a)"
    by (rule prod_cases3)
  then have "recording_step id sample_db registered_db"
    using recording_step.register [of "''a1''" Worker "''w''" "[]" sample_db cache l a id] by (simp add: registered_db_def)
  ultimately have "reach nothing_recorded (recording_step id) registered_db" by (rule reach_step)
  then show ?thesis
    by (rule reach_step) (use assms in \<open>auto simp: one_observation_def intro: recording_step.observed\<close>)
qed


end
