(* ===== verification/Expansion.thy ===== *)
theory Expansion
  imports Intents
begin

text \<open>
  From a committed intent to outbox rows: \<open>events.ts\<close>, \<open>dispatch-policy.ts\<close>, the dispatch
  half of \<open>channel-service.ts\<close>, \<open>incident-emails.ts\<close>, \<open>subscriber-emails.ts\<close> and
  \<open>intent-expansion.ts\<close> of \<open>src/modules/notifications\<close>. The policies an edition registers,
  the provider registry, the database's refusals and the clock are arguments.

  The lemmas show that an expansion reaches everybody it owes, stays inside its
  organization, can be repeated without effect, and that a broken policy cannot
  silence an alert.
\<close>

section \<open>Events\<close>

definition EXPIRY_MONITOR_TYPES :: "string list" where
  "EXPIRY_MONITOR_TYPES = [''tls-expiry'', ''domain-expiry'']"

definition starts_with :: "string \<Rightarrow> string \<Rightarrow> bool" where
  "starts_with pre s \<longleftrightarrow> take (length pre) s = pre"

definition classifyEvent :: "webhook_event \<Rightarrow> string option \<Rightarrow> string" where
  "classifyEvent ev monitorType =
     (if ev = Monitor_down \<or> ev = Monitor_up
      then (if truthy monitorType \<and> the monitorType \<in> set EXPIRY_MONITOR_TYPES then ''expiry'' else ''monitor'')
      else if starts_with ''incident.'' (event_text ev) then ''incident''
      else ''none'')"

datatype message_severity = Sev_critical | Sev_warning | Sev_ok | Sev_info

fun message_severity_text :: "message_severity \<Rightarrow> string" where
  "message_severity_text Sev_critical = ''critical''"
| "message_severity_text Sev_warning = ''warning''"
| "message_severity_text Sev_ok = ''ok''"
| "message_severity_text Sev_info = ''info''"

fun eventSeverity :: "webhook_event \<Rightarrow> message_severity" where
  "eventSeverity Monitor_down = Sev_critical"
| "eventSeverity Incident_opened = Sev_critical"
| "eventSeverity Incident_updated = Sev_warning"
| "eventSeverity Monitor_up = Sev_ok"
| "eventSeverity Incident_resolved = Sev_ok"

text \<open>
  The label of an event. In the source each starts with a pictogram and a space, three
  UTF-16 units; the model keeps the words.
\<close>

fun eventLabel :: "webhook_event \<Rightarrow> string" where
  "eventLabel Incident_opened = ''Incident opened''"
| "eventLabel Incident_updated = ''Incident updated''"
| "eventLabel Incident_resolved = ''Incident resolved''"
| "eventLabel Monitor_down = ''Monitor down''"
| "eventLabel Monitor_up = ''Monitor recovered''"

section \<open>Policies\<close>

record dispatch_subject =
  ds_organizationId :: string
  ds_event :: webhook_event
  ds_causeKey :: string
  ds_monitorId :: "string option"
  ds_monitorType :: "string option"
  ds_incidentId :: "nat option"
  ds_severity :: message_severity

text \<open>A policy answers from the database; a left value is a policy that threw.\<close>

record dispatch_policy =
  dy_name :: string
  dy_suppression :: "(db \<Rightarrow> dispatch_subject \<Rightarrow> string option result) option"
  dy_routes :: "(db \<Rightarrow> dispatch_subject \<Rightarrow> string list option option result) option"

fun askSuppression :: "dispatch_policy list \<Rightarrow> db \<Rightarrow> dispatch_subject \<Rightarrow> string option" where
  "askSuppression [] d subject = None"
| "askSuppression (p # ps) d subject =
     (case dy_suppression p of
        None \<Rightarrow> askSuppression ps d subject
      | Some ask \<Rightarrow>
          (case ask d subject of Inr (Some reason) \<Rightarrow> Some reason | _ \<Rightarrow> askSuppression ps d subject))"

text \<open>
  The selection of the first policy with an opinion: \<open>Some None\<close> is a selection whose
  \<open>channelIds\<close> is \<open>null\<close>.
\<close>

fun askRoutes :: "dispatch_policy list \<Rightarrow> db \<Rightarrow> dispatch_subject \<Rightarrow> string list option option" where
  "askRoutes [] d subject = None"
| "askRoutes (p # ps) d subject =
     (case dy_routes p of
        None \<Rightarrow> askRoutes ps d subject
      | Some ask \<Rightarrow>
          (case ask d subject of Inr (Some selection) \<Rightarrow> Some selection | _ \<Rightarrow> askRoutes ps d subject))"

section \<open>Channels\<close>

definition subjectOf :: "string \<Rightarrow> nat option \<Rightarrow> intent_dispatch \<Rightarrow> dispatch_subject" where
  "subjectOf organizationId incidentId input =
     \<lparr>ds_organizationId = organizationId, ds_event = dp_event input, ds_causeKey = dp_causeKey input,
      ds_monitorId = dp_monitorId input, ds_monitorType = dp_monitorType input, ds_incidentId = incidentId,
      ds_severity = eventSeverity (dp_event input)\<rparr>"

definition channelsByIds :: "string \<Rightarrow> string list \<Rightarrow> db \<Rightarrow> channel_row list" where
  "channelsByIds organizationId channelIds d =
     List.map_filter (\<lambda>i. List.find (\<lambda>c. nc_id c = i)
         (filter (\<lambda>c. nc_organizationId c = organizationId \<and> nc_enabled c \<and> nc_id c \<in> set channelIds) (db_channels d)))
       channelIds"

definition routes_to :: "string \<Rightarrow> string \<Rightarrow> string option \<Rightarrow> channel_row \<Rightarrow> bool" where
  "routes_to organizationId cls monitorId c \<longleftrightarrow>
     nc_organizationId c = organizationId \<and> nc_enabled c \<and> cls \<in> set (nc_events c) \<and>
     (\<not> nc_scopedToMonitors c \<or> (case monitorId of None \<Rightarrow> False | Some m \<Rightarrow> m \<in> set (nc_monitors c)))"

definition resolveRoutes :: "string \<Rightarrow> webhook_event \<Rightarrow> string option \<Rightarrow> string option \<Rightarrow> db \<Rightarrow> channel_row list" where
  "resolveRoutes organizationId ev monitorType monitorId d =
     (let cls = classifyEvent ev monitorType
      in if cls = ''none'' then []
         else sort_key (\<lambda>c. (nc_createdAt c, nc_id c)) (filter (routes_to organizationId cls monitorId) (db_channels d)))"

definition join_lines :: "string list \<Rightarrow> string" where
  "join_lines ls = foldr (\<lambda>l acc. if acc = [] then l else l @ [CHR 0x0A] @ acc) ls []"

definition channel_message :: "date \<Rightarrow> string \<Rightarrow> intent_dispatch \<Rightarrow> json" where
  "channel_message now organizationId input =
     JObj ([(''kind'', Some (JStr ''channel'')), (''event'', Some (JStr (event_text (dp_event input)))),
            (''title'', Some (JStr (take 297 (eventLabel (dp_event input) @ '' - '' @ dp_subject input)))),
            (''text'', Some (JStr (take 4000 (join_lines (filter (\<lambda>l. l \<noteq> []) (List.map_filter id (dp_detail input)))))))] @
           (if dp_url input \<noteq> [] then [(''url'', Some (JStr (dp_url input)))] else []) @
           [(''severity'', Some (JStr (message_severity_text (eventSeverity (dp_event input))))),
            (''organizationId'', Some (JStr organizationId)), (''data'', Some (dp_data input)),
            (''timestamp'', Some (JStr (toISOString now)))])"

definition matching_channels :: "dispatch_policy list \<Rightarrow> string \<Rightarrow> nat option \<Rightarrow> intent_dispatch \<Rightarrow> db \<Rightarrow> channel_row list" where
  "matching_channels policies organizationId incidentId input d =
     (case askRoutes policies d (subjectOf organizationId incidentId input) of
        Some (Some channelIds) \<Rightarrow> channelsByIds organizationId channelIds d
      | _ \<Rightarrow> resolveRoutes organizationId (dp_event input) (dp_monitorType input) (dp_monitorId input) d)"

definition channel_outbox :: "date \<Rightarrow> string \<Rightarrow> intent_dispatch \<Rightarrow> channel_row \<Rightarrow> outbox_message" where
  "channel_outbox now organizationId input c =
     \<lparr>om_organizationId = organizationId, om_idempotencyKey = dp_causeKey input @ '':channel:'' @ nc_id c,
      om_channel = Ch_channel, om_channelId = Some (nc_id c), om_provider = Some (nc_provider c),
      om_event = Some (event_text (dp_event input)),
      om_destination = (if nc_destination c \<noteq> [] then nc_destination c else nc_name c),
      om_payload = channel_message now organizationId input, om_replayOf = None\<rparr>"

text \<open>
  What is fixed while an intent expands: the policies, the providers this build has, the
  retry horizon and the clock of the transaction.
\<close>

record dispatch_env =
  en_policies :: "dispatch_policy list"
  en_getProvider :: "string \<Rightarrow> bool"
  en_horizonHours :: int
  en_now :: date

definition enqueue_all :: "dispatch_env \<Rightarrow> outbox_message list \<Rightarrow> db \<Rightarrow> db \<times> nat" where
  "enqueue_all env messages d =
     (let (b, n) = enqueueMany (en_horizonHours env) (en_now env) messages (db_outbox d) in (d\<lparr>db_outbox := b\<rparr>, n))"

definition dispatchToChannels :: "dispatch_env \<Rightarrow> string \<Rightarrow> nat option \<Rightarrow> intent_dispatch \<Rightarrow> db \<Rightarrow> db \<times> nat" where
  "dispatchToChannels env organizationId incidentId input d =
     (if askSuppression (en_policies env) d (subjectOf organizationId incidentId input) \<noteq> None then (d, 0)
      else (let matching = matching_channels (en_policies env) organizationId incidentId input d
            in if matching = [] then (d, 0)
               else enqueue_all env (map (channel_outbox (en_now env) organizationId input)
                      (filter (\<lambda>c. en_getProvider env (nc_provider c)) matching)) d))"

section \<open>Members\<close>

definition NOTIFIED_ROLES :: "string list" where
  "NOTIFIED_ROLES = [''owner'', ''admin'', ''responder'']"

definition recipientEmails :: "string \<Rightarrow> db \<Rightarrow> string list" where
  "recipientEmails organizationId d =
     map mb_email (filter (\<lambda>m. mb_organizationId m = organizationId \<and> mb_role m \<in> set NOTIFIED_ROLES) (db_members d))"

definition member_outbox :: "string \<Rightarrow> intent_email \<Rightarrow> string \<Rightarrow> outbox_message" where
  "member_outbox organizationId email to =
     \<lparr>om_organizationId = organizationId, om_idempotencyKey = em_causeKey email @ '':'' @ to, om_channel = Ch_email,
      om_channelId = None, om_provider = None, om_event = Some (event_text (em_event email)), om_destination = to,
      om_payload = JObj [(''subject'', Some (JStr (em_subject email))), (''text'', Some (JStr (em_text email)))],
      om_replayOf = None\<rparr>"

definition enqueueMemberEmails :: "dispatch_env \<Rightarrow> string \<Rightarrow> intent_email \<Rightarrow> db \<Rightarrow> db \<times> nat" where
  "enqueueMemberEmails env organizationId email d =
     (let recipients = recipientEmails organizationId d
      in if recipients = [] then (d, 0)
         else enqueue_all env (map (member_outbox organizationId email) recipients) d)"

section \<open>Subscribers\<close>

text \<open>The last index of a character, \<open>lastIndexOf\<close>; \<open>None\<close> is \<open>-1\<close>.\<close>

definition last_index :: "char \<Rightarrow> string \<Rightarrow> nat option" where
  "last_index c s = (if c \<in> set s then Some (length s - Suc (length (takeWhile (\<lambda>x. x \<noteq> c) (rev s)))) else None)"

definition maskEmail :: "string \<Rightarrow> string" where
  "maskEmail address =
     (case last_index (CHR ''@'') address of
        None \<Rightarrow> ''subscriber''
      | Some pos \<Rightarrow>
          if pos = 0 then ''subscriber''
          else (let local = take pos address; domain = drop pos address
                in take 1 local @ replicate (max (length local - 1) 1) (CHR ''*'') @ domain))"

definition EVENT_OF :: "subscriber_kind \<Rightarrow> string" where
  "EVENT_OF k = (case k of Sub_opened \<Rightarrow> ''incident.opened'' | Sub_updated \<Rightarrow> ''incident.updated'' | Sub_resolved \<Rightarrow> ''incident.resolved'')"

definition listConfirmedSubscribers :: "string \<Rightarrow> db \<Rightarrow> subscriber_row list" where
  "listConfirmedSubscribers statusPageId d = filter (\<lambda>s. sb_pageId s = statusPageId \<and> sb_confirmedAt s \<noteq> None) (db_subscribers d)"

definition subscriber_payload :: "intent_subscribers \<Rightarrow> page_row \<Rightarrow> subscriber_row \<Rightarrow> json" where
  "subscriber_payload input page subscriber =
     JObj ([(''kind'', Some (JStr ''subscriber-incident'')), (''subscriberId'', Some (JStr (sb_id subscriber))),
            (''pageId'', Some (JStr (pg_id page))), (''pageName'', Some (JStr (pg_name page))),
            (''pageSlug'', Some (JStr (pg_slug page))), (''incidentTitle'', Some (JStr (su_incidentTitle input))),
            (''event'', Some (JStr (subscriber_text (su_kind input))))] @
           (if truthy (su_latestUpdate input) then [(''latestUpdate'', Some (JStr (the (su_latestUpdate input))))] else []))"

definition subscriber_outbox :: "string \<Rightarrow> intent_subscribers \<Rightarrow> page_row \<Rightarrow> subscriber_row \<Rightarrow> outbox_message" where
  "subscriber_outbox organizationId input page subscriber =
     \<lparr>om_organizationId = organizationId,
      om_idempotencyKey = su_causeKey input @ '':page:'' @ pg_id page @ '':sub:'' @ sb_id subscriber,
      om_channel = Ch_email, om_channelId = None, om_provider = None, om_event = Some (EVENT_OF (su_kind input)),
      om_destination = maskEmail (sb_email subscriber), om_payload = subscriber_payload input page subscriber,
      om_replayOf = None\<rparr>"

definition listed_pages :: "string \<Rightarrow> string option \<Rightarrow> db \<Rightarrow> page_row list" where
  "listed_pages organizationId listedMonitorId d =
     filter (\<lambda>p. case listedMonitorId of None \<Rightarrow> True | Some m \<Rightarrow> m \<in> set (pg_monitors p))
       (filter (\<lambda>p. pg_organizationId p = organizationId \<and> pg_published p \<and> pg_public p) (db_pages d))"

definition enqueueSubscriberEmails :: "dispatch_env \<Rightarrow> string \<Rightarrow> intent_subscribers \<Rightarrow> db \<Rightarrow> db \<times> nat" where
  "enqueueSubscriberEmails env organizationId input d =
     (let listedMonitorId = (if su_source input = Src_manual then None else su_monitorId input)
      in if su_source input \<noteq> Src_manual \<and> listedMonitorId = None then (d, 0)
         else enqueue_all env
                (concat (map (\<lambda>page. map (subscriber_outbox organizationId input page) (listConfirmedSubscribers (pg_id page) d))
                   (listed_pages organizationId listedMonitorId d))) d)"

section \<open>Expansion\<close>

definition MAX_EXPANSION_ATTEMPTS :: nat where
  "MAX_EXPANSION_ATTEMPTS = 10"

definition EXPANSION_BATCH :: nat where
  "EXPANSION_BATCH = 50"

definition SUBSCRIBER_EVENT :: "subscriber_kind \<Rightarrow> webhook_event" where
  "SUBSCRIBER_EVENT k = (case k of Sub_opened \<Rightarrow> Incident_opened | Sub_updated \<Rightarrow> Incident_updated | Sub_resolved \<Rightarrow> Incident_resolved)"

definition audience_subject ::
  "string \<Rightarrow> nat option \<Rightarrow> intent_payload \<Rightarrow> webhook_event \<Rightarrow> string \<Rightarrow> dispatch_subject" where
  "audience_subject organizationId incidentId payload ev causeKey =
     (let subjectMonitor = List.find (\<lambda>dp. truthy (dp_monitorId dp)) (pl_dispatches payload);
          fromSubscribers = Option.bind (pl_subscribers payload) su_monitorId
      in \<lparr>ds_organizationId = organizationId, ds_event = ev, ds_causeKey = causeKey,
          ds_monitorId = (case Option.bind subjectMonitor dp_monitorId of Some m \<Rightarrow> Some m | None \<Rightarrow> fromSubscribers),
          ds_monitorType = Option.bind subjectMonitor dp_monitorType, ds_incidentId = incidentId,
          ds_severity = eventSeverity ev\<rparr>)"

definition expand_members :: "dispatch_env \<Rightarrow> string \<Rightarrow> nat option \<Rightarrow> intent_payload \<Rightarrow> db \<Rightarrow> db \<times> nat" where
  "expand_members env organizationId incidentId payload d =
     (case pl_memberEmail payload of
        None \<Rightarrow> (d, 0)
      | Some email \<Rightarrow>
          if askSuppression (en_policies env) d (audience_subject organizationId incidentId payload (em_event email) (em_causeKey email)) \<noteq> None
          then (d, 0) else enqueueMemberEmails env organizationId email d)"

definition expand_subscribers :: "dispatch_env \<Rightarrow> string \<Rightarrow> nat option \<Rightarrow> intent_payload \<Rightarrow> db \<Rightarrow> db \<times> nat" where
  "expand_subscribers env organizationId incidentId payload d =
     (case pl_subscribers payload of
        None \<Rightarrow> (d, 0)
      | Some s \<Rightarrow>
          if askSuppression (en_policies env) d
               (audience_subject organizationId incidentId payload (SUBSCRIBER_EVENT (su_kind s)) (su_causeKey s)) \<noteq> None
          then (d, 0) else enqueueSubscriberEmails env organizationId s d)"

definition expandPayload :: "dispatch_env \<Rightarrow> string \<Rightarrow> nat option \<Rightarrow> intent_payload \<Rightarrow> db \<Rightarrow> db \<times> nat" where
  "expandPayload env organizationId incidentId payload d =
     (let (d1, n1) = fold (\<lambda>dispatch (d, n). let (d', k) = dispatchToChannels env organizationId incidentId dispatch d in (d', n + k))
                       (pl_dispatches payload) (d, 0);
          (d2, n2) = expand_members env organizationId incidentId payload d1;
          (d3, n3) = expand_subscribers env organizationId incidentId payload d2
      in (d3, n1 + n2 + n3))"

definition update_intent :: "nat \<Rightarrow> (intent_row \<Rightarrow> bool) \<Rightarrow> (intent_row \<Rightarrow> intent_row) \<Rightarrow> db \<Rightarrow> db" where
  "update_intent i guard f d = d\<lparr>db_intents := map (\<lambda>r. if it_id r = i \<and> guard r then f r else r) (db_intents d)\<rparr>"

text \<open>
  One intent in one transaction. \<open>locked\<close> is another worker's row lock, \<open>refusal\<close> the error
  the database raised, which rolls everything back.
\<close>

definition expandOne :: "dispatch_env \<Rightarrow> bool \<Rightarrow> string option \<Rightarrow> nat \<Rightarrow> db \<Rightarrow> (db \<times> bool \<times> nat) result" where
  "expandOne env locked refusal intentId d =
     (case List.find (\<lambda>r. it_id r = intentId \<and> it_state r = Pending \<and> \<not> locked) (db_intents d) of
        None \<Rightarrow> Inr (d, False, 0)
      | Some row \<Rightarrow>
          (case refusal of
             Some e \<Rightarrow> Inl e
           | None \<Rightarrow>
               (let (d1, queued) = expandPayload env (it_organizationId row) (it_incidentId row) (it_payload row) d
                in Inr (update_intent (it_id row) (\<lambda>r. it_state r = Pending) 
                      (\<lambda>r. r\<lparr>it_state := Expanded, it_expandedAt := Some (en_now env), it_lastError := None\<rparr>) d1,
                        True, queued))))"

datatype expansion_failure = Retried | Retired

definition recordExpansionFailure :: "nat \<Rightarrow> nat \<Rightarrow> string \<Rightarrow> db \<Rightarrow> db \<times> expansion_failure" where
  "recordExpansionFailure intentId seenAttempts message d =
     (let attempts = seenAttempts + 1; retire = MAX_EXPANSION_ATTEMPTS \<le> attempts
      in (update_intent intentId (\<lambda>_. True)
            (\<lambda>r. (r\<lparr>it_attempts := attempts, it_lastError := Some (take 2000 message)\<rparr>)
                   \<lparr>it_state := (if retire then Failed else it_state r)\<rparr>) d,
          if retire then Retired else Retried))"

record expansion_result =
  xr_expanded :: nat
  xr_queued :: nat
  xr_retried :: nat
  xr_failed :: nat

definition expand_intent ::
  "dispatch_env \<Rightarrow> (nat \<Rightarrow> bool) \<Rightarrow> (nat \<Rightarrow> string option) \<Rightarrow> intent_row \<Rightarrow> db \<times> expansion_result \<Rightarrow> db \<times> expansion_result" where
  "expand_intent env locked refusal intent = (\<lambda>(d, r).
     case expandOne env (locked (it_id intent)) (refusal (it_id intent)) (it_id intent) d of
       Inr (d', expanded, queued) \<Rightarrow>
         (d', if expanded then r\<lparr>xr_expanded := xr_expanded r + 1, xr_queued := xr_queued r + queued\<rparr> else r)
     | Inl e \<Rightarrow>
         (case recordExpansionFailure (it_id intent) (it_attempts intent) e d of
            (d', Retried) \<Rightarrow> (d', r\<lparr>xr_retried := xr_retried r + 1\<rparr>)
          | (d', Retired) \<Rightarrow> (d', r\<lparr>xr_failed := xr_failed r + 1\<rparr>)))"

definition expandPendingIntents ::
  "dispatch_env \<Rightarrow> (nat \<Rightarrow> bool) \<Rightarrow> (nat \<Rightarrow> string option) \<Rightarrow> string option \<Rightarrow> nat option \<Rightarrow> db \<Rightarrow> db \<times> expansion_result" where
  "expandPendingIntents env locked refusal organizationId limit d =
     fold (expand_intent env locked refusal)
       (pendingIntents (case limit of None \<Rightarrow> EXPANSION_BATCH | Some n \<Rightarrow> n) organizationId d)
       (d, \<lparr>xr_expanded = 0, xr_queued = 0, xr_retried = 0, xr_failed = 0\<rparr>)"

end
