(* ===== verification/Expansion_Laws.thy ===== *)
theory Expansion_Laws
  imports Expansion Outbox_Machine
begin

text \<open>
  What expanding an intent does: exactly the messages it owes appear in the outbox,
  once, addressed inside the organization; nothing else changes. A policy that throws
  cannot keep a message from being sent.
\<close>

section \<open>Enqueueing adds rows and nothing else\<close>

definition keys :: "db \<Rightarrow> string set" where
  "keys d = ob_idempotencyKey ` set (bx_rows (db_outbox d))"

definition adds :: "(outbox_row \<Rightarrow> bool) \<Rightarrow> db \<Rightarrow> db \<Rightarrow> bool" where
  "adds P d d' \<longleftrightarrow> (\<exists>b new. d' = d\<lparr>db_outbox := b\<rparr> \<and> bx_rows b = bx_rows (db_outbox d) @ new \<and> (\<forall>r \<in> set new. P r))"

lemma adds_refl: "adds P d d"
  unfolding adds_def by (intro exI [of _ "db_outbox d"] exI [of _ "[]"]) simp

lemma adds_trans: "adds P d d' \<Longrightarrow> adds P d' d'' \<Longrightarrow> adds P d d''"
  unfolding adds_def by fastforce

lemma adds_mono: "adds P d d' \<Longrightarrow> (\<And>r. P r \<Longrightarrow> Q r) \<Longrightarrow> adds Q d d'"
  unfolding adds_def by fastforce

lemma adds_frame:
  assumes "adds P d d'"
  shows "db_channels d' = db_channels d" and "db_members d' = db_members d" and "db_pages d' = db_pages d"
    and "db_subscribers d' = db_subscribers d" and "db_intents d' = db_intents d" and "db_monitors d' = db_monitors d"
    and "db_incidents d' = db_incidents d" and "db_events d' = db_events d" and "db_checks d' = db_checks d"
    and "db_ledger d' = db_ledger d" and "db_heartbeats d' = db_heartbeats d" and "db_nextId d' = db_nextId d"
    and "db_audit d' = db_audit d"
  using assms by (auto simp: adds_def)

lemma adds_new: "adds P d d' \<Longrightarrow> r \<in> set (bx_rows (db_outbox d')) \<Longrightarrow> r \<notin> set (bx_rows (db_outbox d)) \<Longrightarrow> P r"
  by (auto simp: adds_def)

abbreviation enqueue_one :: "int \<Rightarrow> date \<Rightarrow> outbox_message \<Rightarrow> outbox \<times> nat \<Rightarrow> outbox \<times> nat" where
  "enqueue_one hours now \<equiv> \<lambda>message (b, n). case enqueue hours now message b of (b', None) \<Rightarrow> (b', n) | (b', Some _) \<Rightarrow> (b', Suc n)"

lemma enqueue_cases:
  "enqueue hours now m b = (b, None) \<and> om_idempotencyKey m \<in> ob_idempotencyKey ` set (bx_rows b) \<or>
   (\<exists>b'. enqueue hours now m b = (b', Some (row_of hours now (bx_nextId b) m)) \<and>
      bx_rows b' = bx_rows b @ [row_of hours now (bx_nextId b) m])"
  by (simp add: enqueue_def Let_def)

text \<open>The fold over a batch, whatever has been counted so far.\<close>

lemma enqueue_fold:
  "\<exists>new k. bx_rows (fst (fold (enqueue_one hours now) ms (b, n))) = bx_rows b @ new \<and>
     snd (fold (enqueue_one hours now) ms (b, n)) = n + k \<and>
     (\<forall>r \<in> set new. \<exists>m \<in> set ms. \<exists>i. r = row_of hours now i m) \<and>
     ob_idempotencyKey ` (set (bx_rows b) \<union> set new) = ob_idempotencyKey ` set (bx_rows b) \<union> om_idempotencyKey ` set ms \<and>
     (om_idempotencyKey ` set ms \<subseteq> ob_idempotencyKey ` set (bx_rows b) \<longrightarrow> fold (enqueue_one hours now) ms (b, n) = (b, n))"
proof (induction ms arbitrary: b n)
  case Nil
  show ?case by simp
next
  case (Cons m ms)
  consider (known) "enqueue hours now m b = (b, None)" "om_idempotencyKey m \<in> ob_idempotencyKey ` set (bx_rows b)"
    | (fresh) b' where "enqueue hours now m b = (b', Some (row_of hours now (bx_nextId b) m))"
        "bx_rows b' = bx_rows b @ [row_of hours now (bx_nextId b) m]"
    using enqueue_cases [of hours now m b] by blast
  then show ?case
  proof cases
    case known
    have e: "enqueue_one hours now m (b, n) = (b, n)" by (simp add: known(1))
    obtain new k where ih: "bx_rows (fst (fold (enqueue_one hours now) ms (b, n))) = bx_rows b @ new"
        "snd (fold (enqueue_one hours now) ms (b, n)) = n + k"
        "\<forall>r \<in> set new. \<exists>m \<in> set ms. \<exists>i. r = row_of hours now i m"
        "ob_idempotencyKey ` (set (bx_rows b) \<union> set new) = ob_idempotencyKey ` set (bx_rows b) \<union> om_idempotencyKey ` set ms"
        "om_idempotencyKey ` set ms \<subseteq> ob_idempotencyKey ` set (bx_rows b) \<longrightarrow> fold (enqueue_one hours now) ms (b, n) = (b, n)"
      using Cons.IH [of b n] by blast
    have "ob_idempotencyKey ` set (bx_rows b) \<union> om_idempotencyKey ` set (m # ms) =
        ob_idempotencyKey ` set (bx_rows b) \<union> om_idempotencyKey ` set ms"
      using known(2) by auto
    then show ?thesis
      using ih unfolding fold_simps(2) o_apply fold.simps e
      by (intro exI [of _ new] exI [of _ k]) (simp add: known(2))
  next
    case fresh
    let ?r = "row_of hours now (bx_nextId b) m"
    have e: "enqueue_one hours now m (b, n) = (b', Suc n)" by (simp add: fresh(1))
    have new: "om_idempotencyKey m \<notin> ob_idempotencyKey ` set (bx_rows b)"
      using fresh(1) by (auto simp: enqueue_def split: if_splits)
    obtain new k where ih: "bx_rows (fst (fold (enqueue_one hours now) ms (b', Suc n))) = bx_rows b' @ new"
        "snd (fold (enqueue_one hours now) ms (b', Suc n)) = Suc n + k"
        "\<forall>r \<in> set new. \<exists>m \<in> set ms. \<exists>i. r = row_of hours now i m"
        "ob_idempotencyKey ` (set (bx_rows b') \<union> set new) = ob_idempotencyKey ` set (bx_rows b') \<union> om_idempotencyKey ` set ms"
      using Cons.IH [of b' "Suc n"] by blast
    have key: "ob_idempotencyKey ?r = om_idempotencyKey m" by (simp add: row_of_def)
    have "ob_idempotencyKey ` (set (bx_rows b) \<union> set (?r # new)) =
        ob_idempotencyKey ` set (bx_rows b) \<union> om_idempotencyKey ` set (m # ms)"
      using ih(4) fresh(2) key by (simp add: image_Un)
    then show ?thesis
      using ih(1-3) fresh(2) new unfolding fold_simps(2) o_apply fold.simps e
      by (intro exI [of _ "?r # new"] exI [of _ "Suc k"]) auto
  qed
qed

lemma enqueue_all_spec:
  assumes "enqueue_all env ms d = (d', n)"
  shows "adds (\<lambda>r. \<exists>m \<in> set ms. \<exists>i. r = row_of (en_horizonHours env) (en_now env) i m) d d'"
    and "keys d' = keys d \<union> om_idempotencyKey ` set ms"
    and "om_idempotencyKey ` set ms \<subseteq> keys d \<Longrightarrow> d' = d \<and> n = 0"
proof -
  obtain b k where e: "enqueueMany (en_horizonHours env) (en_now env) ms (db_outbox d) = (b, k)" by fastforce
  then have d': "d' = d\<lparr>db_outbox := b\<rparr>" "n = k" using assms by (simp_all add: enqueue_all_def)
  have f: "fold (enqueue_one (en_horizonHours env) (en_now env)) ms (db_outbox d, 0) = (b, k)" using e by (simp add: enqueueMany_def)
  obtain new where new: "bx_rows b = bx_rows (db_outbox d) @ new"
      "\<forall>r \<in> set new. \<exists>m \<in> set ms. \<exists>i. r = row_of (en_horizonHours env) (en_now env) i m"
      "ob_idempotencyKey ` (set (bx_rows (db_outbox d)) \<union> set new) =
         ob_idempotencyKey ` set (bx_rows (db_outbox d)) \<union> om_idempotencyKey ` set ms"
      "om_idempotencyKey ` set ms \<subseteq> ob_idempotencyKey ` set (bx_rows (db_outbox d)) \<longrightarrow> b = db_outbox d \<and> k = 0"
    using enqueue_fold [of "en_horizonHours env" "en_now env" ms "db_outbox d" 0] unfolding f by auto
  show "adds (\<lambda>r. \<exists>m \<in> set ms. \<exists>i. r = row_of (en_horizonHours env) (en_now env) i m) d d'"
    unfolding adds_def d' using new(1,2) by blast
  show "keys d' = keys d \<union> om_idempotencyKey ` set ms" using new(1,3) by (simp add: keys_def d')
  show "om_idempotencyKey ` set ms \<subseteq> keys d \<Longrightarrow> d' = d \<and> n = 0" using new(4) by (simp add: keys_def d')
qed

section \<open>Who a message is for\<close>

lemma map_filter_mem: "y \<in> set (List.map_filter f xs) \<longleftrightarrow> (\<exists>x \<in> set xs. f x = Some y)"
  by (force simp: List.map_filter_def)

text \<open>
  Where the row of an organization may go: an enabled channel of the organization, a
  member with a role that is notified, or, under a masked address, a confirmed subscriber
  of a page the organization published.
\<close>

definition member_of :: "string \<Rightarrow> db \<Rightarrow> string \<Rightarrow> bool" where
  "member_of org d address \<longleftrightarrow> (\<exists>m \<in> set (db_members d). mb_organizationId m = org \<and> mb_role m \<in> set NOTIFIED_ROLES \<and> mb_email m = address)"

definition subscribed :: "string \<Rightarrow> db \<Rightarrow> string \<Rightarrow> bool" where
  "subscribed org d shown \<longleftrightarrow> (\<exists>p \<in> set (db_pages d). \<exists>u \<in> set (db_subscribers d). pg_organizationId p = org \<and> pg_published p \<and>
     pg_public p \<and> sb_pageId u = pg_id p \<and> sb_confirmedAt u \<noteq> None \<and> shown = maskEmail (sb_email u))"

lemma subscribedI:
  "p \<in> set (db_pages d) \<Longrightarrow> u \<in> set (db_subscribers d) \<Longrightarrow> pg_published p \<Longrightarrow> pg_public p \<Longrightarrow> sb_pageId u = pg_id p \<Longrightarrow>
   sb_confirmedAt u = Some t \<Longrightarrow> subscribed (pg_organizationId p) d (maskEmail (sb_email u))"
  by (auto simp: subscribed_def)

definition inside :: "string \<Rightarrow> db \<Rightarrow> outbox_row \<Rightarrow> bool" where
  "inside org d r \<longleftrightarrow> ob_organizationId r = org \<and> ob_state r = Ob_queued \<and>
     (case ob_channelId r of
        None \<Rightarrow> ob_channel r = Ch_email \<and> (member_of org d (ob_destination r) \<or> subscribed org d (ob_destination r))
      | Some i \<Rightarrow> ob_channel r = Ch_channel \<and> (\<exists>c \<in> set (db_channels d). nc_id c = i \<and> nc_organizationId c = org \<and> nc_enabled c))"

lemma inside_frame: "adds P d d' \<Longrightarrow> inside org d' = inside org d"
  by (auto simp: inside_def member_of_def subscribed_def fun_eq_iff adds_frame cong: option.case_cong)

lemma channelsByIds_mem:
  "c \<in> set (channelsByIds org ids d) \<Longrightarrow> c \<in> set (db_channels d) \<and> nc_organizationId c = org \<and> nc_enabled c"
proof -
  assume "c \<in> set (channelsByIds org ids d)"
  then obtain i where "List.find (\<lambda>c. nc_id c = i)
      (filter (\<lambda>c. nc_organizationId c = org \<and> nc_enabled c \<and> nc_id c \<in> set ids) (db_channels d)) = Some c"
    by (auto simp: channelsByIds_def map_filter_mem)
  then show ?thesis by (auto dest: find_Some_mem)
qed

lemma resolveRoutes_mem:
  "c \<in> set (resolveRoutes org ev ty m d) \<longleftrightarrow> classifyEvent ev ty \<noteq> ''none'' \<and> c \<in> set (db_channels d) \<and> routes_to org (classifyEvent ev ty) m c"
  by (auto simp: resolveRoutes_def Let_def)

lemma matching_mem:
  assumes "c \<in> set (matching_channels ps org inc dp d)"
  shows "c \<in> set (db_channels d) \<and> nc_organizationId c = org \<and> nc_enabled c"
  using assms by (auto simp: matching_channels_def resolveRoutes_mem routes_to_def dest: channelsByIds_mem split: option.splits)

lemma dispatch_inside:
  assumes "dispatchToChannels env org inc dp d = (d', n)"
  shows "adds (inside org d) d d'"
proof (cases "d' = d")
  case True
  then show ?thesis by (simp add: adds_refl)
next
  case False
  let ?cs = "filter (\<lambda>c. en_getProvider env (nc_provider c)) (matching_channels (en_policies env) org inc dp d)"
  have e: "enqueue_all env (map (channel_outbox (en_now env) org dp) ?cs) d = (d', n)"
    using assms False by (auto simp: dispatchToChannels_def Let_def split: if_splits)
  show ?thesis
    by (rule adds_mono [OF enqueue_all_spec(1) [OF e]])
      (use matching_mem in \<open>fastforce simp: inside_def row_of_def channel_outbox_def\<close>)
qed

lemma members_inside:
  assumes "enqueueMemberEmails env org email d = (d', n)"
  shows "adds (inside org d) d d'"
proof (cases "recipientEmails org d = []")
  case True
  then show ?thesis using assms by (simp add: enqueueMemberEmails_def adds_refl)
next
  case False
  then have e: "enqueue_all env (map (member_outbox org email) (recipientEmails org d)) d = (d', n)"
    using assms by (simp add: enqueueMemberEmails_def)
  show ?thesis
    by (rule adds_mono [OF enqueue_all_spec(1) [OF e]])
      (auto simp: inside_def member_of_def recipientEmails_def row_of_def member_outbox_def)
qed

definition listed_monitor :: "intent_subscribers \<Rightarrow> string option" where
  "listed_monitor s = (if su_source s = Src_manual then None else su_monitorId s)"

definition subscriber_messages :: "string \<Rightarrow> intent_subscribers \<Rightarrow> db \<Rightarrow> outbox_message list" where
  "subscriber_messages org s d =
     (if su_source s \<noteq> Src_manual \<and> su_monitorId s = None then []
      else concat (map (\<lambda>page. map (subscriber_outbox org s page) (listConfirmedSubscribers (pg_id page) d))
             (listed_pages org (listed_monitor s) d)))"

lemma enqueue_all_nil [simp]: "enqueue_all env [] d = (d, 0)"
  by (simp add: enqueue_all_def enqueueMany_def)

lemma subscribers_enqueue: "enqueueSubscriberEmails env org s d = enqueue_all env (subscriber_messages org s d) d"
  by (auto simp: enqueueSubscriberEmails_def subscriber_messages_def listed_monitor_def Let_def)

lemma subscribers_inside:
  assumes "enqueueSubscriberEmails env org s d = (d', n)"
  shows "adds (inside org d) d d'"
  by (rule adds_mono [OF enqueue_all_spec(1) [OF assms [unfolded subscribers_enqueue]]])
    (auto simp: inside_def row_of_def subscriber_outbox_def subscriber_messages_def listed_pages_def
      listConfirmedSubscribers_def split: if_splits intro!: disjI2 subscribedI)

abbreviation dispatch_fold where
  "dispatch_fold env org inc \<equiv> \<lambda>dispatch (d, n). let (d', k) = dispatchToChannels env org inc dispatch d in (d', n + k)"

lemma dispatches_inside:
  "adds (inside org d) d (fst (fold (dispatch_fold env org inc) dps (d, n)))"
proof (induction dps arbitrary: d n)
  case (Cons dp dps)
  obtain d1 k where e: "dispatchToChannels env org inc dp d = (d1, k)" by fastforce
  have "adds (inside org d) d d1" by (rule dispatch_inside [OF e])
  moreover have "adds (inside org d) d1 (fst (fold (dispatch_fold env org inc) dps (d1, n + k)))"
    using Cons.IH [of d1 "n + k"] inside_frame [OF calculation] by simp
  ultimately show ?case by (simp add: e adds_trans)
qed (simp add: adds_refl)

lemma expandPayload_inside:
  assumes "expandPayload env org inc payload d = (d', n)"
  shows "adds (inside org d) d d'"
proof -
  obtain d1 n1 where 1: "fold (dispatch_fold env org inc) (pl_dispatches payload) (d, 0) = (d1, n1)" by fastforce
  obtain d2 n2 where 2: "expand_members env org inc payload d1 = (d2, n2)" by fastforce
  obtain n3 where 3: "expand_subscribers env org inc payload d2 = (d', n3)"
    using assms 1 2 by (auto simp: expandPayload_def split: prod.splits)
  have a1: "adds (inside org d) d d1" using dispatches_inside [of org d env inc "pl_dispatches payload" 0] 1 by simp
  have "adds (inside org d1) d1 d2"
    using 2 by (auto simp: expand_members_def adds_refl split: option.splits if_splits intro: members_inside)
  then have a2: "adds (inside org d) d d2" using a1 inside_frame [OF a1] by (metis adds_trans)
  have "adds (inside org d2) d2 d'"
    using 3 by (auto simp: expand_subscribers_def adds_refl split: option.splits if_splits intro: subscribers_inside)
  then show ?thesis using a2 inside_frame [OF a2] by (metis adds_trans)
qed

section \<open>What an intent owes\<close>

text \<open>The keys of the messages a payload owes with no policy registered, which is this edition.\<close>

definition owed_channels :: "dispatch_env \<Rightarrow> string \<Rightarrow> db \<Rightarrow> intent_dispatch \<Rightarrow> string set" where
  "owed_channels env org d dp =
     {dp_causeKey dp @ '':channel:'' @ nc_id c | c. c \<in> set (db_channels d) \<and> en_getProvider env (nc_provider c) \<and>
        routes_to org (classifyEvent (dp_event dp) (dp_monitorType dp)) (dp_monitorId dp) c}"

definition owed_members :: "string \<Rightarrow> db \<Rightarrow> intent_payload \<Rightarrow> string set" where
  "owed_members org d payload =
     {em_causeKey e @ '':'' @ mb_email m | e m. pl_memberEmail payload = Some e \<and> m \<in> set (db_members d) \<and>
        mb_organizationId m = org \<and> mb_role m \<in> set NOTIFIED_ROLES}"

definition owed_subscribers :: "string \<Rightarrow> db \<Rightarrow> intent_payload \<Rightarrow> string set" where
  "owed_subscribers org d payload =
     {su_causeKey s @ '':page:'' @ pg_id p @ '':sub:'' @ sb_id u | s p u. pl_subscribers payload = Some s \<and>
        p \<in> set (db_pages d) \<and> pg_organizationId p = org \<and> pg_published p \<and> pg_public p \<and>
        (su_source s = Src_manual \<or> (\<exists>m \<in> set (pg_monitors p). su_monitorId s = Some m)) \<and>
        u \<in> set (db_subscribers d) \<and> sb_pageId u = pg_id p \<and> sb_confirmedAt u \<noteq> None}"

lemma classify_some: "classifyEvent ev ty \<noteq> ''none''"
  by (cases ev) (simp_all add: classifyEvent_def starts_with_def)

lemma dispatch_keys:
  assumes "en_policies env = []" and "dispatchToChannels env org inc dp d = (d', n)"
  shows "keys d' = keys d \<union> owed_channels env org d dp"
    and "owed_channels env org d dp \<subseteq> keys d \<Longrightarrow> d' = d \<and> n = 0"
proof -
  let ?cs = "filter (\<lambda>c. en_getProvider env (nc_provider c)) (resolveRoutes org (dp_event dp) (dp_monitorType dp) (dp_monitorId dp) d)"
  have e: "enqueue_all env (map (channel_outbox (en_now env) org dp) ?cs) d = (d', n)"
    using assms by (auto simp: dispatchToChannels_def matching_channels_def Let_def split: if_splits)
  have o: "om_idempotencyKey ` set (map (channel_outbox (en_now env) org dp) ?cs) = owed_channels env org d dp"
    by (auto simp: owed_channels_def resolveRoutes_mem classify_some channel_outbox_def image_iff)
  show "keys d' = keys d \<union> owed_channels env org d dp" using enqueue_all_spec(2) [OF e] o by simp
  show "owed_channels env org d dp \<subseteq> keys d \<Longrightarrow> d' = d \<and> n = 0" using enqueue_all_spec(3) [OF e] o by simp
qed

lemma owed_channels_frame: "db_channels d' = db_channels d \<Longrightarrow> owed_channels env org d' dp = owed_channels env org d dp"
  by (simp add: owed_channels_def)

lemma dispatches_keys_aux:
  assumes "en_policies env = []"
  shows "fold (dispatch_fold env org inc) dps (d, n) = (d', n') \<Longrightarrow>
    keys d' = keys d \<union> (\<Union>dp \<in> set dps. owed_channels env org d dp) \<and>
    ((\<Union>dp \<in> set dps. owed_channels env org d dp) \<subseteq> keys d \<longrightarrow> d' = d \<and> n' = n)"
proof (induction dps arbitrary: d n)
  case (Cons dp dps)
  obtain d1 k where e: "dispatchToChannels env org inc dp d = (d1, k)" by fastforce
  have rest: "fold (dispatch_fold env org inc) dps (d1, n + k) = (d', n')" using Cons.prems e by simp
  have c: "db_channels d1 = db_channels d" using adds_frame(1) [OF dispatch_inside [OF e]] .
  note ih = Cons.IH [OF rest, unfolded owed_channels_frame [OF c]]
  have "keys d' = keys d \<union> (\<Union>dp \<in> set (dp # dps). owed_channels env org d dp)"
    using ih dispatch_keys(1) [OF assms e] by auto
  moreover have "d' = d \<and> n' = n" if all: "(\<Union>dp \<in> set (dp # dps). owed_channels env org d dp) \<subseteq> keys d"
  proof -
    have "owed_channels env org d dp \<subseteq> keys d" using all by simp
    then have "d1 = d" "k = 0" using dispatch_keys(2) [OF assms e] by auto
    then show ?thesis using ih all by simp
  qed
  ultimately show ?case by blast
qed simp

lemma dispatches_keys:
  assumes "en_policies env = []" and "fold (dispatch_fold env org inc) dps (d, n) = (d', n')"
  shows "keys d' = keys d \<union> (\<Union>dp \<in> set dps. owed_channels env org d dp)"
    and "(\<Union>dp \<in> set dps. owed_channels env org d dp) \<subseteq> keys d \<Longrightarrow> d' = d \<and> n' = n"
  using dispatches_keys_aux [OF assms] by simp_all

lemma members_keys:
  assumes "en_policies env = []" and "expand_members env org inc payload d = (d', n)"
  shows "keys d' = keys d \<union> owed_members org d payload"
    and "owed_members org d payload \<subseteq> keys d \<Longrightarrow> d' = d \<and> n = 0"
proof -
  have "keys d' = keys d \<union> owed_members org d payload \<and> (owed_members org d payload \<subseteq> keys d \<longrightarrow> d' = d \<and> n = 0)"
  proof (cases "pl_memberEmail payload")
    case None
    then show ?thesis using assms by (simp add: expand_members_def owed_members_def)
  next
    case (Some email)
    have e: "enqueue_all env (map (member_outbox org email) (recipientEmails org d)) d = (d', n)"
      using assms Some by (auto simp: expand_members_def enqueueMemberEmails_def Let_def split: if_splits)
    have o: "om_idempotencyKey ` set (map (member_outbox org email) (recipientEmails org d)) = owed_members org d payload"
      using Some by (auto simp: owed_members_def recipientEmails_def member_outbox_def image_iff)
    show ?thesis using enqueue_all_spec(2,3) [OF e] o by simp
  qed
  then show "keys d' = keys d \<union> owed_members org d payload" "owed_members org d payload \<subseteq> keys d \<Longrightarrow> d' = d \<and> n = 0" by simp_all
qed

lemma subscriber_key:
  "om_idempotencyKey (subscriber_outbox org s p u) = su_causeKey s @ '':page:'' @ pg_id p @ '':sub:'' @ sb_id u"
  by (simp add: subscriber_outbox_def)

lemma subscriber_message_keys:
  assumes "pl_subscribers payload = Some s"
  shows "om_idempotencyKey ` set (subscriber_messages org s d) = owed_subscribers org d payload"
proof -
  have page: "p \<in> set (listed_pages org (listed_monitor s) d) \<longleftrightarrow> p \<in> set (db_pages d) \<and> pg_organizationId p = org \<and> pg_published p \<and> pg_public p \<and>
      (su_source s = Src_manual \<or> (\<exists>m \<in> set (pg_monitors p). su_monitorId s = Some m))"
    if "su_source s = Src_manual \<or> su_monitorId s \<noteq> None" for p
    using that by (auto simp: listed_pages_def listed_monitor_def split: option.splits)
  show ?thesis
  proof (cases "su_source s \<noteq> Src_manual \<and> su_monitorId s = None")
    case True
    then show ?thesis using assms by (auto simp: owed_subscribers_def subscriber_messages_def)
  next
    case False
    then have m: "su_source s = Src_manual \<or> su_monitorId s \<noteq> None" by auto
    have "om_idempotencyKey ` set (subscriber_messages org s d) =
        {om_idempotencyKey (subscriber_outbox org s p u) | p u. p \<in> set (listed_pages org (listed_monitor s) d) \<and>
           u \<in> set (listConfirmedSubscribers (pg_id p) d)}"
      using m by (auto simp: subscriber_messages_def image_iff)
    also have "\<dots> = owed_subscribers org d payload"
      unfolding owed_subscribers_def page [OF m] listConfirmedSubscribers_def subscriber_key using assms by auto
    finally show ?thesis .
  qed
qed

lemma subscribers_keys:
  assumes "en_policies env = []" and "expand_subscribers env org inc payload d = (d', n)"
  shows "keys d' = keys d \<union> owed_subscribers org d payload"
    and "owed_subscribers org d payload \<subseteq> keys d \<Longrightarrow> d' = d \<and> n = 0"
proof -
  have "keys d' = keys d \<union> owed_subscribers org d payload \<and> (owed_subscribers org d payload \<subseteq> keys d \<longrightarrow> d' = d \<and> n = 0)"
  proof (cases "pl_subscribers payload")
    case None
    then show ?thesis using assms by (simp add: expand_subscribers_def owed_subscribers_def)
  next
    case (Some s)
    have e: "enqueue_all env (subscriber_messages org s d) d = (d', n)"
      using assms Some by (simp add: expand_subscribers_def subscribers_enqueue)
    show ?thesis using enqueue_all_spec(2,3) [OF e] subscriber_message_keys [OF Some, of org d] by simp
  qed
  then show "keys d' = keys d \<union> owed_subscribers org d payload" "owed_subscribers org d payload \<subseteq> keys d \<Longrightarrow> d' = d \<and> n = 0" by simp_all
qed

section \<open>Expanding a payload\<close>

definition owed :: "dispatch_env \<Rightarrow> string \<Rightarrow> db \<Rightarrow> intent_payload \<Rightarrow> string set" where
  "owed env org d payload = (\<Union>dp \<in> set (pl_dispatches payload). owed_channels env org d dp) \<union>
     owed_members org d payload \<union> owed_subscribers org d payload"

lemma owed_frame: "adds P d d' \<Longrightarrow> owed env org d' payload = owed env org d payload"
  by (simp add: owed_def owed_channels_def owed_members_def owed_subscribers_def adds_frame)

lemma owed_parts_frame:
  assumes "adds P d d'"
  shows "owed_members org d' payload = owed_members org d payload"
    and "owed_subscribers org d' payload = owed_subscribers org d payload"
  by (simp_all add: owed_members_def owed_subscribers_def adds_frame [OF assms])

lemma expansion_keys:
  assumes ps: "en_policies env = []" and e: "expandPayload env org inc payload d = (d', n)"
  shows "keys d' = keys d \<union> owed env org d payload"
    and "owed env org d payload \<subseteq> keys d \<Longrightarrow> d' = d \<and> n = 0"
proof -
  obtain d1 n1 where 1: "fold (dispatch_fold env org inc) (pl_dispatches payload) (d, 0) = (d1, n1)" by fastforce
  obtain d2 n2 where 2: "expand_members env org inc payload d1 = (d2, n2)" by fastforce
  obtain n3 where 3: "expand_subscribers env org inc payload d2 = (d', n3)" and n: "n = n1 + n2 + n3"
    using e 1 2 by (auto simp: expandPayload_def split: prod.splits)
  have f1: "adds (inside org d) d d1" using dispatches_inside [of org d env inc "pl_dispatches payload" 0] 1 by simp
  have f2: "adds (inside org d1) d1 d2"
    using 2 by (auto simp: expand_members_def adds_refl split: option.splits if_splits intro: members_inside)
  note k1 = dispatches_keys [OF ps 1] and k2 = members_keys [OF ps 2, unfolded owed_parts_frame [OF f1]]
    and k3 = subscribers_keys [OF ps 3, unfolded owed_parts_frame [OF f2] owed_parts_frame [OF f1]]
  show "keys d' = keys d \<union> owed env org d payload" using k1(1) k2(1) k3(1) by (auto simp: owed_def)
  assume all: "owed env org d payload \<subseteq> keys d"
  have s1: "d1 = d \<and> n1 = 0" using k1(2) all by (auto simp: owed_def)
  have s2: "d2 = d \<and> n2 = 0" using k2(2) all s1 by (auto simp: owed_def)
  have "d' = d \<and> n3 = 0" using k3(2) all s2 by (auto simp: owed_def)
  then show "d' = d \<and> n = 0" using s1 s2 n by simp
qed

lemma expansion_repeats:
  assumes "en_policies env = []" and e: "expandPayload env org inc payload d = (d', n)"
  shows "expandPayload env org inc payload d' = (d', 0)"
proof -
  obtain d'' k where e': "expandPayload env org inc payload d' = (d'', k)" by fastforce
  have "owed env org d' payload \<subseteq> keys d'"
    using expansion_keys(1) [OF assms] owed_frame [OF expandPayload_inside [OF e]] by simp
  then show ?thesis using expansion_keys(2) [OF assms(1) e'] e' by simp
qed

text \<open>
  C30: Expanding an intent queues exactly what it owes: a message for every enabled channel of the
  organization that subscribes to the event, for every notified member and for every confirmed
  subscriber of every published page that lists the monitor, under a key of its own. Expanding it
  again, as a worker does after a crash, changes nothing and queues nothing.
\<close>

theorem expansion_is_exact_and_idempotent:
  assumes "en_policies env = []" and "expandPayload env org inc payload d = (d', n)"
  shows "keys d' = keys d \<union> owed env org d payload \<and> expandPayload env org inc payload d' = (d', 0)"
  using expansion_keys(1) [OF assms] expansion_repeats [OF assms] by simp_all

text \<open>
  C31: Whatever the policies answer, an expansion appends rows to the outbox and changes nothing else,
  and every new row is queued in the intent's own organization for one of its enabled channels, one of
  its notified members, or a confirmed subscriber of a page it published, whose address is masked.
\<close>

theorem expansion_stays_inside_the_organization:
  assumes "expandPayload env org inc payload d = (d', n)"
  shows "adds (inside org d) d d'"
  by (rule expandPayload_inside [OF assms])

text \<open>An organization with a channel, a responder, and a page with one subscriber.\<close>

definition sample_audience :: db where
  "sample_audience = sample_db\<lparr>
     db_channels := [\<lparr>nc_id = ''c1'', nc_organizationId = ''org'', nc_provider = ''slack'', nc_name = ''ops'', nc_destination = ''#ops'',
        nc_enabled = True, nc_scopedToMonitors = False, nc_monitors = [], nc_events = [''monitor'', ''incident''], nc_createdAt = 0\<rparr>,
       \<lparr>nc_id = ''c2'', nc_organizationId = ''other'', nc_provider = ''slack'', nc_name = ''ops'', nc_destination = ''#ops'',
        nc_enabled = True, nc_scopedToMonitors = False, nc_monitors = [], nc_events = [''monitor'', ''incident''], nc_createdAt = 0\<rparr>],
     db_members := [\<lparr>mb_organizationId = ''org'', mb_role = ''owner'', mb_email = ''ana@x.io''\<rparr>],
     db_pages := [\<lparr>pg_id = ''p1'', pg_organizationId = ''org'', pg_slug = ''s'', pg_name = ''S'', pg_published = True, pg_public = True,
        pg_monitors = [''m1'']\<rparr>],
     db_subscribers := [\<lparr>sb_id = ''u1'', sb_pageId = ''p1'', sb_email = ''bob@y.io'', sb_confirmedAt = Some 0\<rparr>]\<rparr>"

definition sample_payload :: intent_payload where
  "sample_payload =
     \<lparr>pl_dispatches = [\<lparr>dp_event = Monitor_down, dp_causeKey = ''k'', dp_subject = ''api'', dp_detail = [], dp_url = [], dp_data = JNull,
        dp_monitorType = Some ''http'', dp_monitorId = Some ''m1''\<rparr>],
      pl_memberEmail = Some \<lparr>em_event = Incident_opened, em_causeKey = ''e'', em_subject = ''s'', em_text = ''t''\<rparr>,
      pl_subscribers = Some \<lparr>su_kind = Sub_opened, su_causeKey = ''s'', su_incidentId = 0, su_incidentTitle = ''down'',
        su_monitorId = Some ''m1'', su_source = Src_monitor, su_latestUpdate = None\<rparr>\<rparr>"

definition sample_env :: dispatch_env where
  "sample_env = \<lparr>en_policies = [], en_getProvider = (\<lambda>p. p = ''slack''), en_horizonHours = 6, en_now = 0\<rparr>"

definition sample_expanded :: db where
  "sample_expanded = fst (expandPayload sample_env ''org'' None sample_payload sample_audience)"

lemma sample_expansion: "expandPayload sample_env ''org'' None sample_payload sample_audience = (sample_expanded, 3)"
proof -
  have "snd (expandPayload sample_env ''org'' None sample_payload sample_audience) = 3" by code_simp
  then show ?thesis unfolding sample_expanded_def by (metis prod.collapse)
qed

theorem expansion_is_exact_and_idempotent_witness:
  "keys sample_expanded = keys sample_audience \<union> owed sample_env ''org'' sample_audience sample_payload \<and>
   expandPayload sample_env ''org'' None sample_payload sample_expanded = (sample_expanded, 0)"
  using expansion_is_exact_and_idempotent [OF _ sample_expansion] by (simp add: sample_env_def)

theorem expansion_stays_inside_the_organization_witness:
  "adds (inside ''org'' sample_audience) sample_audience sample_expanded \<and>
   map ob_destination (bx_rows (db_outbox sample_expanded)) = [''#ops'', ''ana@x.io'', ''b**@y.io'']"
proof
  show "adds (inside ''org'' sample_audience) sample_audience sample_expanded"
    by (rule expansion_stays_inside_the_organization [OF sample_expansion])
  show "map ob_destination (bx_rows (db_outbox sample_expanded)) = [''#ops'', ''ana@x.io'', ''b**@y.io'']"
    unfolding sample_expanded_def by code_simp
qed

section \<open>Policies that throw\<close>

definition throws :: "dispatch_policy \<Rightarrow> bool" where
  "throws p \<longleftrightarrow> (\<forall>ask d s. dy_suppression p = Some ask \<longrightarrow> isl (ask d s)) \<and> (\<forall>ask d s. dy_routes p = Some ask \<longrightarrow> isl (ask d s))"

lemma askSuppression_throws: "throws p \<Longrightarrow> askSuppression (ps @ p # qs) d s = askSuppression (ps @ qs) d s"
  by (induction ps) (auto simp: throws_def split: option.splits sum.splits, metis sum.disc(2))

lemma askRoutes_throws: "throws p \<Longrightarrow> askRoutes (ps @ p # qs) d s = askRoutes (ps @ qs) d s"
  by (induction ps) (auto simp: throws_def split: option.splits sum.splits, metis sum.disc(2))


definition broken_policy :: dispatch_policy where
  "broken_policy = \<lparr>dy_name = ''broken'', dy_suppression = Some (\<lambda>_ _. Inl ''boom''), dy_routes = Some (\<lambda>_ _. Inl ''boom'')\<rparr>"


section \<open>Addresses of subscribers\<close>

lemma last_index_at:
  assumes "c \<notin> set host"
  shows "last_index c (loc @ c # host) = Some (length loc)"
proof -
  have "takeWhile (\<lambda>x. x \<noteq> c) (rev (loc @ c # host)) = rev host"
    using assms by (auto simp: takeWhile_append2 takeWhile_tail)
  then show ?thesis by (simp add: last_index_def)
qed

lemma maskEmail_address:
  assumes "CHR ''@'' \<notin> set host" and "loc \<noteq> []"
  shows "maskEmail (loc @ CHR ''@'' # host) = take 1 loc @ replicate (max (length loc - 1) 1) (CHR ''*'') @ CHR ''@'' # host"
  using assms by (simp add: maskEmail_def last_index_at Let_def)

text \<open>
  What the outbox keeps of a subscriber tells a reader the first character and the length of the
  name and the domain, and nothing more: two subscribers of a page who agree on those and on their id
  leave the same message.
\<close>

theorem subscriber_address_is_masked:
  assumes "CHR ''@'' \<notin> set host" and "length a = length b" and "take 1 a = take 1 b" and "a \<noteq> []"
  shows "subscriber_outbox org s page (u\<lparr>sb_email := a @ CHR ''@'' # host\<rparr>) = subscriber_outbox org s page (u\<lparr>sb_email := b @ CHR ''@'' # host\<rparr>)"
proof -
  have "b \<noteq> []" using assms by auto
  then show ?thesis using assms by (simp add: subscriber_outbox_def subscriber_payload_def maskEmail_address)
qed

theorem subscriber_address_is_masked_witness:
  "\<forall>org s page u. subscriber_outbox org s page (u\<lparr>sb_email := ''bob@y.io''\<rparr>) = subscriber_outbox org s page (u\<lparr>sb_email := ''bea@y.io''\<rparr>)"
  using subscriber_address_is_masked [of "''y.io''" "''bob''" "''bea''"] by simp

section \<open>The life of an intent\<close>

definition the_intent :: "nat \<Rightarrow> db \<Rightarrow> intent_row option" where
  "the_intent i d = List.find (\<lambda>r. it_id r = i) (db_intents d)"

lemma find_map_if:
  assumes "\<And>r. k (g r) = k r"
  shows "List.find (\<lambda>r. k r = i) (map (\<lambda>r. if k r = i \<and> P r then g r else r) rs) =
    map_option (\<lambda>r. if P r then g r else r) (List.find (\<lambda>r. k r = i) rs)"
  using assms by (induction rs) auto

lemma the_intent_update:
  assumes "\<And>r. it_id (g r) = it_id r"
  shows "the_intent i (update_intent i P g d) = map_option (\<lambda>r. if P r then g r else r) (the_intent i d)"
  unfolding the_intent_def update_intent_def using find_map_if [where k = it_id and g = g, OF assms] by simp

lemma update_intent_outbox [simp]: "db_outbox (update_intent i P g d) = db_outbox d"
  by (simp add: update_intent_def)

text \<open>
  The rows that hold the id of a pending intent, seen by the sweep. Ids are unique, so there is one.
\<close>

definition intent_ids_distinct :: "db \<Rightarrow> bool" where
  "intent_ids_distinct d \<longleftrightarrow> distinct (map it_id (db_intents d))"

lemma find_distinct_and:
  assumes "distinct (map k rs)" and "List.find (\<lambda>r. k r = i) rs = Some r" and "P r"
  shows "List.find (\<lambda>r. k r = i \<and> P r) rs = Some r"
  using assms by (induction rs) (auto split: if_splits dest: find_Some_mem simp: rev_image_eqI)

text \<open>
  A pending intent never lingers. When a sweep reaches it, either it is expanded, once, with its
  messages committed in the same transaction, or the failure is counted; the tenth failure retires
  it, and no intent is pending with ten failures behind it.
\<close>

theorem sweep_settles_an_intent:
  assumes "intent_ids_distinct d" and "the_intent (it_id row) d = Some row" and "it_state row = Pending"
    and "it_attempts row < MAX_EXPANSION_ATTEMPTS" and "\<not> locked (it_id row)"
    and "expand_intent env locked refusal row (d, r) = (d', r')"
  shows "case the_intent (it_id row) d' of None \<Rightarrow> False | Some row' \<Rightarrow>
    (case refusal (it_id row) of
       None \<Rightarrow> it_state row' = Expanded \<and> xr_expanded r' = xr_expanded r + 1 \<and>
         db_outbox d' = db_outbox (fst (expandPayload env (it_organizationId row) (it_incidentId row) (it_payload row) d))
     | Some e \<Rightarrow> db_outbox d' = db_outbox d \<and> it_attempts row' = it_attempts row + 1 \<and>
         (if it_attempts row' < MAX_EXPANSION_ATTEMPTS then it_state row' = Pending else it_state row' = Failed))"
proof -
  have f: "List.find (\<lambda>r. it_id r = it_id row \<and> it_state r = Pending \<and> \<not> locked (it_id row)) (db_intents d) = Some row"
    using assms(1-3,5) find_distinct_and [of it_id "db_intents d" "it_id row" row "\<lambda>r. it_state r = Pending \<and> \<not> locked (it_id row)"]
    by (simp add: intent_ids_distinct_def the_intent_def)
  show ?thesis
  proof (cases "refusal (it_id row)")
    case None
    obtain d1 n where e: "expandPayload env (it_organizationId row) (it_incidentId row) (it_payload row) d = (d1, n)" by fastforce
    have "the_intent (it_id row) d1 = Some row"
      using assms(2) adds_frame(5) [OF expandPayload_inside [OF e]] by (simp add: the_intent_def)
    then show ?thesis
      using assms(3,6) None f e by (auto simp: expand_intent_def expandOne_def the_intent_update)
  next
    case (Some e)
    then show ?thesis
      using assms(2-4,6) f
      by (auto simp: expand_intent_def expandOne_def recordExpansionFailure_def Let_def the_intent_update split: if_splits)
  qed
qed

definition owed_intent :: intent_row where
  "owed_intent = \<lparr>it_id = 4, it_organizationId = ''org'', it_causeKey = ''k'', it_incidentId = None, it_payload = sample_payload,
     it_state = Pending, it_attempts = 9, it_lastError = None, it_expandedAt = None\<rparr>"

definition owing_db :: db where
  "owing_db = sample_audience\<lparr>db_intents := [owed_intent]\<rparr>"

definition no_expansion :: expansion_result where
  "no_expansion = \<lparr>xr_expanded = 0, xr_queued = 0, xr_retried = 0, xr_failed = 0\<rparr>"

theorem sweep_settles_an_intent_witness:
  "map_option it_state (the_intent 4 (fst (expand_intent sample_env (\<lambda>_. False) (\<lambda>_. Some ''outage'') owed_intent (owing_db, no_expansion)))) =
     Some Failed"
proof -
  obtain d' r' where e: "expand_intent sample_env (\<lambda>_. False) (\<lambda>_. Some ''outage'') owed_intent (owing_db, no_expansion) = (d', r')"
    by fastforce
  have "intent_ids_distinct owing_db" "the_intent (it_id owed_intent) owing_db = Some owed_intent"
    by (simp_all add: intent_ids_distinct_def owing_db_def the_intent_def)
  then show ?thesis
    using sweep_settles_an_intent [OF _ _ _ _ _ e] unfolding e
    by (simp add: owed_intent_def MAX_EXPANSION_ATTEMPTS_def split: option.splits)
qed

text \<open>
  The failure is recorded by id alone, in a transaction of its own and from the count the sweep
  read. A worker that fails for the tenth time after another worker has expanded the intent turns it
  from expanded to failed, although its messages are queued; in this order nothing prevents it.
\<close>

lemma stale_failure_retires_an_expanded_intent:
  "case expandOne sample_env False None 4 owing_db of
     Inl _ \<Rightarrow> False
   | Inr (d, expanded, queued) \<Rightarrow> expanded \<and> queued = 3 \<and> map it_state (db_intents d) = [Expanded] \<and>
       map it_state (db_intents (fst (recordExpansionFailure 4 9 ''deadlock'' d))) = [Failed]"
  by code_simp

end
