(* ===== verification/Delivery.thy ===== *)
theory Delivery
  imports Expansion_Laws
begin

text \<open>
  Draining the outbox: \<open>worker/jobs/notification-delivery.ts\<close>, \<open>flush.ts\<close>, the delivery half of
  \<open>channel-service.ts\<close> and \<open>subscriber-emails.ts\<close>, and replaying finished deliveries. The mail
  transport, the providers, the secret box and the signing of a link are arguments; what goes
  out is kept as a list, so that a theorem can speak about it.
\<close>

section \<open>What is sent\<close>

record email_message =
  ml_to :: string
  ml_subject :: string
  ml_text :: string
  ml_idempotencyKey :: nat

record channel_request =
  rq_channel :: channel_row
  rq_message :: json
  rq_rowId :: nat

datatype sent = Sent_email email_message | Sent_channel channel_request

text \<open>
  The outside of a delivery. A left value of \<open>tr_send\<close> or \<open>tr_deliver\<close> is a transport that threw,
  \<open>tr_openSecrets\<close> gives the error when the credentials of a channel cannot be read.
\<close>

record transport =
  tr_appUrl :: string
  tr_getProvider :: "string \<Rightarrow> bool"
  tr_openSecrets :: "channel_row \<Rightarrow> string option"
  tr_signSubscriptionToken :: "string \<Rightarrow> string"
  tr_send :: "email_message \<Rightarrow> delivery_outcome result"
  tr_deliver :: "channel_request \<Rightarrow> delivery_outcome result"

definition str_field :: "string \<Rightarrow> json \<Rightarrow> string option" where
  "str_field k payload = (case obj_get (asRecord payload) k of Some (JStr s) \<Rightarrow> Some s | _ \<Rightarrow> None)"

definition str_of :: "string \<Rightarrow> json \<Rightarrow> string" where
  "str_of k payload = (case str_field k payload of Some s \<Rightarrow> s | None \<Rightarrow> ''undefined'')"

definition permanent :: "string \<Rightarrow> sent list \<times> delivery_outcome result" where
  "permanent message = ([], Inr (Permanent message None))"

definition deliverChannelRow :: "transport \<Rightarrow> db \<Rightarrow> outbox_row \<Rightarrow> sent list \<times> delivery_outcome result" where
  "deliverChannelRow tr d row =
     (if \<not> truthy (ob_channelId row) then permanent ''The channel was deleted.''
      else case List.find (\<lambda>c. ob_channelId row = Some (nc_id c) \<and> nc_organizationId c = ob_organizationId row) (db_channels d) of
        None \<Rightarrow> permanent ''The channel was deleted.''
      | Some c \<Rightarrow>
          if \<not> nc_enabled c then permanent ''The channel is disabled.''
          else if \<not> tr_getProvider tr (nc_provider c)
          then permanent (''No provider '' @ [CHR 0x22] @ nc_provider c @ [CHR 0x22] @ '' in this build.'')
          else (case tr_openSecrets tr c of
                  Some e \<Rightarrow> permanent e
                | None \<Rightarrow>
                    if str_field ''kind'' (ob_payload row) \<noteq> Some ''channel'' \<or> \<not> truthy (str_field ''event'' (ob_payload row))
                    then permanent ''The stored payload is not usable.''
                    else (let rq = \<lparr>rq_channel = c, rq_message = ob_payload row, rq_rowId = ob_id row\<rparr>
                          in ([Sent_channel rq], tr_deliver tr rq))))"

section \<open>Mail to subscribers\<close>

definition isSubscriberPayload :: "json \<Rightarrow> bool" where
  "isSubscriberPayload payload \<longleftrightarrow> str_field ''kind'' payload = Some ''subscriber-incident''"

definition is_space :: "char \<Rightarrow> bool" where
  "is_space c \<longleftrightarrow> c \<in> {CHR '' '', CHR 0x09, CHR 0x0A, CHR 0x0B, CHR 0x0C, CHR 0x0D, CHR 0xA0}"

definition trim :: "string \<Rightarrow> string" where
  "trim s = rev (dropWhile is_space (rev (dropWhile is_space s)))"

fun join_with :: "string \<Rightarrow> string list \<Rightarrow> string" where
  "join_with sep [] = []"
| "join_with sep [l] = l"
| "join_with sep (l # ls) = l @ sep @ join_with sep ls"

definition renderSubscriberIncidentEmail ::
  "string \<Rightarrow> string \<Rightarrow> string \<Rightarrow> string \<Rightarrow> string \<Rightarrow> string option \<Rightarrow> string \<times> string" where
  "renderSubscriberIncidentEmail pageName incidentTitle verb statusUrl unsubscribeUrl latestUpdate =
     (let update = map_option trim latestUpdate
      in (''['' @ pageName @ ''] Incident '' @ verb @ '': '' @ incidentTitle,
          join_with blank_line
            ([''An incident on '' @ pageName @ '' was '' @ verb @ '': '' @ incidentTitle] @
             (if truthy update then [the update] else []) @
             [''Live status: '' @ statusUrl, ''Unsubscribe: '' @ unsubscribeUrl])))"

definition deliverSubscriberEmail :: "transport \<Rightarrow> db \<Rightarrow> outbox_row \<Rightarrow> sent list \<times> delivery_outcome result" where
  "deliverSubscriberEmail tr d row =
     (let payload = ob_payload row
      in case List.find (\<lambda>s. str_field ''subscriberId'' payload = Some (sb_id s) \<and> str_field ''pageId'' payload = Some (sb_pageId s))
                (db_subscribers d) of
           None \<Rightarrow> permanent ''The subscriber unsubscribed before this could be delivered.''
         | Some subscriber \<Rightarrow>
             if sb_confirmedAt subscriber = None
             then permanent ''The subscriber unsubscribed before this could be delivered.''
             else (let base = tr_appUrl tr @ ''/status/'' @ str_of ''pageSlug'' payload;
                       (subject, body) = renderSubscriberIncidentEmail (str_of ''pageName'' payload) (str_of ''incidentTitle'' payload)
                         (str_of ''event'' payload) base
                         (base @ ''/unsubscribe?token='' @ tr_signSubscriptionToken tr (sb_id subscriber))
                         (if truthy (str_field ''latestUpdate'' payload) then str_field ''latestUpdate'' payload else None);
                       ml = \<lparr>ml_to = sb_email subscriber, ml_subject = subject, ml_text = body, ml_idempotencyKey = ob_id row\<rparr>
                   in ([Sent_email ml], tr_send tr ml)))"

section \<open>One message\<close>

fun channel_text :: "notification_channel \<Rightarrow> string" where
  "channel_text Ch_email = ''email''"
| "channel_text Ch_webhook = ''webhook''"
| "channel_text Ch_channel = ''channel''"
| "channel_text Ch_sms = ''sms''"
| "channel_text Ch_voice = ''voice''"

definition deliver :: "transport \<Rightarrow> db \<Rightarrow> outbox_row \<Rightarrow> sent list \<times> delivery_outcome result" where
  "deliver tr d row =
     (case ob_channel row of
        Ch_channel \<Rightarrow> deliverChannelRow tr d row
      | Ch_email \<Rightarrow>
          if isSubscriberPayload (ob_payload row) then deliverSubscriberEmail tr d row
          else if \<not> truthy (str_field ''subject'' (ob_payload row)) \<or> \<not> truthy (str_field ''text'' (ob_payload row))
          then permanent ''outbox payload is missing subject or text''
          else (let ml = \<lparr>ml_to = ob_destination row, ml_subject = str_of ''subject'' (ob_payload row),
                         ml_text = str_of ''text'' (ob_payload row), ml_idempotencyKey = ob_id row\<rparr>
                in ([Sent_email ml], tr_send tr ml))
      | _ \<Rightarrow> permanent (''no transport for channel '' @ channel_text (ob_channel row)))"

section \<open>One tick\<close>

definition CHANNEL_RATE_LIMIT_PER_TICK :: nat where
  "CHANNEL_RATE_LIMIT_PER_TICK = 10"

definition DEFER_SECONDS :: int where
  "DEFER_SECONDS = 60"

record delivery_tick_result =
  dt_claimed :: nat
  dt_delivered :: nat
  dt_retrying :: nat
  dt_failed :: nat
  dt_deferred :: nat
  dt_expired :: nat
  dt_superseded :: nat
  dt_expanded :: nat
  dt_intentsFailed :: nat

text \<open>
  The schedule of a tick: the clock at each statement, the jitter of each report, and what the
  transactions of others that commit while a request is out do to the outbox.
\<close>

record tick_schedule =
  sc_expireAt :: date
  sc_claimAt :: date
  sc_deferAt :: "claimed_row \<Rightarrow> date"
  sc_renewAt :: "claimed_row \<Rightarrow> date"
  sc_recordAt :: "claimed_row \<Rightarrow> date"
  sc_random :: "claimed_row \<Rightarrow> rat"
  sc_meanwhile :: "claimed_row \<Rightarrow> outbox \<Rightarrow> outbox"
  sc_claimLocks :: "nat \<Rightarrow> bool"

text \<open>Which claims of a batch a channel still has room for, counted over the whole batch.\<close>

fun split_batch :: "(string \<Rightarrow> nat) \<Rightarrow> claimed_row list \<Rightarrow> claimed_row list \<times> claimed_row list" where
  "split_batch perChannel [] = ([], [])"
| "split_batch perChannel (claim # claims) =
     (case ob_channelId (cl_row claim) of
        Some i \<Rightarrow>
          if i = [] then (let (sendable, deferred) = split_batch perChannel claims in (claim # sendable, deferred))
          else if CHANNEL_RATE_LIMIT_PER_TICK \<le> perChannel i
          then (let (sendable, deferred) = split_batch perChannel claims in (sendable, claim # deferred))
          else (let (sendable, deferred) = split_batch (perChannel(i := perChannel i + 1)) claims in (claim # sendable, deferred))
      | None \<Rightarrow> (let (sendable, deferred) = split_batch perChannel claims in (claim # sendable, deferred)))"

type_synonym tick_state = "db \<times> sent list \<times> delivery_tick_result"

definition deliverOne :: "transport \<Rightarrow> retry_policy \<Rightarrow> tick_schedule \<Rightarrow> claimed_row \<Rightarrow> tick_state \<Rightarrow> tick_state" where
  "deliverOne tr policy sc claim = (\<lambda>(d, sent, result).
     case renewLease (sc_renewAt sc claim) (ob_id (cl_row claim)) (cl_fence claim) (db_outbox d) of
       (b, False) \<Rightarrow> (d\<lparr>db_outbox := b\<rparr>, sent, result\<lparr>dt_superseded := dt_superseded result + 1\<rparr>)
     | (b, True) \<Rightarrow>
         (let (out, answer) = deliver tr (d\<lparr>db_outbox := b\<rparr>) (cl_row claim);
              outcome = (case answer of Inr o' \<Rightarrow> o' | Inl e \<Rightarrow> Unknown e None);
              b1 = sc_meanwhile sc claim b;
              (b2, recorded) = recordOutcome policy (sc_recordAt sc claim) claim outcome (sc_random sc claim) b1
          in (d\<lparr>db_outbox := b2\<rparr>, sent @ out,
              if \<not> rd_committed recorded then result\<lparr>dt_superseded := dt_superseded result + 1\<rparr>
              else if rd_state recorded = Ob_delivered then result\<lparr>dt_delivered := dt_delivered result + 1\<rparr>
              else if rd_state recorded = Ob_queued then result\<lparr>dt_retrying := dt_retrying result + 1\<rparr>
              else result\<lparr>dt_failed := dt_failed result + 1\<rparr>)))"

record delivery_options =
  op_organizationId :: "string option"
  op_limit :: "nat option"
  op_inlineBound :: bool

definition claim_limit :: "nat \<Rightarrow> delivery_options \<Rightarrow> nat \<Rightarrow> nat" where
  "claim_limit cap options queued =
     (let claimBudget = (case op_limit options of Some n \<Rightarrow> n | None \<Rightarrow> if op_inlineBound options then max queued 1 else cap)
      in max 1 (min claimBudget cap))"

text \<open>
  The whole tick. The pool of senders takes claims from one queue; the model runs them in queue
  order, and what a sender's siblings and other workers commit in between is \<open>sc_meanwhile\<close>.
\<close>

definition runNotificationDelivery ::
  "transport \<Rightarrow> dispatch_env \<Rightarrow> (nat \<Rightarrow> bool) \<Rightarrow> (nat \<Rightarrow> string option) \<Rightarrow> retry_policy \<Rightarrow> nat \<Rightarrow> tick_schedule \<Rightarrow>
   delivery_options \<Rightarrow> db \<Rightarrow> tick_state" where
  "runNotificationDelivery tr env locked refusal policy cap sc options d0 =
     (let (d1, expansion) = expandPendingIntents env locked refusal (op_organizationId options) None d0;
          limit = claim_limit cap options (xr_queued expansion);
          (b2, expired) = expireOverdue (sc_expireAt sc) (op_organizationId options) 5000 (db_outbox d1);
          (b3, claimed) = claimDue limit (sc_claimAt sc) (sc_claimLocks sc) (op_organizationId options) b2 b2;
          (sendable, deferred) = split_batch (\<lambda>_. 0) claimed;
          b4 = fold (\<lambda>claim. deferRow (sc_deferAt sc claim) claim DEFER_SECONDS) deferred b3;
          result = \<lparr>dt_claimed = length claimed, dt_delivered = 0, dt_retrying = 0, dt_failed = 0,
                    dt_deferred = length deferred, dt_expired = expired, dt_superseded = 0,
                    dt_expanded = xr_expanded expansion, dt_intentsFailed = xr_failed expansion\<rparr>
      in fold (deliverOne tr policy sc) sendable (d1\<lparr>db_outbox := b4\<rparr>, [], result))"

text \<open>The nudge after a transition: one organization, bounded by what its own expansion produced.\<close>

definition dispatchIntentsNow ::
  "transport \<Rightarrow> dispatch_env \<Rightarrow> (nat \<Rightarrow> bool) \<Rightarrow> (nat \<Rightarrow> string option) \<Rightarrow> retry_policy \<Rightarrow> nat \<Rightarrow> tick_schedule \<Rightarrow>
   string \<Rightarrow> db \<Rightarrow> db \<times> sent list" where
  "dispatchIntentsNow tr env locked refusal policy cap sc organizationId d =
     (let (d', sent, _) = runNotificationDelivery tr env locked refusal policy cap sc
            \<lparr>op_organizationId = Some organizationId, op_limit = None, op_inlineBound = True\<rparr> d
      in (d', sent))"

section \<open>Replaying\<close>

definition MAX_REPLAY :: nat where
  "MAX_REPLAY = 100"

definition REPLAY_PER_HOUR :: nat where
  "REPLAY_PER_HOUR = 500"

definition replayed_message :: "(nat \<Rightarrow> string) \<Rightarrow> outbox_row \<Rightarrow> outbox_message" where
  "replayed_message nonce row =
     \<lparr>om_organizationId = ob_organizationId row,
      om_idempotencyKey = take 400 (''replay:'' @ nonce (ob_id row) @ '':'' @ ob_idempotencyKey row),
      om_channel = ob_channel row, om_channelId = ob_channelId row, om_provider = ob_provider row, om_event = ob_event row,
      om_destination = ob_destination row, om_payload = ob_payload row, om_replayOf = Some (ob_id row)\<rparr>"

definition recent_replays :: "string \<Rightarrow> date \<Rightarrow> outbox \<Rightarrow> nat" where
  "recent_replays organizationId now b =
     length (filter (\<lambda>r. ob_organizationId r = organizationId \<and> ob_replayOf r \<noteq> None \<and> now - 3600000 \<le> ob_createdAt r) (bx_rows b))"

text \<open>
  The insert has no conflict clause: a key that exists already is an error of the database, and
  the transaction is rolled back.
\<close>

fun insert_all :: "int \<Rightarrow> date \<Rightarrow> outbox_message list \<Rightarrow> outbox \<Rightarrow> (outbox \<times> nat list) option" where
  "insert_all hours now [] b = Some (b, [])"
| "insert_all hours now (message # messages) b =
     (case enqueue hours now message b of
        (_, None) \<Rightarrow> None
      | (b', Some r) \<Rightarrow> (case insert_all hours now messages b' of None \<Rightarrow> None | Some (b'', ids) \<Rightarrow> Some (b'', ob_id r # ids)))"

record replay_result =
  rr_replayed :: nat
  rr_skipped :: int

definition replayDeliveries ::
  "(nat \<Rightarrow> string) \<Rightarrow> int \<Rightarrow> date \<Rightarrow> string \<Rightarrow> string \<Rightarrow> nat list \<Rightarrow> db \<Rightarrow> (db \<times> replay_result) result" where
  "replayDeliveries nonce hours now organizationId userId ids d =
     (if length ids = 0 then Inr (d, \<lparr>rr_replayed = 0, rr_skipped = 0\<rparr>)
      else if MAX_REPLAY < length ids then Inl ''Replay at most 100 deliveries at a time.''
      else if REPLAY_PER_HOUR < recent_replays organizationId now (db_outbox d) + length ids
      then Inl ''Replay is limited to 500 deliveries an hour in this workspace. Wait before replaying more.''
      else (let originals = filter (\<lambda>r. ob_organizationId r = organizationId \<and> ob_id r \<in> set ids \<and> ob_state r \<in> set TERMINAL_STATES)
                  (bx_rows (db_outbox d))
            in if length originals = 0
               then Inl ''Nothing to replay: those deliveries are still in progress, or are not in this workspace.''
               else case insert_all hours now (map (replayed_message nonce) originals) (db_outbox d) of
                 None \<Rightarrow> Inl ''duplicate key value violates unique constraint''
               | Some (b, copies) \<Rightarrow>
                   Inr (writeAudit organizationId (Some userId) ''notification_delivery.replayed'' (On_outbox (ob_id (hd originals)))
                          [(''replayed'', JNum (int (length copies))), (''requested'', JNum (int (length ids))),
                           (''originals'', JArr (map (\<lambda>r. JStr (show_nat (ob_id r))) originals)),
                           (''replayIds'', JArr (map (\<lambda>i. JStr (show_nat i)) copies))] (d\<lparr>db_outbox := b\<rparr>),
                        \<lparr>rr_replayed = length copies, rr_skipped = int (length ids) - int (length originals)\<rparr>)))"

end
