(* ===== verification/Delivery_Laws.thy ===== *)
theory Delivery_Laws
  imports Delivery "HOL-Library.Multiset"
begin

text \<open>
  A delivery tick is a run of the machine of \<open>Outbox_Machine\<close>, whatever other workers do while
  its requests are out, so the fencing argument covers it. It accounts for every claim, keeps
  the rate limit of a channel, and writes only to whom it still may. A replay adds and never
  rewrites.
\<close>

section \<open>Expansion as steps of the outbox machine\<close>

abbreviation steps :: "retry_policy \<Rightarrow> world \<Rightarrow> world \<Rightarrow> bool" where
  "steps policy \<equiv> (outbox_step policy)\<^sup>*\<^sup>*"

definition runs :: "retry_policy \<Rightarrow> db \<Rightarrow> db \<Rightarrow> bool" where
  "runs policy d d' \<longleftrightarrow> (\<forall>h. steps policy (db_outbox d, h) (db_outbox d', h))"

lemma runs_refl [intro]: "runs policy d d"
  by (simp add: runs_def)

lemma runs_trans: "runs policy d d' \<Longrightarrow> runs policy d' d'' \<Longrightarrow> runs policy d d''"
  by (meson runs_def rtranclp_trans)

lemma runs_same_outbox: "db_outbox d' = db_outbox d \<Longrightarrow> runs policy d d'"
  by (simp add: runs_def)

lemma enqueue_fold_steps:
  "steps policy (b, h) (fst (fold (enqueue_one (rp_horizonHours policy) now) ms (b, n)), h)"
proof (induction ms arbitrary: b n)
  case (Cons m ms)
  obtain b' res where e: "enqueue (rp_horizonHours policy) now m b = (b', res)" by fastforce
  have "outbox_step policy (b, h) (b', h)" using outbox_step.enqueued [of policy b h now m] e by simp
  moreover have "steps policy (b', h) (fst (fold (enqueue_one (rp_horizonHours policy) now) (m # ms) (b, n)), h)"
    using Cons.IH [of b'] e by (cases res) auto
  ultimately show ?case by (rule converse_rtranclp_into_rtranclp)
qed simp

locale expanding =
  fixes env :: dispatch_env and policy :: retry_policy
  assumes horizon: "en_horizonHours env = rp_horizonHours policy"
begin

lemma enqueue_all_runs: "enqueue_all env ms d = (d', n) \<Longrightarrow> runs policy d d'"
  using enqueue_fold_steps [where policy = policy and b = "db_outbox d" and ms = ms and now = "en_now env" and n = 0]
  by (auto simp: runs_def enqueue_all_def enqueueMany_def horizon split: prod.splits)

lemma dispatch_runs: "dispatchToChannels env org inc dp d = (d', n) \<Longrightarrow> runs policy d d'"
  by (auto simp: dispatchToChannels_def Let_def split: if_splits intro: enqueue_all_runs)

lemma dispatches_run: "runs policy d (fst (fold (dispatch_fold env org inc) dps (d, n)))"
proof (induction dps arbitrary: d n)
  case (Cons dp dps)
  obtain d1 k where e: "dispatchToChannels env org inc dp d = (d1, k)" by fastforce
  show ?case using runs_trans [OF dispatch_runs [OF e] Cons.IH [of d1 "n + k"]] e by simp
qed auto

lemma members_run: "expand_members env org inc payload d = (d', n) \<Longrightarrow> runs policy d d'"
  by (auto simp: expand_members_def enqueueMemberEmails_def Let_def split: option.splits if_splits intro: enqueue_all_runs)

lemma subscribers_run: "expand_subscribers env org inc payload d = (d', n) \<Longrightarrow> runs policy d d'"
  by (auto simp: expand_subscribers_def subscribers_enqueue split: option.splits if_splits intro: enqueue_all_runs)

lemma expandPayload_runs:
  assumes "expandPayload env org inc payload d = (d', n)"
  shows "runs policy d d'"
proof -
  obtain d1 n1 where 1: "fold (dispatch_fold env org inc) (pl_dispatches payload) (d, 0) = (d1, n1)" by fastforce
  obtain d2 n2 where 2: "expand_members env org inc payload d1 = (d2, n2)" by fastforce
  obtain n3 where 3: "expand_subscribers env org inc payload d2 = (d', n3)"
    using assms 1 2 by (auto simp: expandPayload_def split: prod.splits)
  have "runs policy d d1" using dispatches_run [of d org inc "pl_dispatches payload" 0] 1 by simp
  then show ?thesis using members_run [OF 2] subscribers_run [OF 3] by (blast intro: runs_trans)
qed

lemma expandOne_runs:
  assumes "expandOne env locked refusal i d = Inr (d', x, q)"
  shows "runs policy d d'"
proof (cases "List.find (\<lambda>r. it_id r = i \<and> it_state r = Pending \<and> \<not> locked) (db_intents d)")
  case None
  then show ?thesis using assms by (auto simp: expandOne_def)
next
  case (Some row)
  obtain d1 n where p: "expandPayload env (it_organizationId row) (it_incidentId row) (it_payload row) d = (d1, n)" by fastforce
  have "db_outbox d' = db_outbox d1" using assms Some p by (auto simp: expandOne_def split: option.splits)
  then show ?thesis using expandPayload_runs [OF p] by (simp add: runs_def)
qed

lemma expand_intent_runs: "expand_intent env locked refusal row (d, r) = (d', r') \<Longrightarrow> runs policy d d'"
  by (auto simp: expand_intent_def recordExpansionFailure_def Let_def split: sum.splits prod.splits if_splits
      intro: expandOne_runs runs_same_outbox)

lemma expand_rows_run: "runs policy d (fst (fold (expand_intent env locked refusal) rows (d, r)))"
proof (induction rows arbitrary: d r)
  case (Cons row rows)
  obtain d1 r1 where e: "expand_intent env locked refusal row (d, r) = (d1, r1)" by fastforce
  show ?case using runs_trans [OF expand_intent_runs [OF e] Cons.IH [of d1 r1]] e by simp
qed auto

lemma expandPendingIntents_runs: "expandPendingIntents env locked refusal org limit d = (d', r) \<Longrightarrow> runs policy d d'"
  unfolding expandPendingIntents_def using expand_rows_run by (metis fst_conv)

end

text \<open>The expander and the retry policy read the same setting of the installation.\<close>

interpretation installed: expanding "env\<lparr>en_horizonHours := rp_horizonHours policy\<rparr>" policy for env policy
  by unfold_locales simp

section \<open>One claim\<close>

text \<open>What other workers do while a request is out: any run of theirs, which may take over our claims.\<close>

definition others :: "retry_policy \<Rightarrow> (outbox \<Rightarrow> outbox) \<Rightarrow> bool" where
  "others policy f \<longleftrightarrow> (\<forall>b h. \<exists>k. steps policy (b, h) (f b, h @ k))"

lemma deliverOne_run:
  assumes "others policy (sc_meanwhile sc c)" and "deliverOne tr policy sc c (d, sent, r) = (d', sent', r')"
    and held: "add_mset c M \<subseteq># mset H"
  shows "\<exists>H'. steps policy (db_outbox d, H) (db_outbox d', H') \<and> M \<subseteq># mset H'"
proof -
  have c: "c \<in> set H" using held by (metis mset_subset_eq_insertD set_mset_mset)
  obtain b ok where e: "renewLease (sc_renewAt sc c) (ob_id (cl_row c)) (cl_fence c) (db_outbox d) = (b, ok)" by fastforce
  have renewed: "steps policy (db_outbox d, H) (b, H)"
    using outbox_step.renewed [OF c, of policy "db_outbox d" "sc_renewAt sc c"] e by auto
  show ?thesis
  proof (cases ok)
    case False
    then have "db_outbox d' = b" using assms(2) e by (auto simp: deliverOne_def)
    moreover have "M \<subseteq># mset H" using held by (metis subset_mset.order_trans subset_mset.less_imp_le mset_subset_eq_insertD)
    ultimately show ?thesis using renewed by blast
  next
    case True
    let ?b1 = "sc_meanwhile sc c b"
    obtain sent1 answer where a: "deliver tr (d\<lparr>db_outbox := b\<rparr>) (cl_row c) = (sent1, answer)" by fastforce
    define out where "out = (case answer of Inl e \<Rightarrow> Unknown e None | Inr o' \<Rightarrow> o')"
    have b2: "db_outbox d' = fst (recordOutcome policy (sc_recordAt sc c) c out (sc_random sc c) ?b1)"
      using assms(2) e True a by (auto simp: deliverOne_def Let_def out_def split: prod.splits)
    obtain k where k: "steps policy (b, H) (?b1, H @ k)" using assms(1) unfolding others_def by blast
    have "outbox_step policy (?b1, H @ k) (db_outbox d', remove1 c (H @ k))"
      unfolding b2 by (rule outbox_step.reported) (simp add: c)
    then have "steps policy (db_outbox d, H) (db_outbox d', remove1 c (H @ k))"
      using renewed k by (meson rtranclp_trans rtranclp.rtrancl_into_rtrancl)
    moreover have "M \<subseteq># mset (remove1 c (H @ k))"
      using held by (metis insert_subset_eq_iff mset_append mset_remove1 subset_mset.add_increasing2 subset_mset.zero_le)
    ultimately show ?thesis by blast
  qed
qed

lemma deliver_all_run:
  assumes "\<And>c. others policy (sc_meanwhile sc c)"
  shows "mset cs + M \<subseteq># mset H \<Longrightarrow>
    \<exists>H'. steps policy (db_outbox (fst s), H) (db_outbox (fst (fold (deliverOne tr policy sc) cs s)), H') \<and> M \<subseteq># mset H'"
proof (induction cs arbitrary: s H)
  case (Cons c cs)
  obtain d sent r where s: "s = (d, sent, r)" by (cases s)
  obtain d1 sent1 r1 where e: "deliverOne tr policy sc c (d, sent, r) = (d1, sent1, r1)" by (cases "deliverOne tr policy sc c (d, sent, r)")
  have "add_mset c (mset cs + M) \<subseteq># mset H" using Cons.prems by simp
  from deliverOne_run [OF assms e this] obtain H1 where
    H1: "steps policy (db_outbox d, H) (db_outbox d1, H1)" "mset cs + M \<subseteq># mset H1" by blast
  from Cons.IH [OF H1(2), of "(d1, sent1, r1)"] H1(1) show ?case
    by (auto simp: s e intro: rtranclp_trans)
qed auto

lemma defer_all_run:
  "mset cs + M \<subseteq># mset H \<Longrightarrow>
   \<exists>H'. steps policy (b, H) (fold (\<lambda>c. deferRow (at' c) c delay) cs b, H') \<and> M \<subseteq># mset H'"
proof (induction cs arbitrary: b H)
  case (Cons c cs)
  have "c \<in> set H" using Cons.prems by (metis add_mset_add_single insert_subset_eq_iff mset.simps(2) set_mset_mset union_mset_add_mset_left)
  then have "outbox_step policy (b, H) (deferRow (at' c) c delay b, remove1 c H)" by (rule outbox_step.deferred)
  moreover have "mset cs + M \<subseteq># mset (remove1 c H)"
    using Cons.prems by (simp add: insert_subset_eq_iff)
  ultimately show ?case using Cons.IH by (fastforce intro: converse_rtranclp_into_rtranclp)
qed auto

lemma split_batch_mset:
  "split_batch n cs = (sendable, deferred) \<Longrightarrow> mset sendable + mset deferred = mset cs"
proof (induction cs arbitrary: n sendable deferred)
  case (Cons c cs)
  then show ?case by (auto simp: Let_def split: option.splits prod.splits if_splits)
qed simp

section \<open>The tick\<close>

lemma tickE:
  assumes "runNotificationDelivery tr env locked refusal policy cap sc options d = (d', sent, res)"
  obtains d1 expansion b2 expired b3 claimed sendable deferred where
    "expandPendingIntents env locked refusal (op_organizationId options) None d = (d1, expansion)"
    and "expireOverdue (sc_expireAt sc) (op_organizationId options) 5000 (db_outbox d1) = (b2, expired)"
    and "claimDue (claim_limit cap options (xr_queued expansion)) (sc_claimAt sc) (sc_claimLocks sc) (op_organizationId options) b2 b2 = (b3, claimed)"
    and "split_batch (\<lambda>_. 0) claimed = (sendable, deferred)"
    and "fold (deliverOne tr policy sc) sendable
      (d1\<lparr>db_outbox := fold (\<lambda>claim. deferRow (sc_deferAt sc claim) claim DEFER_SECONDS) deferred b3\<rparr>, [],
       \<lparr>dt_claimed = length claimed, dt_delivered = 0, dt_retrying = 0, dt_failed = 0, dt_deferred = length deferred,
        dt_expired = expired, dt_superseded = 0, dt_expanded = xr_expanded expansion, dt_intentsFailed = xr_failed expansion\<rparr>) =
      (d', sent, res)"
  using assms unfolding runNotificationDelivery_def Let_def by (auto split: prod.splits)

lemma claimDue_steps:
  assumes "claimDue limit now locked org seen b = (b', cs)"
  shows "steps policy (b, h) (b', h @ cs)"
proof (cases "length (dueRankingSql limit now org seen) = 0")
  case False
  then have "lock_and_claim now locked (dueRankingSql limit now org seen) b = (b', cs)" using assms by (simp add: claimDue_def)
  then show ?thesis by (blast intro: outbox_step.claimed)
qed (use assms in \<open>simp add: claimDue_def\<close>)

lemma claim_point_steps:
  assumes "en_horizonHours env = rp_horizonHours policy"
    and "expandPendingIntents env locked refusal org None d = (d1, expansion)"
    and "expireOverdue t org n (db_outbox d1) = (b2, expired)"
  shows "steps policy (db_outbox d, h) (b2, h)"
proof -
  have "env\<lparr>en_horizonHours := rp_horizonHours policy\<rparr> = env" using assms(1) by simp
  then have "runs policy d d1" using installed.expandPendingIntents_runs [where env = env and policy = policy] assms(2) by metis
  then have "steps policy (db_outbox d, h) (db_outbox d1, h)" by (simp add: runs_def)
  moreover have "outbox_step policy (db_outbox d1, h) (b2, h)"
    using outbox_step.expired [of policy "db_outbox d1" h t org n] assms(3) by simp
  ultimately show ?thesis by (rule rtranclp.rtrancl_into_rtrancl)
qed

lemma tick_steps:
  assumes hz: "en_horizonHours env = rp_horizonHours policy" and ot: "\<And>c. others policy (sc_meanwhile sc c)"
    and e: "runNotificationDelivery tr env locked refusal policy cap sc options d = (d', sent, res)"
  shows "\<exists>h'. steps policy (db_outbox d, h) (db_outbox d', h') \<and> mset h \<subseteq># mset h'"
  using e
proof (rule tickE)
  fix d1 expansion b2 expired b3 claimed sendable deferred
  assume x: "expandPendingIntents env locked refusal (op_organizationId options) None d = (d1, expansion)"
      "expireOverdue (sc_expireAt sc) (op_organizationId options) 5000 (db_outbox d1) = (b2, expired)"
    and c: "claimDue (claim_limit cap options (xr_queued expansion)) (sc_claimAt sc) (sc_claimLocks sc) (op_organizationId options) b2 b2 = (b3, claimed)"
    and s: "split_batch (\<lambda>_. 0) claimed = (sendable, deferred)"
    and f: "fold (deliverOne tr policy sc) sendable
      (d1\<lparr>db_outbox := fold (\<lambda>claim. deferRow (sc_deferAt sc claim) claim DEFER_SECONDS) deferred b3\<rparr>, [],
       \<lparr>dt_claimed = length claimed, dt_delivered = 0, dt_retrying = 0, dt_failed = 0, dt_deferred = length deferred,
        dt_expired = expired, dt_superseded = 0, dt_expanded = xr_expanded expansion, dt_intentsFailed = xr_failed expansion\<rparr>) =
      (d', sent, res)"
  have 1: "steps policy (db_outbox d, h) (b3, h @ claimed)"
    using claim_point_steps [OF hz x] claimDue_steps [OF c] by (rule rtranclp_trans)
  have "mset deferred + (mset sendable + mset h) \<subseteq># mset (h @ claimed)"
    using split_batch_mset [OF s, symmetric] by (simp add: union_ac)
  from defer_all_run [OF this] obtain H1 where 2:
    "steps policy (b3, h @ claimed) (fold (\<lambda>c. deferRow (sc_deferAt sc c) c DEFER_SECONDS) deferred b3, H1)"
    "mset sendable + mset h \<subseteq># mset H1" by blast
  let ?s = "(d1\<lparr>db_outbox := fold (\<lambda>claim. deferRow (sc_deferAt sc claim) claim DEFER_SECONDS) deferred b3\<rparr>, [],
       \<lparr>dt_claimed = length claimed, dt_delivered = 0, dt_retrying = 0, dt_failed = 0, dt_deferred = length deferred,
        dt_expired = expired, dt_superseded = 0, dt_expanded = xr_expanded expansion, dt_intentsFailed = xr_failed expansion\<rparr>)"
  obtain H2 where "steps policy (db_outbox (fst ?s), H1) (db_outbox d', H2)" "mset h \<subseteq># mset H2"
    using deliver_all_run [where policy = policy and sc = sc and tr = tr and s = ?s, OF ot 2(2)] unfolding f fst_conv by blast
  then have "steps policy (fold (\<lambda>c. deferRow (sc_deferAt sc c) c DEFER_SECONDS) deferred b3, H1) (db_outbox d', H2)"
      "mset h \<subseteq># mset H2" by simp_all
  then show ?thesis using 1 2(1) by (meson rtranclp_trans)
qed


section \<open>Accounting\<close>

definition settled_claims :: "delivery_tick_result \<Rightarrow> nat" where
  "settled_claims r = dt_delivered r + dt_retrying r + dt_failed r + dt_superseded r"

text \<open>What one claim may add to what was sent.\<close>

definition request_of :: "claimed_row \<Rightarrow> sent list \<Rightarrow> bool" where
  "request_of c out \<longleftrightarrow> out = [] \<or>
     (\<exists>ml. out = [Sent_email ml] \<and> ml_idempotencyKey ml = ob_id (cl_row c)) \<or>
     (\<exists>rq. out = [Sent_channel rq] \<and> rq_rowId rq = ob_id (cl_row c) \<and> ob_channelId (cl_row c) = Some (nc_id (rq_channel rq)))"

lemma deliver_request: "deliver tr d (cl_row c) = (out, answer) \<Longrightarrow> request_of c out"
  by (auto simp: deliver_def deliverChannelRow_def deliverSubscriberEmail_def request_of_def permanent_def Let_def
      split: notification_channel.splits if_splits option.splits prod.splits dest!: find_Some_mem)

lemma deliverOne_accounts:
  assumes "deliverOne tr policy sc c (d, sent, r) = (d', sent', r')"
  shows "settled_claims r' = Suc (settled_claims r) \<and> dt_claimed r' = dt_claimed r \<and> dt_deferred r' = dt_deferred r \<and>
    (\<exists>out. sent' = sent @ out \<and> request_of c out)"
proof -
  obtain b ok where e: "renewLease (sc_renewAt sc c) (ob_id (cl_row c)) (cl_fence c) (db_outbox d) = (b, ok)" by fastforce
  obtain out answer where a: "deliver tr (d\<lparr>db_outbox := b\<rparr>) (cl_row c) = (out, answer)" by fastforce
  show ?thesis
  proof (cases ok)
    case True
    then have "sent' = sent @ out" "settled_claims r' = Suc (settled_claims r)" "dt_claimed r' = dt_claimed r" "dt_deferred r' = dt_deferred r"
      using assms e a by (auto simp: deliverOne_def settled_claims_def Let_def split: prod.splits)
    then show ?thesis using deliver_request [OF a] by blast
  next
    case False
    then have "sent' = sent @ []" "settled_claims r' = Suc (settled_claims r)" "dt_claimed r' = dt_claimed r" "dt_deferred r' = dt_deferred r"
      using assms e by (auto simp: deliverOne_def settled_claims_def)
    moreover have "request_of c []" by (simp add: request_of_def)
    ultimately show ?thesis by blast
  qed
qed

lemma deliver_all_accounts:
  assumes "fold (deliverOne tr policy sc) cs (d, sent, r) = (d', sent', r')"
  shows "settled_claims r' = settled_claims r + length cs \<and> dt_claimed r' = dt_claimed r \<and> dt_deferred r' = dt_deferred r \<and>
    (\<exists>outs. sent' = sent @ concat outs \<and> list_all2 request_of cs outs)"
  using assms
proof (induction cs arbitrary: d sent r)
  case Nil
  then show ?case by auto
next
  case (Cons c cs)
  obtain d1 sent1 r1 where e: "deliverOne tr policy sc c (d, sent, r) = (d1, sent1, r1)" by (cases "deliverOne tr policy sc c (d, sent, r)")
  have f: "fold (deliverOne tr policy sc) cs (d1, sent1, r1) = (d', sent', r')" using Cons.prems e by simp
  obtain out where o: "sent1 = sent @ out" "request_of c out" using deliverOne_accounts [OF e] by blast
  obtain outs where os: "sent' = sent1 @ concat outs" "list_all2 request_of cs outs" using Cons.IH [OF f] by blast
  have "sent' = sent @ concat (out # outs)" "list_all2 request_of (c # cs) (out # outs)" using o os by simp_all
  then show ?case using Cons.IH [OF f] deliverOne_accounts [OF e] by fastforce
qed

lemma split_batch_rate:
  "split_batch n cs = (sendable, deferred) \<Longrightarrow> i \<noteq> [] \<Longrightarrow>
   n i + length (filter (\<lambda>c. ob_channelId (cl_row c) = Some i) sendable) \<le> max (n i) CHANNEL_RATE_LIMIT_PER_TICK"
proof (induction cs arbitrary: n sendable deferred)
  case (Cons c cs)
  show ?case
  proof (cases "ob_channelId (cl_row c)")
    case None
    then show ?thesis using Cons.IH [of n] Cons.prems by (auto simp: Let_def split: prod.splits)
  next
    case (Some j)
    consider (empty) "j = []" | (full) "j \<noteq> []" "CHANNEL_RATE_LIMIT_PER_TICK \<le> n j"
      | (room) "j \<noteq> []" "n j < CHANNEL_RATE_LIMIT_PER_TICK" by fastforce
    then show ?thesis
    proof cases
      case room
      then obtain xs where xs: "split_batch (n(j := n j + 1)) cs = (xs, deferred)" "sendable = c # xs"
        using Cons.prems(1) Some by (auto simp: Let_def split: prod.splits)
      show ?thesis using Cons.IH [OF xs(1) Cons.prems(2)] room Some xs(2) by (auto split: if_splits)
    qed (use Some Cons.IH [of n] Cons.prems in \<open>auto simp: Let_def split: prod.splits\<close>)
  qed
qed simp

fun sent_row :: "sent \<Rightarrow> nat" where
  "sent_row (Sent_email ml) = ml_idempotencyKey ml"
| "sent_row (Sent_channel rq) = rq_rowId rq"

fun through :: "string \<Rightarrow> sent \<Rightarrow> bool" where
  "through i (Sent_email ml) = False"
| "through i (Sent_channel rq) = (nc_id (rq_channel rq) = i)"

lemma requests_bounds:
  assumes "list_all2 request_of cs outs"
  shows "length (concat outs) \<le> length cs"
    and "length (filter (through i) (concat outs)) \<le> length (filter (\<lambda>c. ob_channelId (cl_row c) = Some i) cs)"
    and "set (map sent_row (concat outs)) \<subseteq> set (map (\<lambda>c. ob_id (cl_row c)) cs)"
    and "distinct (map (\<lambda>c. ob_id (cl_row c)) cs) \<Longrightarrow> distinct (map sent_row (concat outs))"
  using assms
proof (induction rule: list_all2_induct)
  case (Cons c cs out outs)
  case 1 then show ?case using Cons by (auto simp: request_of_def)
  case 2 then show ?case using Cons by (auto simp: request_of_def)
  case 3 then show ?case using Cons by (auto simp: request_of_def)
  case 4
  have "out = [] \<or> (\<exists>x. out = [x] \<and> sent_row x = ob_id (cl_row c))" using Cons(1) by (auto simp: request_of_def)
  moreover have "ob_id (cl_row c) \<notin> set (map sent_row (concat outs))" using 4 Cons(5) by auto
  ultimately show ?case using 4 Cons(6) by auto
qed simp_all

text \<open>
  C25: A tick sends at most its batch, each message at most once, and at most ten messages through one
  channel. Every claim is accounted for: delivered, retrying, failed, deferred or lost to another
  worker.
\<close>

theorem tick_is_bounded_and_accounts_for_its_claims:
  assumes "en_horizonHours env = rp_horizonHours policy"
    and "reach nothing_queued (outbox_step policy) (db_outbox d, h)"
    and "runNotificationDelivery tr env locked refusal policy cap sc options d = (d', sent, res)"
  shows "dt_claimed res = dt_delivered res + dt_retrying res + dt_failed res + dt_superseded res + dt_deferred res \<and>
    length sent \<le> dt_claimed res \<and> dt_claimed res \<le> max 1 cap \<and> distinct (map sent_row sent) \<and>
    (\<forall>i. i \<noteq> [] \<longrightarrow> length (filter (through i) sent) \<le> CHANNEL_RATE_LIMIT_PER_TICK)"
  using assms(3)
proof (rule tickE)
  fix d1 expansion b2 expired b3 claimed sendable deferred
  assume x: "expandPendingIntents env locked refusal (op_organizationId options) None d = (d1, expansion)"
      "expireOverdue (sc_expireAt sc) (op_organizationId options) 5000 (db_outbox d1) = (b2, expired)"
    and c: "claimDue (claim_limit cap options (xr_queued expansion)) (sc_claimAt sc) (sc_claimLocks sc) (op_organizationId options) b2 b2 = (b3, claimed)"
    and s: "split_batch (\<lambda>_. 0) claimed = (sendable, deferred)"
    and f: "fold (deliverOne tr policy sc) sendable
      (d1\<lparr>db_outbox := fold (\<lambda>claim. deferRow (sc_deferAt sc claim) claim DEFER_SECONDS) deferred b3\<rparr>, [],
       \<lparr>dt_claimed = length claimed, dt_delivered = 0, dt_retrying = 0, dt_failed = 0, dt_deferred = length deferred,
        dt_expired = expired, dt_superseded = 0, dt_expanded = xr_expanded expansion, dt_intentsFailed = xr_failed expansion\<rparr>) =
      (d', sent, res)"
  have "outbox_inv (b2, h)"
    using outbox.steps_inv [OF claim_point_steps [OF assms(1) x]] outbox.reach_inv [OF assms(2)] .
  then have b: "length claimed \<le> claim_limit cap options (xr_queued expansion)" "distinct (map (\<lambda>c. ob_id (cl_row c)) claimed)"
    using claimDue_batch [OF _ c] by (simp_all add: outbox_inv_def)
  have m: "mset sendable + mset deferred = mset claimed" by (rule split_batch_mset [OF s])
  then have len: "length claimed = length sendable + length deferred" by (metis size_mset size_union)
  have "mset (map (\<lambda>c. ob_id (cl_row c)) (sendable @ deferred)) = mset (map (\<lambda>c. ob_id (cl_row c)) claimed)"
    by (simp flip: m)
  then have ds: "distinct (map (\<lambda>c. ob_id (cl_row c)) sendable)"
    using b(2) mset_eq_imp_distinct_iff by fastforce
  obtain outs where o: "sent = concat outs" "list_all2 request_of sendable outs" using deliver_all_accounts [OF f] by auto
  have a: "settled_claims res = length sendable" "dt_claimed res = length claimed" "dt_deferred res = length deferred"
    using deliver_all_accounts [OF f] by (simp_all add: settled_claims_def)
  have "length claimed \<le> max 1 cap" using b(1) by (auto simp: claim_limit_def Let_def split: option.splits if_splits)
  moreover have "length (filter (through i) sent) \<le> CHANNEL_RATE_LIMIT_PER_TICK" if "i \<noteq> []" for i
    using requests_bounds(2) [OF o(2), of i] split_batch_rate [OF s that] by (simp add: o(1))
  moreover have "distinct (map sent_row sent)" using requests_bounds(4) [OF o(2) ds] by (simp add: o(1))
  moreover have "length sent \<le> length claimed" using requests_bounds(1) [OF o(2)] len by (simp add: o(1))
  ultimately show ?thesis using a len by (auto simp: settled_claims_def)
qed

section \<open>To whom\<close>

lemma deliverSubscriber_mem:
  assumes "deliverSubscriberEmail tr d row = (out, answer)" and "s \<in> set out"
  shows "\<exists>u ml. s = Sent_email ml \<and> ml_to ml = sb_email u \<and> sb_confirmedAt u \<noteq> None \<and>
    List.find (\<lambda>s. str_field ''subscriberId'' (ob_payload row) = Some (sb_id s) \<and> str_field ''pageId'' (ob_payload row) = Some (sb_pageId s))
      (db_subscribers d) = Some u"
  using assms unfolding deliverSubscriberEmail_def Let_def permanent_def
  by (auto split: option.split_asm if_split_asm prod.split_asm)

text \<open>
  C26: What a delivery sends depends on the state at the time of the send, not of the decision: through
  a channel only while it exists, is enabled, belongs to the organization of the message and has a
  provider in this build; to a subscriber only while the confirmed subscription is there, at the
  address it holds; otherwise to the address of the message.
\<close>

theorem withdrawal_is_respected:
  assumes "deliver tr d row = (out, answer)" and "s \<in> set out"
  shows "case s of
      Sent_channel rq \<Rightarrow> rq_channel rq \<in> set (db_channels d) \<and> nc_enabled (rq_channel rq) \<and> tr_getProvider tr (nc_provider (rq_channel rq)) \<and>
        nc_organizationId (rq_channel rq) = ob_organizationId row \<and> ob_channelId row = Some (nc_id (rq_channel rq))
    | Sent_email ml \<Rightarrow>
        if isSubscriberPayload (ob_payload row)
        then \<exists>u \<in> set (db_subscribers d). sb_confirmedAt u \<noteq> None \<and> ml_to ml = sb_email u \<and>
               str_field ''subscriberId'' (ob_payload row) = Some (sb_id u) \<and> str_field ''pageId'' (ob_payload row) = Some (sb_pageId u)
        else ml_to ml = ob_destination row"
proof (cases "ob_channel row")
  case Ch_channel
  then have "deliverChannelRow tr d row = (out, answer)" using assms(1) by (simp add: deliver_def)
  then obtain c where "s = Sent_channel \<lparr>rq_channel = c, rq_message = ob_payload row, rq_rowId = ob_id row\<rparr>"
      "List.find (\<lambda>c. ob_channelId row = Some (nc_id c) \<and> nc_organizationId c = ob_organizationId row) (db_channels d) = Some c"
      "nc_enabled c" "tr_getProvider tr (nc_provider c)"
    using assms(2) by (auto simp: deliverChannelRow_def permanent_def Let_def split: if_splits option.splits)
  then show ?thesis by (auto dest: find_Some_mem)
next
  case Ch_email
  show ?thesis
  proof (cases "isSubscriberPayload (ob_payload row)")
    case True
    then have "deliverSubscriberEmail tr d row = (out, answer)" using assms(1) Ch_email by (simp add: deliver_def)
    from deliverSubscriber_mem [OF this assms(2)] obtain u ml where "s = Sent_email ml" "ml_to ml = sb_email u" "sb_confirmedAt u \<noteq> None"
        "List.find (\<lambda>s. str_field ''subscriberId'' (ob_payload row) = Some (sb_id s) \<and> str_field ''pageId'' (ob_payload row) = Some (sb_pageId s))
           (db_subscribers d) = Some u"
      by blast
    then show ?thesis using True by (auto dest!: find_Some_mem intro!: bexI [of _ u])
  next
    case False
    then show ?thesis using assms Ch_email by (auto simp: deliver_def permanent_def Let_def split: if_splits)
  qed
qed (use assms in \<open>auto simp: deliver_def permanent_def\<close>)

section \<open>Replays\<close>

lemma insert_all_rows:
  "insert_all hours now ms b = Some (b', ids) \<Longrightarrow>
   \<exists>new. bx_rows b' = bx_rows b @ new \<and> bx_attempts b' = bx_attempts b \<and> map ob_id new = ids \<and>
     list_all2 (\<lambda>m r. \<exists>i. r = row_of hours now i m) ms new"
proof (induction ms arbitrary: b ids)
  case (Cons m ms)
  obtain b1 r where e: "enqueue hours now m b = (b1, Some r)"
    using Cons.prems by (auto split: prod.splits option.splits)
  then have b1: "bx_rows b1 = bx_rows b @ [r]" "bx_attempts b1 = bx_attempts b" "r = row_of hours now (bx_nextId b) m"
    by (auto simp: enqueue_def Let_def split: if_splits)
  obtain ids1 where i: "insert_all hours now ms b1 = Some (b', ids1)" "ids = ob_id r # ids1"
    using Cons.prems e by (auto split: option.splits prod.splits)
  obtain new where n: "bx_rows b' = bx_rows b1 @ new" "bx_attempts b' = bx_attempts b1" "map ob_id new = ids1"
      "list_all2 (\<lambda>m r. \<exists>i. r = row_of hours now i m) ms new" using Cons.IH [OF i(1)] by blast
  then show ?case using b1 i(2) by (intro exI [of _ "r # new"]) auto
qed simp

lemma insert_all_steps:
  "insert_all (rp_horizonHours policy) now ms b = Some (b', ids) \<Longrightarrow> steps policy (b, h) (b', h)"
proof (induction ms arbitrary: b ids)
  case (Cons m ms)
  obtain b1 r where e: "enqueue (rp_horizonHours policy) now m b = (b1, Some r)"
    using Cons.prems by (auto split: prod.splits option.splits)
  then obtain ids1 where i: "insert_all (rp_horizonHours policy) now ms b1 = Some (b', ids1)"
    using Cons.prems by (auto split: option.splits prod.splits)
  have "outbox_step policy (b, h) (b1, h)" using outbox_step.enqueued [of policy b h now m] e by simp
  then show ?case using Cons.IH [OF i] by (rule converse_rtranclp_into_rtranclp)
qed simp

definition copies :: "outbox_row \<Rightarrow> outbox_row \<Rightarrow> bool" where
  "copies original r \<longleftrightarrow> ob_replayOf r = Some (ob_id original) \<and> ob_state r = Ob_queued \<and> ob_attempts r = 0 \<and>
     ob_destination r = ob_destination original \<and> ob_payload r = ob_payload original \<and> ob_channel r = ob_channel original \<and>
     ob_channelId r = ob_channelId original \<and> ob_organizationId r = ob_organizationId original"

lemma list_all2_origin: "list_all2 P xs ys \<Longrightarrow> y \<in> set ys \<Longrightarrow> \<exists>x \<in> set xs. P x y"
  by (induction rule: list_all2_induct) auto

lemma replayE:
  assumes "replayDeliveries nonce hours now org user ids d = Inr (d', res)" and "length ids \<noteq> 0"
  obtains b cs where "insert_all hours now (map (replayed_message nonce)
      (filter (\<lambda>r. ob_organizationId r = org \<and> ob_id r \<in> set ids \<and> ob_state r \<in> set TERMINAL_STATES) (bx_rows (db_outbox d)))) (db_outbox d) = Some (b, cs)"
    and "db_outbox d' = b" and "rr_replayed res = length cs"
  using assms unfolding replayDeliveries_def writeAudit_def Let_def
  by (simp split: if_split_asm option.split_asm prod.split_asm) auto

text \<open>
  A replay never rewinds history. It appends a queued copy of every finished delivery that was
  selected in the organization and leaves every row and every attempt as it was; with it an
  organization has replayed at most 500 deliveries in the last hour.
\<close>

theorem replay_appends_and_rewrites_nothing:
  assumes "replayDeliveries nonce hours now org user ids d = Inr (d', res)"
  shows "\<exists>new. bx_rows (db_outbox d') = bx_rows (db_outbox d) @ new \<and> bx_attempts (db_outbox d') = bx_attempts (db_outbox d) \<and>
    length new = rr_replayed res \<and>
    (\<forall>r \<in> set new. \<exists>original \<in> set (bx_rows (db_outbox d)). copies original r \<and> ob_organizationId original = org \<and>
       ob_id original \<in> set ids \<and> ob_state original \<in> set TERMINAL_STATES) \<and>
    (distinct (map ob_id (bx_rows (db_outbox d))) \<longrightarrow> recent_replays org now (db_outbox d) \<le> REPLAY_PER_HOUR \<longrightarrow>
       recent_replays org now (db_outbox d') \<le> REPLAY_PER_HOUR)"
proof (cases "length ids = 0")
  case True
  then show ?thesis using assms by (intro exI [of _ "[]"]) (auto simp: replayDeliveries_def)
next
  case False
  let ?sel = "\<lambda>r. ob_organizationId r = org \<and> ob_id r \<in> set ids \<and> ob_state r \<in> set TERMINAL_STATES"
  let ?os = "filter ?sel (bx_rows (db_outbox d))"
  have limit: "recent_replays org now (db_outbox d) + length ids \<le> REPLAY_PER_HOUR"
    using assms False unfolding replayDeliveries_def by (simp split: if_split_asm)
  obtain b cs where i: "insert_all hours now (map (replayed_message nonce) ?os) (db_outbox d) = Some (b, cs)"
      and d': "db_outbox d' = b" "rr_replayed res = length cs"
    using replayE [OF assms False] .
  from insert_all_rows [OF i] obtain new where new: "bx_rows b = bx_rows (db_outbox d) @ new" "bx_attempts b = bx_attempts (db_outbox d)"
      "map ob_id new = cs" "list_all2 (\<lambda>m r. \<exists>i. r = row_of hours now i m) (map (replayed_message nonce) ?os) new" by blast
  have pairs: "list_all2 copies ?os new"
    using new(4) by (auto simp: list_all2_map1 copies_def row_of_def replayed_message_def elim!: list_all2_mono)
  have len: "length new = rr_replayed res" using new(3) d'(2) by auto
  have origin: "\<exists>original \<in> set (bx_rows (db_outbox d)). copies original r \<and> ob_organizationId original = org \<and>
       ob_id original \<in> set ids \<and> ob_state original \<in> set TERMINAL_STATES" if r: "r \<in> set new" for r
  proof -
    obtain original where "original \<in> set ?os" "copies original r" using list_all2_origin [OF pairs r] by blast
    then show ?thesis by auto
  qed
  have bound: "recent_replays org now b \<le> REPLAY_PER_HOUR" if dist: "distinct (map ob_id (bx_rows (db_outbox d)))"
  proof -
    have "recent_replays org now b \<le> recent_replays org now (db_outbox d) + length new"
      by (simp add: recent_replays_def new(1))
    also have "length new = length ?os" using list_all2_lengthD [OF pairs] by simp
    also have "length ?os \<le> length ids"
      using filter_ids_length [OF dist, of ids "\<lambda>r. ob_organizationId r = org \<and> ob_state r \<in> set TERMINAL_STATES"] by (simp add: conj_left_commute)
    finally show ?thesis using limit by simp
  qed
  show ?thesis using new(1,2) len origin bound by (intro exI [of _ new]) (simp add: d'(1))
qed

section \<open>Witnesses\<close>

definition sample_transport :: transport where
  "sample_transport = \<lparr>tr_appUrl = ''https://v'', tr_getProvider = (\<lambda>p. p = ''slack''), tr_openSecrets = (\<lambda>_. None),
     tr_signSubscriptionToken = (\<lambda>s. s), tr_send = (\<lambda>_. Inr (Delivered (Some ''id'') (Some 200))), tr_deliver = (\<lambda>_. Inl ''socket hang up'')\<rparr>"

definition sample_schedule :: tick_schedule where
  "sample_schedule = \<lparr>sc_expireAt = 1, sc_claimAt = 1, sc_deferAt = (\<lambda>_. 1), sc_renewAt = (\<lambda>_. 1), sc_recordAt = (\<lambda>_. 2), sc_random = (\<lambda>_. 0),
     sc_meanwhile = (\<lambda>_ b. b), sc_claimLocks = (\<lambda>_. False)\<rparr>"

definition whole_tick :: delivery_options where
  "whole_tick = \<lparr>op_organizationId = None, op_limit = None, op_inlineBound = False\<rparr>"

definition sample_tick :: tick_state where
  "sample_tick = runNotificationDelivery sample_transport sample_env (\<lambda>_. False) (\<lambda>_. None) sample_policy 50 sample_schedule whole_tick owing_db"

lemma sample_tick_sent:
  "map sent_row (fst (snd sample_tick)) = [0, 1, 2]" "dt_delivered (snd (snd sample_tick)) = 2" "dt_retrying (snd (snd sample_tick)) = 1"
  by code_simp+

lemma sample_tick_ok:
  "runNotificationDelivery sample_transport sample_env (\<lambda>_. False) (\<lambda>_. None) sample_policy 50 sample_schedule whole_tick owing_db =
     (fst sample_tick, fst (snd sample_tick), snd (snd sample_tick))"
  "en_horizonHours sample_env = rp_horizonHours sample_policy"
  "reach nothing_queued (outbox_step sample_policy) (db_outbox owing_db, [])"
  "others sample_policy (sc_meanwhile sample_schedule c)"
proof -
  show "runNotificationDelivery sample_transport sample_env (\<lambda>_. False) (\<lambda>_. None) sample_policy 50 sample_schedule whole_tick owing_db =
     (fst sample_tick, fst (snd sample_tick), snd (snd sample_tick))" by (simp add: sample_tick_def)
  show "en_horizonHours sample_env = rp_horizonHours sample_policy" by (simp add: sample_env_def sample_policy_def)
  show "reach nothing_queued (outbox_step sample_policy) (db_outbox owing_db, [])"
    by (rule reach_init) (simp add: nothing_queued_def owing_db_def sample_audience_def sample_db_def)
  show "others sample_policy (sc_meanwhile sample_schedule c)"
    unfolding others_def sample_schedule_def by (auto intro: exI [of _ "[]"])
qed


theorem tick_is_bounded_and_accounts_for_its_claims_witness:
  "dt_claimed (snd (snd sample_tick)) = 3 + dt_failed (snd (snd sample_tick)) + dt_superseded (snd (snd sample_tick)) +
     dt_deferred (snd (snd sample_tick)) \<and> dt_claimed (snd (snd sample_tick)) \<le> 50"
  using tick_is_bounded_and_accounts_for_its_claims [OF sample_tick_ok(2,3,1)] by (simp add: sample_tick_sent)

definition sample_row :: outbox_row where
  "sample_row = row_of 6 0 0 \<lparr>om_organizationId = ''org'', om_idempotencyKey = ''k'', om_channel = Ch_channel, om_channelId = Some ''c1'',
     om_provider = Some ''slack'', om_event = None, om_destination = ''#ops'',
     om_payload = JObj [(''kind'', Some (JStr ''channel'')), (''event'', Some (JStr ''monitor.down''))], om_replayOf = None\<rparr>"

theorem withdrawal_is_respected_witness:
  "\<exists>rq. fst (deliver sample_transport sample_audience sample_row) = [Sent_channel rq] \<and> nc_enabled (rq_channel rq) \<and>
     nc_organizationId (rq_channel rq) = ''org''"
proof -
  have "case deliver sample_transport sample_audience sample_row of ([Sent_channel rq], _) \<Rightarrow> True | _ \<Rightarrow> False" by code_simp
  then obtain rq answer where e: "deliver sample_transport sample_audience sample_row = ([Sent_channel rq], answer)"
    by (auto split: prod.splits list.splits sent.splits)
  have "ob_organizationId sample_row = ''org''" by (simp add: sample_row_def row_of_def)
  then show ?thesis using withdrawal_is_respected [OF e, of "Sent_channel rq"] e by simp
qed

definition replaying_db :: db where
  "replaying_db = sample_audience\<lparr>db_outbox := \<lparr>bx_rows = [sample_row\<lparr>ob_state := Ob_failed\<rparr>], bx_attempts = [], bx_nextId = 1\<rparr>\<rparr>"

theorem replay_appends_and_rewrites_nothing_witness:
  "case replayDeliveries (\<lambda>_. ''0f'') 6 5 ''org'' ''u'' [0, 9] replaying_db of
     Inl _ \<Rightarrow> False
   | Inr (d', res) \<Rightarrow> rr_replayed res = 1 \<and> (\<exists>r. bx_rows (db_outbox d') = bx_rows (db_outbox replaying_db) @ [r])"
proof -
  have e: "case replayDeliveries (\<lambda>_. ''0f'') 6 5 ''org'' ''u'' [0, 9] replaying_db of Inl _ \<Rightarrow> False | Inr (d', res) \<Rightarrow> rr_replayed res = 1"
    by code_simp
  then obtain d' res where r: "replayDeliveries (\<lambda>_. ''0f'') 6 5 ''org'' ''u'' [0, 9] replaying_db = Inr (d', res)" "rr_replayed res = 1"
    by (auto split: sum.splits)
  from replay_appends_and_rewrites_nothing [OF r(1)] obtain new where
    "bx_rows (db_outbox d') = bx_rows (db_outbox replaying_db) @ new" "length new = 1" using r(2) by auto
  then show ?thesis using r by (auto simp: length_Suc_conv)
qed

end
