(* ===== verification/Outcome.thy ===== *)
theory Outcome
  imports Observations Delivery_Laws
begin

text \<open>
  What happens because of an observation: \<open>src/modules/monitors/outcome.ts\<close> and the check job
  \<open>worker/jobs/monitor-check.ts\<close>. An outcome is recorded, an incident opens or resolves, somebody
  is told, and the groups above the monitor are derived again.

  Each statement of the source is a transaction of its own, so an operation that throws returns
  the database with everything committed before. The snapshot of evidence at the very end of
  \<open>applyOutcome\<close> writes a table that nothing else reads and is not modelled.
\<close>

section \<open>The surroundings of an outcome\<close>

record 'c outcome_env =
  oe_appUrl :: string
  oe_describeMonitorTarget :: "monitor \<Rightarrow> string"
  oe_handlers :: "incident_handler list"
  oe_sha256 :: "string \<Rightarrow> string"
  oe_actorId :: "string option"
  oe_now :: date
  oe_dockerCast :: "'c \<Rightarrow> docker_config"
  oe_findCheckType :: "string \<Rightarrow> 'c check_definition option"
  oe_transport :: transport
  oe_dispatch :: dispatch_env
  oe_locked :: "nat \<Rightarrow> bool"
  oe_refusal :: "nat \<Rightarrow> string option"
  oe_policy :: retry_policy
  oe_batch :: nat
  oe_schedule :: tick_schedule

definition MAX_GROUP_DEPTH :: nat where
  "MAX_GROUP_DEPTH = 8"

definition describeDelay :: "int \<Rightarrow> string" where
  "describeDelay seconds =
     (if seconds < 90 then show_int seconds @ '' seconds''
      else (let minutes = js_round_div seconds 60
            in if minutes < 90 then show_int minutes @ '' minutes''
               else show_int (js_round_div minutes 60) @ '' hours''))"

definition nudge :: "'c outcome_env \<Rightarrow> string \<Rightarrow> db \<Rightarrow> db" where
  "nudge env organizationId d =
     fst (dispatchIntentsNow (oe_transport env) (oe_dispatch env) (oe_locked env) (oe_refusal env) (oe_policy env) (oe_batch env)
            (oe_schedule env) organizationId d)"

section \<open>An open outage\<close>

definition page :: "'c outcome_env \<Rightarrow> incident \<Rightarrow> monitor \<Rightarrow> bool \<Rightarrow> db \<Rightarrow> db" where
  "page env incident monitor pagedElsewhere d =
     (let (d1, claimed) = claimOpenedNotifications (oe_appUrl env) (oe_describeMonitorTarget env) (oe_now env) incident monitor
            pagedElsewhere d
      in if claimed \<noteq> None then nudge env (mo_organizationId monitor) d1 else d1)"

definition SHADOW_LINE :: string where
  "SHADOW_LINE =
     ''Opened in shadow mode: this monitor runs beside the system it was migrated from, so the incident was recorded for '' @
     ''comparison and nobody was paged. It appears on no status page and triggers no automation.''"

definition handle_incident :: "'c outcome_env \<Rightarrow> monitor \<Rightarrow> incident \<Rightarrow> db \<Rightarrow> db" where
  "handle_incident env updated incident d =
     (if in_shadow incident then recordSystemEvent (in_id incident) SHADOW_LINE d
      else (let held = askAlertHold (oe_handlers env) incident updated;
                pagesAHuman = askIncidentOpened (oe_handlers env) incident updated held
            in case held of
                 Some h \<Rightarrow> recordSystemEvent (in_id incident)
                   (ah_reason h @ '' Operators will be alerted no later than '' @ describeDelay (ah_deadlineSeconds h) @ '' from now.'') d
               | None \<Rightarrow> page env incident updated pagesAHuman d))"

definition write_docker_lines :: "incident option \<Rightarrow> check_result \<Rightarrow> db \<Rightarrow> db" where
  "write_docker_lines created outcome d =
     (case created of
        None \<Rightarrow> d
      | Some i \<Rightarrow> fold (recordSystemEvent (in_id i)) (dockerIncidentLines (cr_facts outcome) (cr_failedAssertions outcome)) d)"

definition open_outage :: "'c outcome_env \<Rightarrow> monitor \<Rightarrow> check_result \<Rightarrow> db \<Rightarrow> db" where
  "open_outage env updated outcome d =
     (let (d1, created) = openMonitorIncident (oe_now env) updated
            (case cr_error outcome of Some e \<Rightarrow> e | None \<Rightarrow> ''check failed'') d;
          d2 = write_docker_lines created outcome d1;
          incident = (case created of Some i \<Rightarrow> Some i | None \<Rightarrow> findUnhandledAutoIncident (mo_id updated) d2)
      in case incident of None \<Rightarrow> d2 | Some i \<Rightarrow> handle_incident env updated i d2)"

definition close_outage :: "'c outcome_env \<Rightarrow> monitor \<Rightarrow> db \<Rightarrow> db" where
  "close_outage env updated d =
     (let (d1, resolved) = resolveMonitorIncidents (oe_appUrl env) (oe_describeMonitorTarget env) (oe_now env) updated d
      in if 0 < length resolved then nudge env (mo_organizationId updated) d1 else d1)"

text \<open>\<open>applyOutcome\<close> up to the call of \<open>refreshGroups\<close>.\<close>

definition apply_here :: "'c outcome_env \<Rightarrow> monitor \<Rightarrow> check_result \<Rightarrow> db \<Rightarrow> db \<times> monitor outcome_of" where
  "apply_here env monitor outcome d =
     (case recordCheckOutcome (oe_sha256 env) monitor outcome (oe_actorId env) (oe_now env) d of
        Inl e \<Rightarrow> (d, Inl e)
      | Inr (d1, updated, reconciliation) \<Rightarrow>
          (if rc_openIncident reconciliation then open_outage env updated outcome d1
           else if rc_resolveIncidents reconciliation then close_outage env updated d1
           else d1, Inr updated))"

section \<open>Groups\<close>

definition statusOf :: "check_result \<Rightarrow> monitor_status" where
  "statusOf outcome =
     (case cr_verdict outcome of VUp \<Rightarrow> SUp | VDegraded \<Rightarrow> SDegraded | VDown \<Rightarrow> SDown | VIndeterminate \<Rightarrow> SUnknown)"

definition syncGroupCadence :: "monitor \<Rightarrow> check_result \<Rightarrow> db \<Rightarrow> db \<times> int" where
  "syncGroupCadence grp outcome d =
     (case numberFact (cr_facts outcome) ''memberIntervalSeconds'' of
        None \<Rightarrow> (d, mo_intervalSeconds grp)
      | Some memberInterval \<Rightarrow>
          if memberInterval = mo_intervalSeconds grp then (d, mo_intervalSeconds grp)
          else (d\<lparr>db_monitors := map (\<lambda>m. if mo_id m = mo_id grp then m\<lparr>mo_intervalSeconds := memberInterval\<rparr> else m) (db_monitors d)\<rparr>,
                memberInterval))"

definition shouldRecord :: "monitor \<Rightarrow> check_result \<Rightarrow> int \<Rightarrow> date \<Rightarrow> bool" where
  "shouldRecord grp outcome intervalSeconds now =
     (case mo_lastCheckedAt grp of
        None \<Rightarrow> True
      | Some t \<Rightarrow> statusOf outcome \<noteq> mo_currentStatus grp \<or> intervalSeconds * 1000 \<le> now - t)"

function refreshGroups :: "'c outcome_env \<Rightarrow> nat \<Rightarrow> string option \<Rightarrow> db \<Rightarrow> db \<times> unit outcome_of" where
  "refreshGroups env depth groupId d =
     (case groupId of
        None \<Rightarrow> (d, Inr ())
      | Some g \<Rightarrow>
          if MAX_GROUP_DEPTH \<le> depth then (d, Inr ())
          else case find_monitor d g of
            None \<Rightarrow> (d, Inr ())
          | Some grp \<Rightarrow>
              if mo_paused grp \<or> checkTypeKind (mo_checkType grp) \<noteq> K_aggregate then (d, Inr ())
              else (let outcome = evaluateMonitor (oe_dockerCast env) (oe_findCheckType env) (oe_now env) grp d;
                        (d1, intervalSeconds) = syncGroupCadence grp outcome d
                    in if \<not> shouldRecord grp outcome intervalSeconds (oe_now env)
                       then refreshGroups env (depth + 1) (mo_parentId grp) d1
                       else case apply_here env grp outcome d1 of
                         (d2, Inl e) \<Rightarrow> (d2, Inl e)
                       | (d2, Inr updated) \<Rightarrow> refreshGroups env (depth + 1) (mo_parentId updated) d2))"
  by pat_completeness auto

termination by (relation "measure (\<lambda>(_, depth, _, _). MAX_GROUP_DEPTH - depth)") auto

declare refreshGroups.simps [simp del]

definition applyOutcome :: "'c outcome_env \<Rightarrow> nat \<Rightarrow> monitor \<Rightarrow> check_result \<Rightarrow> db \<Rightarrow> db \<times> monitor outcome_of" where
  "applyOutcome env depth monitor outcome d =
     (case apply_here env monitor outcome d of
        (d1, Inl e) \<Rightarrow> (d1, Inl e)
      | (d1, Inr updated) \<Rightarrow>
          (case refreshGroups env depth (mo_parentId updated) d1 of
             (d2, Inl e) \<Rightarrow> (d2, Inl e)
           | (d2, Inr _) \<Rightarrow> (d2, Inr updated)))"

definition refreshDeclaredState :: "'c outcome_env \<Rightarrow> monitor \<Rightarrow> db \<Rightarrow> db \<times> unit outcome_of" where
  "refreshDeclaredState env monitor d =
     (let kind = checkTypeKind (mo_checkType monitor)
      in if kind = K_manual \<or> kind = K_aggregate
         then (case applyOutcome env 0 monitor (evaluateMonitor (oe_dockerCast env) (oe_findCheckType env) (oe_now env) monitor d) d of
                 (d1, Inl e) \<Rightarrow> (d1, Inl e)
               | (d1, Inr _) \<Rightarrow> (d1, Inr ()))
         else refreshGroups env 0 (mo_parentId monitor) d)"

section \<open>The check job\<close>

definition runMonitorCheck ::
  "'c outcome_env \<Rightarrow> (monitor \<Rightarrow> bool) \<Rightarrow> string \<Rightarrow> db \<Rightarrow> db \<times> (string \<times> date) option outcome_of" where
  "runMonitorCheck env highFrequencyClaims monitorId d =
     (case find_monitor d monitorId of
        None \<Rightarrow> (d, Inr None)
      | Some monitor \<Rightarrow>
          if mo_paused monitor \<or> \<not> isScheduledKind (checkTypeKind (mo_checkType monitor)) \<or> highFrequencyClaims monitor
          then (d, Inr None)
          else case applyOutcome env 0 monitor (evaluateMonitor (oe_dockerCast env) (oe_findCheckType env) (oe_now env) monitor d) d of
            (d1, Inl e) \<Rightarrow> (d1, Inl e)
          | (d1, Inr updated) \<Rightarrow> (let (d2, job) = scheduleFastFollowUp (oe_now env) updated d1 in (d2, Inr job)))"

end
