(* ===== verification/Outcome_Laws.thy ===== *)
theory Outcome_Laws
  imports Outcome
begin

text \<open>
  The worker as a whole. Applying an outcome is a run of the incident machine, so the invariants
  of incidents and intents hold through it; an outage ends up with an open incident that has been
  announced or deliberately held; a recovery leaves none open; a shadow monitor tells nobody; and
  the walk up the groups is bounded even through a cycle.
\<close>

section \<open>Delivery touches the outbox and the state of intents\<close>

definition delivers :: "db \<Rightarrow> db \<Rightarrow> bool" where
  "delivers d d' \<longleftrightarrow> (\<exists>b intents. d' = d\<lparr>db_outbox := b, db_intents := intents\<rparr> \<and>
     map it_causeKey intents = map it_causeKey (db_intents d))"

lemma delivers_refl [simp]: "delivers d d"
  unfolding delivers_def by (intro exI [of _ "db_outbox d"] exI [of _ "db_intents d"]) simp

lemma delivers_trans: "delivers d d' \<Longrightarrow> delivers d' d'' \<Longrightarrow> delivers d d''"
  unfolding delivers_def by fastforce

lemma delivers_frame:
  assumes "delivers d d'"
  shows "db_monitors d' = db_monitors d" and "db_incidents d' = db_incidents d" and "db_events d' = db_events d"
    and "db_checks d' = db_checks d" and "db_nextId d' = db_nextId d" and "db_ledger d' = db_ledger d"
    and "map it_causeKey (db_intents d') = map it_causeKey (db_intents d)"
  using assms by (auto simp: delivers_def)

lemma adds_delivers: "adds P d d' \<Longrightarrow> delivers d d'"
  unfolding adds_def delivers_def by (auto intro!: exI [of _ "db_intents d"])

lemma update_intent_delivers:
  assumes "\<And>r. it_causeKey (g r) = it_causeKey r"
  shows "delivers d (update_intent i P g d)"
  unfolding delivers_def update_intent_def
  by (intro exI [of _ "db_outbox d"] exI [of _ "map (\<lambda>r. if it_id r = i \<and> P r then g r else r) (db_intents d)"])
    (simp add: assms comp_def)

lemma expandOne_delivers: "expandOne env locked refusal i d = Inr (d', x, q) \<Longrightarrow> delivers d d'"
  unfolding expandOne_def
  by (auto split: option.splits prod.splits intro!: delivers_trans [OF adds_delivers [OF expandPayload_inside] update_intent_delivers])

lemma failure_delivers: "recordExpansionFailure i n e d = (d', x) \<Longrightarrow> delivers d d'"
  by (auto simp: recordExpansionFailure_def Let_def intro!: update_intent_delivers)

lemma expand_intent_delivers: "delivers (fst s) (fst (expand_intent env locked refusal row s))"
  by (cases s) (auto simp: expand_intent_def split: sum.splits prod.splits expansion_failure.splits
      intro: expandOne_delivers failure_delivers)

lemma expand_rows_deliver: "delivers (fst s) (fst (fold (expand_intent env locked refusal) rows s))"
proof (induction rows arbitrary: s)
  case (Cons row rows)
  show ?case using delivers_trans [OF expand_intent_delivers Cons.IH] by (simp add: comp_def)
qed simp

lemma expandPending_delivers: "delivers d (fst (expandPendingIntents env locked refusal org limit d))"
  unfolding expandPendingIntents_def
  using expand_rows_deliver [where s = "(d, \<lparr>xr_expanded = 0, xr_queued = 0, xr_retried = 0, xr_failed = 0\<rparr>)"] by simp

lemma outbox_delivers [simp]: "delivers d (d\<lparr>db_outbox := b\<rparr>)"
  unfolding delivers_def by (intro exI [of _ b] exI [of _ "db_intents d"]) simp

lemma deliverOne_delivers: "delivers (fst s) (fst (deliverOne tr policy sc c s))"
  by (cases s) (auto simp: deliverOne_def Let_def split: prod.splits bool.splits)

lemma deliver_all_delivers: "delivers (fst s) (fst (fold (deliverOne tr policy sc) cs s))"
proof (induction cs arbitrary: s)
  case (Cons c cs)
  show ?case using delivers_trans [OF deliverOne_delivers Cons.IH] by (simp add: comp_def)
qed simp

lemma tick_delivers:
  assumes "runNotificationDelivery tr env locked refusal policy cap sc options d = (d', sent, res)"
  shows "delivers d d'"
  using assms
proof (rule tickE)
  fix d1 expansion b2 expired b3 claimed sendable deferred
  assume x: "expandPendingIntents env locked refusal (op_organizationId options) None d = (d1, expansion)"
    and f: "fold (deliverOne tr policy sc) sendable
      (d1\<lparr>db_outbox := fold (\<lambda>claim. deferRow (sc_deferAt sc claim) claim DEFER_SECONDS) deferred b3\<rparr>, [],
       \<lparr>dt_claimed = length claimed, dt_delivered = 0, dt_retrying = 0, dt_failed = 0, dt_deferred = length deferred,
        dt_expired = expired, dt_superseded = 0, dt_expanded = xr_expanded expansion, dt_intentsFailed = xr_failed expansion\<rparr>) =
      (d', sent, res)"
  have "delivers d d1" using expandPending_delivers [of d env locked refusal "op_organizationId options" None] x by simp
  moreover have "delivers (d1\<lparr>db_outbox := fold (\<lambda>claim. deferRow (sc_deferAt sc claim) claim DEFER_SECONDS) deferred b3\<rparr>) d'"
    using deliver_all_delivers [where s = "(d1\<lparr>db_outbox := fold (\<lambda>claim. deferRow (sc_deferAt sc claim) claim DEFER_SECONDS) deferred b3\<rparr>, [],
       \<lparr>dt_claimed = length claimed, dt_delivered = 0, dt_retrying = 0, dt_failed = 0, dt_deferred = length deferred,
        dt_expired = expired, dt_superseded = 0, dt_expanded = xr_expanded expansion, dt_intentsFailed = xr_failed expansion\<rparr>)"
        and tr = tr and policy = policy and sc = sc and cs = sendable] unfolding f fst_conv .
  ultimately show ?thesis using delivers_trans outbox_delivers by blast
qed

lemma nudge_delivers: "delivers d (nudge env org d)"
  unfolding nudge_def dispatchIntentsNow_def Let_def by (auto split: prod.splits intro: tick_delivers)

section \<open>A run of the incident machine\<close>

abbreviation isteps :: "'c outcome_env \<Rightarrow> db \<Rightarrow> db \<Rightarrow> bool" where
  "isteps env \<equiv> (incident_step (oe_appUrl env) (oe_describeMonitorTarget env))\<^sup>*\<^sup>*"

lemma elsewhere_step:
  assumes "d' = d\<lparr>db_monitors := db_monitors d', db_checks := db_checks d', db_heartbeats := db_heartbeats d', db_ledger := db_ledger d',
      db_outbox := db_outbox d', db_intents := db_intents d', db_nextId := db_nextId d'\<rparr>"
    and "map it_causeKey (db_intents d') = map it_causeKey (db_intents d)" and "db_nextId d \<le> db_nextId d'"
  shows "incident_step app target d d'"
  by (subst assms(1)) (rule incident_step.elsewhere [OF assms(2,3)])

lemma delivers_step: "delivers d d' \<Longrightarrow> incident_step app target d d'"
  by (rule elsewhere_step) (auto simp: delivers_def)

lemma nudge_steps: "isteps env d (nudge env org d)"
  by (rule r_into_rtranclp) (rule delivers_step [OF nudge_delivers])

lemma system_steps: "isteps env d (fold (recordSystemEvent i) lines d)"
  by (induction lines arbitrary: d) (auto intro: converse_rtranclp_into_rtranclp incident_step.system)

lemma page_steps: "isteps env d (page env i m paged d)"
proof -
  obtain d1 claimed where e: "claimOpenedNotifications (oe_appUrl env) (oe_describeMonitorTarget env) (oe_now env) i m paged d = (d1, claimed)"
    by fastforce
  have "incident_step (oe_appUrl env) (oe_describeMonitorTarget env) d d1" using incident_step.claim e by (metis fst_conv)
  moreover have "isteps env d1 (page env i m paged d)"
    using nudge_steps by (auto simp: page_def e)
  ultimately show ?thesis by (rule converse_rtranclp_into_rtranclp)
qed

lemma handle_steps: "isteps env d (handle_incident env m i d)"
  by (auto simp: handle_incident_def Let_def page_steps incident_step.system split: option.split)

lemma open_outage_steps: "isteps env d (open_outage env m outcome d)"
proof -
  let ?desc = "case cr_error outcome of Some e \<Rightarrow> e | None \<Rightarrow> ''check failed''"
  obtain d1 created where e: "openMonitorIncident (oe_now env) m ?desc d = (d1, created)" by fastforce
  have 1: "isteps env d d1" using incident_step.open_auto e by (metis fst_conv r_into_rtranclp)
  have 2: "isteps env d1 (write_docker_lines created outcome d1)"
    by (auto simp: write_docker_lines_def intro: system_steps split: option.split)
  have "isteps env (write_docker_lines created outcome d1) (open_outage env m outcome d)"
    by (auto simp: open_outage_def e Let_def intro: handle_steps split: option.split)
  then show ?thesis using 1 2 by (meson rtranclp_trans)
qed

lemma close_outage_steps: "isteps env d (close_outage env m d)"
proof -
  obtain d1 resolved where e: "resolveMonitorIncidents (oe_appUrl env) (oe_describeMonitorTarget env) (oe_now env) m d = (d1, resolved)"
    by fastforce
  have "isteps env d d1" using resolve_steps [of "oe_appUrl env" "oe_describeMonitorTarget env" d "oe_now env" m] e by simp
  moreover have "isteps env d1 (close_outage env m d)"
    using nudge_steps by (auto simp: close_outage_def e)
  ultimately show ?thesis by (rule rtranclp_trans)
qed

lemma record_step:
  assumes "recordCheckOutcome sha m outcome actorId now d = Inr (d', u, rc)"
  shows "incident_step app target d d'"
  using assms by (cases rule: recordCheckOutcome_cases) (rule elsewhere_step; simp)+

lemma monitors_step: "incident_step app target d (d\<lparr>db_monitors := ms\<rparr>)"
  by (rule elsewhere_step) simp_all

lemma apply_here_steps:
  assumes "apply_here env m outcome d = (d', res)"
  shows "isteps env d d'"
proof (cases "recordCheckOutcome (oe_sha256 env) m outcome (oe_actorId env) (oe_now env) d")
  case (Inl e)
  then show ?thesis using assms by (simp add: apply_here_def)
next
  case (Inr x)
  obtain d1 u rc where x: "x = (d1, u, rc)" by (cases x)
  have "isteps env d d1" using record_step [OF Inr [unfolded x]] by blast
  moreover have "isteps env d1 d'"
    using assms Inr x by (auto simp: apply_here_def open_outage_steps close_outage_steps)
  ultimately show ?thesis by (rule rtranclp_trans)
qed

lemma cadence_steps: "syncGroupCadence g outcome d = (d', n) \<Longrightarrow> isteps env d d'"
  by (auto simp: syncGroupCadence_def intro: monitors_step split: option.splits if_splits)

text \<open>
  The walk up the groups, for any relation on states that its parts respect. The number counts the
  groups that may still be visited.
\<close>

locale propagation =
  fixes env :: "'c outcome_env" and P :: "nat \<Rightarrow> db \<Rightarrow> db \<Rightarrow> bool"
  assumes stop: "P k d d"
    and cadence: "syncGroupCadence grp outcome d = (d1, n) \<Longrightarrow> P k d1 d' \<Longrightarrow> P k d d'"
    and throttled: "P k d d' \<Longrightarrow> P (Suc k) d d'"
    and recorded: "apply_here env grp outcome d = (d1, res) \<Longrightarrow> P k d1 d' \<Longrightarrow> P (Suc k) d d'"
begin

lemma walk: "refreshGroups env depth g d = (d', res) \<Longrightarrow> P (MAX_GROUP_DEPTH - depth) d d'"
proof (induction k \<equiv> "MAX_GROUP_DEPTH - depth" arbitrary: depth g d d' res)
  case 0
  then have "d' = d" by (subst (asm) refreshGroups.simps) (auto split: option.splits if_splits)
  then show ?case using stop by simp
next
  case (Suc k)
  show ?case
  proof (cases "d' = d")
    case False
    obtain i grp where g: "g = Some i" "depth < MAX_GROUP_DEPTH" "find_monitor d i = Some grp"
        "\<not> (mo_paused grp \<or> checkTypeKind (mo_checkType grp) \<noteq> K_aggregate)"
      using Suc.prems False by (subst (asm) refreshGroups.simps) (auto split: option.splits if_splits)
    define outcome where "outcome = evaluateMonitor (oe_dockerCast env) (oe_findCheckType env) (oe_now env) grp d"
    obtain d1 n where c: "syncGroupCadence grp outcome d = (d1, n)" by fastforce
    have body: "refreshGroups env depth g d =
        (if \<not> shouldRecord grp outcome n (oe_now env) then refreshGroups env (depth + 1) (mo_parentId grp) d1
         else case apply_here env grp outcome d1 of
                (d2, Inl e) \<Rightarrow> (d2, Inl e)
              | (d2, Inr updated) \<Rightarrow> refreshGroups env (depth + 1) (mo_parentId updated) d2)"
      using g c by (subst refreshGroups.simps) (simp add: outcome_def)
    have k: "k = MAX_GROUP_DEPTH - (depth + 1)" using Suc.hyps(2) by simp
    have "P (Suc k) d1 d'"
    proof (cases "shouldRecord grp outcome n (oe_now env)")
      case False
      then show ?thesis using throttled Suc.hyps(1) [OF k, of "mo_parentId grp" d1 d' res] Suc.prems body k by simp
    next
      case True
      obtain d2 r where a: "apply_here env grp outcome d1 = (d2, r)" by fastforce
      have "P k d2 d'"
        using Suc.hyps(1) [OF k, of _ d2 d' res] Suc.prems body True a stop k by (cases r) auto
      then show ?thesis by (rule recorded [OF a])
    qed
    then show ?thesis using cadence [OF c] Suc.hyps(2) by simp
  qed (simp add: stop)
qed

end

interpretation machine: propagation env "\<lambda>_. isteps env" for env
  by unfold_locales (auto intro: rtranclp_trans [OF cadence_steps] rtranclp_trans [OF apply_here_steps])

lemma refreshGroups_steps: "refreshGroups env depth g d = (d', res) \<Longrightarrow> isteps env d d'"
  by (rule machine.walk)

lemma applyOutcome_steps:
  assumes "applyOutcome env depth m outcome d = (d', res)"
  shows "isteps env d d'"
proof -
  obtain d1 r where a: "apply_here env m outcome d = (d1, r)" by fastforce
  have "isteps env d1 d'"
    using assms a refreshGroups_steps [of env depth] by (cases r) (auto simp: applyOutcome_def split: prod.splits sum.splits)
  then show ?thesis using apply_here_steps [OF a] by (meson rtranclp_trans)
qed

lemma followUp_steps: "scheduleFastFollowUp now m d = (d', job) \<Longrightarrow> isteps env d d'"
  unfolding scheduleFastFollowUp_def reserveMonitorForFollowUp_def Let_def
  by (auto intro: monitors_step split: option.splits if_splits prod.splits)

lemma runMonitorCheck_steps:
  assumes "runMonitorCheck env hf i d = (d', res)"
  shows "isteps env d d'"
proof (cases "d' = d")
  case False
  then obtain m where m: "find_monitor d i = Some m" "\<not> (mo_paused m \<or> \<not> isScheduledKind (checkTypeKind (mo_checkType m)) \<or> hf m)"
    using assms by (auto simp: runMonitorCheck_def split: option.splits if_splits)
  obtain d1 r where a: "applyOutcome env 0 m (evaluateMonitor (oe_dockerCast env) (oe_findCheckType env) (oe_now env) m d) d = (d1, r)"
    by fastforce
  have "isteps env d1 d'"
  proof (cases r)
    case (Inl e)
    then show ?thesis using assms m a by (auto simp: runMonitorCheck_def)
  next
    case (Inr u)
    obtain d2 job where f: "scheduleFastFollowUp (oe_now env) u d1 = (d2, job)" by fastforce
    then show ?thesis using assms m a Inr followUp_steps [OF f] by (auto simp: runMonitorCheck_def)
  qed
  then show ?thesis using applyOutcome_steps [OF a] by (meson rtranclp_trans)
qed simp

lemma refreshDeclared_steps: "refreshDeclaredState env m d = (d', res) \<Longrightarrow> isteps env d d'"
  by (auto simp: refreshDeclaredState_def Let_def split: if_splits prod.splits sum.splits
      intro: applyOutcome_steps refreshGroups_steps)

lemma reach_steps: "step\<^sup>*\<^sup>* s t \<Longrightarrow> reach init step s \<Longrightarrow> reach init step t"
  by (induction rule: rtranclp_induct) (auto intro: reach_step)


section \<open>An outage is announced\<close>

lemma find_monitor_distinct:
  "distinct (map mo_id (db_monitors d)) \<Longrightarrow> r \<in> set (db_monitors d) \<Longrightarrow> find_monitor d (mo_id r) = Some r"
  unfolding find_monitor_def by (rule find_distinct) simp_all

lemma derived_sel [simp]:
  "mo_id (derived_state m outcome now rc recent row) = mo_id row"
  "mo_paused (derived_state m outcome now rc recent row) = mo_paused row"
  "mo_shadowBridgeId (derived_state m outcome now rc recent row) = mo_shadowBridgeId row"
  "mo_currentStatus (derived_state m outcome now rc recent row) = rc_status rc"
  "mo_organizationId (derived_state m outcome now rc recent row) = mo_organizationId row"
  by (simp_all add: derived_state_def)

text \<open>The row a decision was derived for.\<close>

lemma decided_row:
  assumes "recordCheckOutcome sha m outcome actorId now d = Inr (d', u, rc)" and "distinct (map mo_id (db_monitors d))"
    and "rc_openIncident rc \<or> rc_resolveIncidents rc"
  obtains row where "row \<in> set (db_monitors d)" and "mo_id row = mo_id m" and "\<not> mo_paused row" and "rc = reconcile_outcome m outcome now"
    and "find_monitor d' (mo_id m) = Some u" and "mo_id u = mo_id m" and "mo_shadowBridgeId u = mo_shadowBridgeId row"
    and "\<not> mo_paused u" and "mo_currentStatus u = rc_status rc" and "db_incidents d' = db_incidents d" and "db_intents d' = db_intents d"
    and "db_events d' = db_events d"
  using assms(1)
proof (cases rule: recordCheckOutcome_cases)
  case (moved l stamp)
  then show ?thesis using assms(3) by simp
next
  case (derived l stamp row f)
  have ids: "map mo_id (db_monitors d') = map mo_id (db_monitors d)"
    unfolding derived(7) by (simp add: derived(5))
  have "u \<in> set (db_monitors d')" unfolding derived(7) using derived(2,3,6) by (auto simp: image_iff)
  then have "find_monitor d' (mo_id u) = Some u" using find_monitor_distinct assms(2) ids by metis
  moreover have "mo_id u = mo_id m" "\<not> mo_paused row" "mo_id row = mo_id m" using derived(3,5,6) by (auto simp: unmoved_def)
  ultimately show ?thesis using derived(2,4-7) by (intro that [of row]) simp_all
qed

lemma unhandled_none:
  assumes "rows_inv d" and "r \<in> set (db_incidents d)" and "active_for m r"
    and "in_notifiedAt r \<noteq> None \<or> (\<exists>e \<in> set (db_events d). ev_incidentId e = in_id r \<and> ev_type e = System)"
  shows "findUnhandledAutoIncident m d = None"
proof (rule ccontr)
  assume "findUnhandledAutoIncident m d \<noteq> None"
  then obtain q where q: "q \<in> set (db_incidents d)" "in_monitorId q = Some m" "in_source q = Src_monitor" "in_status q \<noteq> Resolved"
      "in_notifiedAt q = None" "\<not> (\<exists>e \<in> set (db_events d). ev_incidentId e = in_id q \<and> ev_type e = System)"
    unfolding findUnhandledAutoIncident_def by (auto dest!: find_Some_mem)
  have "in_id q = in_id r" using assms(1-3) q(1-4) unfolding rows_inv_def active_for_def by blast
  moreover have "inj_on in_id (set (db_incidents d))" using assms(1) by (simp add: rows_inv_def distinct_map)
  ultimately have "q = r" using q(1) assms(2) by (meson inj_onD)
  then show False using assms(4) q(5,6) by blast
qed

definition settled_in :: "db \<Rightarrow> incident \<Rightarrow> bool" where
  "settled_in d r \<longleftrightarrow> in_notifiedAt r \<noteq> None \<or> (\<exists>e \<in> set (db_events d). ev_incidentId e = in_id r \<and> ev_type e = System)"

lemma event_settles:
  "r \<in> set (db_incidents d) \<Longrightarrow> r \<in> set (db_incidents (recordSystemEvent (in_id r) msg d)) \<and> settled_in (recordSystemEvent (in_id r) msg d) r"
  by (auto simp: recordSystemEvent_def insert_event_def settled_in_def)

lemma page_announces:
  assumes "i \<in> set (db_incidents d)" and "intents_inv d" and "in_source i = Src_monitor"
  shows "\<exists>r \<in> set (db_incidents (page env i m paged d)). in_id r = in_id i \<and> in_notifiedAt r \<noteq> None \<and> (\<forall>x. active_for x r = active_for x i) \<and>
    has_intent (page env i m paged d) (cause_key (in_id i) Incident_opened None)"
proof (cases rule: claim_effect [of "oe_appUrl env" "oe_describeMonitorTarget env" "oe_now env" i m paged d])
  case 1
  then have "page env i m paged d = d" by (simp add: page_def)
  moreover have "in_notifiedAt i \<noteq> None" using 1(2) assms(1) by blast
  ultimately show ?thesis using assms by (auto simp: intents_inv_def intro!: bexI [of _ i])
next
  case (2 q d1 payload)
  let ?d2 = "recordDispatchIntent (mo_organizationId m) (cause_key (in_id i) Incident_opened None) (Some (in_id i)) payload d1"
  have p: "page env i m paged d = nudge env (mo_organizationId m) ?d2" by (simp add: page_def 2(6))
  note f = delivers_frame [OF nudge_delivers [of ?d2 env "mo_organizationId m"]]
  have "has_intent ?d2 (cause_key (in_id i) Incident_opened None)" by (simp add: 2(5))
  then have h: "has_intent (page env i m paged d) (cause_key (in_id i) Incident_opened None)"
    unfolding p has_intent_def using f(7) by (metis list.set_map)
  define i' where "i' = (if in_notifiedAt i = None then i\<lparr>in_notifiedAt := Some (oe_now env)\<rparr> else i)"
  have "i' \<in> set (db_incidents (page env i m paged d))"
    unfolding p f(2) using assms(1) by (auto simp: 2(4) swapped_def i'_def image_iff)
  moreover have "in_id i' = in_id i \<and> in_notifiedAt i' \<noteq> None \<and> (\<forall>x. active_for x i' = active_for x i)"
    by (simp add: i'_def active_for_def)
  ultimately show ?thesis using h by blast
qed

lemma handle_settles:
  assumes "i \<in> set (db_incidents d)" and "intents_inv d" and "in_source i = Src_monitor"
  shows "\<exists>r \<in> set (db_incidents (handle_incident env m i d)). in_id r = in_id i \<and> settled_in (handle_incident env m i d) r \<and>
    (\<forall>x. active_for x r = active_for x i)"
proof (cases "in_shadow i \<or> askAlertHold (oe_handlers env) i m \<noteq> None")
  case True
  then have "\<exists>msg. handle_incident env m i d = recordSystemEvent (in_id i) msg d"
    by (cases "in_shadow i") (auto simp: handle_incident_def Let_def)
  then obtain msg where "handle_incident env m i d = recordSystemEvent (in_id i) msg d" by blast
  then show ?thesis using event_settles [OF assms(1)] by auto
next
  case False
  then obtain paged where "handle_incident env m i d = page env i m paged d" by (auto simp: handle_incident_def Let_def)
  then show ?thesis using page_announces [OF assms, of env m paged] by (auto simp: settled_in_def)
qed

text \<open>What opening an outage leaves, whatever was there before.\<close>

lemma lines_frame:
  "db_incidents (write_docker_lines created outcome d) = db_incidents d" "db_intents (write_docker_lines created outcome d) = db_intents d"
proof -
  have "db_incidents (fold (recordSystemEvent i) ls d) = db_incidents d \<and> db_intents (fold (recordSystemEvent i) ls d) = db_intents d" for i ls
    by (induction ls arbitrary: d) (simp_all add: recordSystemEvent_def insert_event_def)
  then show "db_incidents (write_docker_lines created outcome d) = db_incidents d" "db_intents (write_docker_lines created outcome d) = db_intents d"
    by (simp_all add: write_docker_lines_def split: option.split)
qed

lemma lines_step: "isteps env d (write_docker_lines created outcome d)"
  by (auto simp: write_docker_lines_def intro: system_steps split: option.split)

lemma open_outage_cases:
  assumes "find_monitor d (mo_id u) = Some u" and "mo_currentStatus u \<noteq> SUp" and "\<not> mo_paused u"
  obtains (created) i d1 d2 where "openMonitorIncident (oe_now env) u (case cr_error outcome of Some e \<Rightarrow> e | None \<Rightarrow> ''check failed'') d = (d1, Some i)"
      and "d2 = write_docker_lines (Some i) outcome d1"
      and "i \<in> set (db_incidents d2)" and "active_for (mo_id u) i" and "in_shadow i \<longleftrightarrow> mo_shadowBridgeId u \<noteq> None" and "isteps env d d2"
      and "\<forall>q \<in> set (db_incidents d). \<not> active_for (mo_id u) q" and "open_outage env u outcome d = handle_incident env u i d2"
  | (repaired) i where "i \<in> set (db_incidents d)" and "active_for (mo_id u) i" and "open_outage env u outcome d = handle_incident env u i d"
      and "findUnhandledAutoIncident (mo_id u) d = Some i"
  | (known) i where "i \<in> set (db_incidents d)" and "active_for (mo_id u) i" and "open_outage env u outcome d = d"
      and "findUnhandledAutoIncident (mo_id u) d = None"
proof (cases rule: open_effect [of "oe_now env" u "case cr_error outcome of Some e \<Rightarrow> e | None \<Rightarrow> ''check failed''" d])
  case 1
  have ex: "\<exists>q \<in> set (db_incidents d). active_for (mo_id u) q"
    using 1 assms by (auto simp: openMonitorIncident_def Let_def split: if_splits)
  have o: "open_outage env u outcome d = (case findUnhandledAutoIncident (mo_id u) d of None \<Rightarrow> d | Some i \<Rightarrow> handle_incident env u i d)"
    by (simp add: open_outage_def 1 write_docker_lines_def)
  show ?thesis
  proof (cases "findUnhandledAutoIncident (mo_id u) d")
    case None
    then show ?thesis using ex o known by auto
  next
    case (Some i)
    then have "i \<in> set (db_incidents d)" "active_for (mo_id u) i"
      unfolding findUnhandledAutoIncident_def by (auto dest!: find_Some_mem simp: active_for_def)
    then show ?thesis using Some o repaired by auto
  qed
next
  case (2 i current d1)
  let ?d2 = "write_docker_lines (Some i) outcome d1"
  have "isteps env d d1" using incident_step.open_auto 2(1) by (metis fst_conv r_into_rtranclp)
  then have s: "isteps env d ?d2" using lines_step by (meson rtranclp_trans)
  have "active_for (mo_id u) i" using 2(2-4) by (simp add: active_for_def fresh_row_def)
  then show ?thesis
    using created [OF 2(1) refl _ _ _ s] 2(5,8-10) assms(1) by (auto simp: lines_frame open_outage_def 2(1))
qed

lemma open_outage_settles:
  assumes "incident_inv d" and "find_monitor d (mo_id u) = Some u" and "mo_currentStatus u \<noteq> SUp" and "\<not> mo_paused u"
  shows "(\<exists>r \<in> set (db_incidents (open_outage env u outcome d)). active_for (mo_id u) r) \<and>
    findUnhandledAutoIncident (mo_id u) (open_outage env u outcome d) = None"
proof -
  have inv: "rows_inv (open_outage env u outcome d)"
    using incidents.steps_inv [OF open_outage_steps [of env d u outcome] assms(1)] by (simp add: incident_inv_def)
  have fin: ?thesis if "i \<in> set (db_incidents d2)" "intents_inv d2" "active_for (mo_id u) i"
      "open_outage env u outcome d = handle_incident env u i d2" for i d2
  proof -
    have "in_source i = Src_monitor" using that(3) by (simp add: active_for_def)
    from handle_settles [OF that(1,2) this, of env u] that(3,4) obtain r where r:
      "r \<in> set (db_incidents (open_outage env u outcome d))" "settled_in (open_outage env u outcome d) r" "active_for (mo_id u) r" by auto
    then show ?thesis using unhandled_none [OF inv r(1,3)] by (auto simp: settled_in_def)
  qed
  show ?thesis
  proof (cases rule: open_outage_cases [OF assms(2-4), of env outcome, case_names created repaired known])
    case (created i d1 d2)
    have "intents_inv d2" using incidents.steps_inv [OF created(6) assms(1)] by (simp add: incident_inv_def)
    then show ?thesis using fin created(3,4,8) by blast
  next
    case (repaired i)
    then show ?thesis using fin assms(1) by (auto simp: incident_inv_def)
  next
    case (known i)
    then show ?thesis by auto
  qed
qed



section \<open>A recovery closes\<close>

lemma resolve_one_rows:
  "db_incidents (fst (resolve_one app target now m inc s)) =
     map (\<lambda>r. if in_id r = in_id inc \<and> in_status r \<noteq> Resolved then move_row Resolved now r else r) (db_incidents (fst s))"
proof -
  obtain d acc where s: "s = (d, acc)" by (cases s)
  show ?thesis
  proof (cases rule: resolve_effect [of app target now m inc d acc])
    case 1
    then show ?thesis unfolding s by (auto intro!: map_idI [symmetric])
  next
    case (2 q d3)
    then show ?thesis unfolding s by (simp add: swapped_def)
  qed
qed

lemma resolve_fold_clears:
  assumes "\<And>r. r \<in> set (db_incidents (fst s)) \<Longrightarrow> active_for m r \<Longrightarrow> in_id r \<in> in_id ` set rs"
  shows "\<forall>r \<in> set (db_incidents (fst (fold (resolve_one app target now mon) rs s))). \<not> active_for m r"
  using assms
proof (induction rs arbitrary: s)
  case (Cons inc rs)
  have "in_id r \<in> in_id ` set rs"
    if r: "r \<in> set (db_incidents (fst (resolve_one app target now mon inc s)))" "active_for m r" for r
  proof -
    obtain q where q: "q \<in> set (db_incidents (fst s))"
        "r = (if in_id q = in_id inc \<and> in_status q \<noteq> Resolved then move_row Resolved now q else q)"
      using r(1) unfolding resolve_one_rows by auto
    have "\<not> (in_id q = in_id inc \<and> in_status q \<noteq> Resolved)" using q(2) r(2) by (auto simp: active_for_def move_row_def split: if_splits)
    then have "r = q" "in_id q \<noteq> in_id inc" using q(2) r(2) by (auto simp: active_for_def)
    then show ?thesis using Cons.prems [OF q(1)] r(2) by auto
  qed
  from Cons.IH [OF this] show ?case by simp
qed auto

lemma resolve_clears: "\<forall>r \<in> set (db_incidents (fst (resolveMonitorIncidents app target now m d))). \<not> active_for (mo_id m) r"
  unfolding resolveMonitorIncidents_def by (rule resolve_fold_clears) (auto simp: active_for_def)

text \<open>
  C20: A recovery leaves no automatic incident of the monitor open, however many there were. A result that
  neither opens nor resolves leaves every incident as it was.
\<close>

theorem recovery_leaves_nothing_open:
  assumes "distinct (map mo_id (db_monitors d))"
    and "recordCheckOutcome (oe_sha256 env) m outcome (oe_actorId env) (oe_now env) d = Inr (d1, u, rc)" and "\<not> rc_openIncident rc"
    and "apply_here env m outcome d = (d', Inr updated)"
  shows "if rc_resolveIncidents rc then \<forall>r \<in> set (db_incidents d'). \<not> active_for (mo_id m) r
    else db_incidents d' = db_incidents d \<and> db_events d' = db_events d \<and> db_intents d' = db_intents d"
proof (cases "rc_resolveIncidents rc")
  case True
  obtain row where u: "mo_id u = mo_id m" using decided_row [OF assms(2,1)] True by metis
  obtain d2 resolved where e: "resolveMonitorIncidents (oe_appUrl env) (oe_describeMonitorTarget env) (oe_now env) u d1 = (d2, resolved)" by fastforce
  have "db_incidents d' = db_incidents d2"
    using assms(2-4) True e delivers_frame(2) [OF nudge_delivers] by (auto simp: apply_here_def close_outage_def)
  then show ?thesis using True resolve_clears [of "oe_appUrl env" "oe_describeMonitorTarget env" "oe_now env" u d1] e u by simp
next
  case False
  have "d' = d1" using assms(2-4) False by (simp add: apply_here_def)
  moreover have "db_incidents d1 = db_incidents d \<and> db_events d1 = db_events d \<and> db_intents d1 = db_intents d"
    using assms(2) by (cases rule: recordCheckOutcome_cases) simp_all
  ultimately show ?thesis using False by simp
qed

section \<open>A shadow monitor tells nobody\<close>

lemma resolve_fold_silent:
  assumes "\<And>r. r \<in> set (db_incidents (fst s)) \<Longrightarrow> in_id r \<in> in_id ` set rs \<Longrightarrow> in_status r \<noteq> Resolved \<Longrightarrow> in_notifiedAt r = None"
  shows "db_intents (fst (fold (resolve_one app target now mon) rs s)) = db_intents (fst s)"
  using assms
proof (induction rs arbitrary: s)
  case (Cons inc rs)
  obtain d acc where s: "s = (d, acc)" by (cases s)
  let ?s = "resolve_one app target now mon inc s"
  have quiet: "db_intents (fst ?s) = db_intents (fst s)"
  proof (cases rule: resolve_effect [of app target now mon inc d acc])
    case 1
    then show ?thesis by (simp add: s)
  next
    case (2 q d3)
    have "in_notifiedAt q = None" using Cons.prems [of q] 2(1-3) by (simp add: s)
    then show ?thesis using 2(6,9) by (simp add: s)
  qed
  have "in_notifiedAt r = None" if r: "r \<in> set (db_incidents (fst ?s))" "in_id r \<in> in_id ` set rs" "in_status r \<noteq> Resolved" for r
  proof -
    obtain q where q: "q \<in> set (db_incidents (fst s))"
        "r = (if in_id q = in_id inc \<and> in_status q \<noteq> Resolved then move_row Resolved now q else q)"
      using r(1) unfolding resolve_one_rows by auto
    then have "r = q" using r(3) by (auto simp: move_row_def split: if_splits)
    then show ?thesis using Cons.prems [OF q(1)] r(2,3) by auto
  qed
  from Cons.IH [OF this] quiet show ?case by simp
qed simp

lemma open_outage_silent:
  assumes "find_monitor d (mo_id u) = Some u" and "mo_currentStatus u \<noteq> SUp" and "\<not> mo_paused u" and "mo_shadowBridgeId u \<noteq> None"
    and "\<forall>r \<in> set (db_incidents d). active_for (mo_id u) r \<longrightarrow> in_shadow r"
  shows "db_intents (open_outage env u outcome d) = db_intents d"
proof -
  have event: "db_intents (recordSystemEvent i msg x) = db_intents x" for i msg x by (simp add: recordSystemEvent_def insert_event_def)
  show ?thesis
  proof (cases rule: open_outage_cases [OF assms(1-3), of env outcome, case_names created repaired known])
    case (created i d1 d2)
    have "db_intents d1 = db_intents d"
      using open_effect [of "oe_now env" u "case cr_error outcome of Some e \<Rightarrow> e | None \<Rightarrow> ''check failed''" d] created(1) by (metis prod.inject)
    then show ?thesis using created(2,5,8) assms(4) by (simp add: handle_incident_def event lines_frame)
  next
    case (repaired i)
    then show ?thesis using assms(5) by (simp add: handle_incident_def event)
  next
    case (known i)
    then show ?thesis by simp
  qed
qed


section \<open>The walk is bounded\<close>

lemma events_checks: "db_checks (fold (recordSystemEvent i) ls d) = db_checks d"
  by (induction ls arbitrary: d) (simp_all add: recordSystemEvent_def insert_event_def)

lemma resolve_checks: "db_checks (fst (fold (resolve_one app target now m) rs s)) = db_checks (fst s)"
proof (induction rs arbitrary: s)
  case (Cons inc rs)
  have "db_checks (fst (resolve_one app target now m inc s)) = db_checks (fst s)"
    by (cases s) (auto simp: resolve_one_def Let_def swap_def insert_event_def writeAudit_def split: option.splits)
  then show ?case using Cons.IH by simp
qed simp

lemma resolveMonitor_checks: "db_checks (fst (resolveMonitorIncidents app target now m d)) = db_checks d"
  by (simp add: resolveMonitorIncidents_def resolve_checks)

lemma page_checks: "db_checks (page env i m paged d) = db_checks d"
  by (auto simp: page_def claimOpenedNotifications_def claimIncidentNotification_def swap_def delivers_frame(4) [OF nudge_delivers]
      split: option.splits prod.splits)

lemma outage_checks: "db_checks (open_outage env u outcome d) = db_checks d" "db_checks (close_outage env u d) = db_checks d"
proof -
  have h: "db_checks (handle_incident env u i x) = db_checks x" for i x
    by (simp add: handle_incident_def Let_def recordSystemEvent_def insert_event_def page_checks split: option.split)
  have o: "db_checks (fst (openMonitorIncident now u desc d)) = db_checks d" for now desc
    by (auto simp: openMonitorIncident_def Let_def insert_event_def insert_incident_def writeAudit_def split: option.split)
  have w: "db_checks (write_docker_lines c outcome x) = db_checks x" for c x
    by (simp add: write_docker_lines_def events_checks split: option.split)
  show "db_checks (open_outage env u outcome d) = db_checks d"
  proof -
    let ?desc = "case cr_error outcome of Some e \<Rightarrow> e | None \<Rightarrow> ''check failed''"
    obtain d1 created where e: "openMonitorIncident (oe_now env) u ?desc d = (d1, created)" by fastforce
    have "db_checks d1 = db_checks d" using o [of "oe_now env" ?desc] e by simp
    then show ?thesis by (simp add: open_outage_def e Let_def h w split: option.split)
  qed
  show "db_checks (close_outage env u d) = db_checks d"
  proof -
    obtain d1 resolved where e: "resolveMonitorIncidents (oe_appUrl env) (oe_describeMonitorTarget env) (oe_now env) u d = (d1, resolved)"
      by fastforce
    have "db_checks d1 = db_checks d"
      using resolveMonitor_checks [of "oe_appUrl env" "oe_describeMonitorTarget env" "oe_now env" u d] e by simp
    then show ?thesis by (simp add: close_outage_def e delivers_frame(4) [OF nudge_delivers])
  qed
qed

lemma apply_here_checks:
  assumes "apply_here env m outcome d = (d', res)"
  shows "length (db_checks d') \<le> Suc (length (db_checks d))"
proof (cases "recordCheckOutcome (oe_sha256 env) m outcome (oe_actorId env) (oe_now env) d")
  case (Inl e)
  then show ?thesis using assms by (simp add: apply_here_def)
next
  case (Inr x)
  obtain d1 u rc where x: "x = (d1, u, rc)" by (cases x)
  have "length (db_checks d1) = Suc (length (db_checks d))"
    using Inr [unfolded x] by (cases rule: recordCheckOutcome_cases) simp_all
  moreover have "db_checks d' = db_checks d1" using assms Inr x by (auto simp: apply_here_def outage_checks)
  ultimately show ?thesis by simp
qed

lemma cadence_checks: "syncGroupCadence g outcome d = (d', n) \<Longrightarrow> db_checks d' = db_checks d"
  by (auto simp: syncGroupCadence_def split: option.splits if_splits)

interpretation counting: propagation env "\<lambda>k d d'. length (db_checks d') \<le> length (db_checks d) + k" for env
  by unfold_locales (auto dest!: cadence_checks apply_here_checks)

text \<open>
  C22: Applying an outcome ends, and writes at most nine observations: the monitor's own and one for each of
  at most eight groups above it, less the depth already walked. This holds for whatever the rows say,
  groups in a cycle included.
\<close>

theorem propagation_is_bounded:
  "length (db_checks (fst (applyOutcome env depth m outcome d))) \<le> length (db_checks d) + 1 + (MAX_GROUP_DEPTH - depth)"
proof -
  obtain d1 r where a: "apply_here env m outcome d = (d1, r)" by fastforce
  show ?thesis
  proof (cases r)
    case (Inl e)
    then show ?thesis using apply_here_checks [OF a] a by (simp add: applyOutcome_def)
  next
    case (Inr u)
    obtain d2 r2 where g: "refreshGroups env depth (mo_parentId u) d1 = (d2, r2)" by fastforce
    have "fst (applyOutcome env depth m outcome d) = d2" using a Inr g by (cases r2) (simp_all add: applyOutcome_def)
    then show ?thesis using counting.walk [OF g] apply_here_checks [OF a] by simp
  qed
qed

text \<open>How the two functions call each other in the source.\<close>

lemma refreshGroups_applies:
  assumes "find_monitor d g = Some grp" and "\<not> mo_paused grp" and "checkTypeKind (mo_checkType grp) = K_aggregate" and "depth < MAX_GROUP_DEPTH"
    and "outcome = evaluateMonitor (oe_dockerCast env) (oe_findCheckType env) (oe_now env) grp d"
    and "syncGroupCadence grp outcome d = (d1, n)" and "shouldRecord grp outcome n (oe_now env)"
  shows "refreshGroups env depth (Some g) d =
    (case applyOutcome env (depth + 1) grp outcome d1 of (d2, Inl e) \<Rightarrow> (d2, Inl e) | (d2, Inr _) \<Rightarrow> (d2, Inr ()))"
  using assms by (subst refreshGroups.simps) (auto simp: applyOutcome_def split: prod.splits sum.splits)

section \<open>Lines on the timeline hide an incident\<close>

text \<open>
  The lines a container check writes on a new incident are system events, committed before the page.
  A worker that dies between them and the claim leaves an incident that is open, was never announced,
  and is refused by the search for unhandled incidents from then on.
\<close>

definition crashed_after_lines :: db where
  "crashed_after_lines =
     (let (d1, created) = openMonitorIncident 9 sample_monitor ''unhealthy'' sample_db
      in write_docker_lines created ((sample_outcome VDown)\<lparr>cr_failedAssertions := [''health-down'']\<rparr>) d1)"

lemma docker_lines_hide_the_incident:
  "map in_notifiedAt (db_incidents crashed_after_lines) = [None]" "findUnhandledAutoIncident ''m1'' crashed_after_lines = None"
  by (simp_all add: crashed_after_lines_def openMonitorIncident_def sample_db_def find_monitor_def sample_monitor_def Let_def
      write_docker_lines_def dockerIncidentLines_def sample_outcome_def insert_incident_def insert_event_def writeAudit_def
      recordSystemEvent_def findUnhandledAutoIncident_def new_incident_def)

section \<open>Witnesses\<close>

definition watch_env :: "unit outcome_env" where
  "watch_env = \<lparr>oe_appUrl = ''https://v'', oe_describeMonitorTarget = mo_url, oe_handlers = [], oe_sha256 = id, oe_actorId = None, oe_now = 9,
     oe_dockerCast = (\<lambda>_. undefined), oe_findCheckType = (\<lambda>_. None), oe_transport = sample_transport, oe_dispatch = sample_env,
     oe_locked = (\<lambda>_. False), oe_refusal = (\<lambda>_. None), oe_policy = sample_policy, oe_batch = 50, oe_schedule = sample_schedule\<rparr>"

lemma watch_start: "reach no_incidents (incident_step (oe_appUrl watch_env) (oe_describeMonitorTarget watch_env)) sample_db"
  by (rule reach_init) (simp add: no_incidents_def sample_db_def)

lemma watch_record:
  obtains d1 u rc d' where "recordCheckOutcome (oe_sha256 watch_env) sample_monitor (sample_outcome v) (oe_actorId watch_env) (oe_now watch_env) sample_db =
      Inr (d1, u, rc)" and "rc = reconcile_outcome sample_monitor (sample_outcome v) 9" and "mo_shadowBridgeId u = None"
    and "apply_here watch_env sample_monitor (sample_outcome v) sample_db = (d', Inr u)"
proof -
  have f: "find_monitor sample_db (mo_id sample_monitor) = Some sample_monitor" by (simp add: find_monitor_def sample_db_def)
  obtain d1 u rc where r: "recordCheckOutcome id sample_monitor (sample_outcome v) None 9 sample_db = Inr (d1, u, rc)"
    by (rule unsigned_record_ok [OF f])
  then have "rc = reconcile_outcome sample_monitor (sample_outcome v) 9 \<and> mo_shadowBridgeId u = None"
    by (cases rule: recordCheckOutcome_cases) (auto simp: sample_db_def unmoved_def sample_monitor_def)
  then show ?thesis using r that by (simp add: watch_env_def apply_here_def)
qed

lemma watch_decides:
  "rc_openIncident (reconcile_outcome sample_monitor (sample_outcome VDown) 9)"
  "\<not> rc_openIncident (reconcile_outcome sample_monitor (sample_outcome VUp) 9)"
  "rc_resolveIncidents (reconcile_outcome sample_monitor (sample_outcome VUp) 9)"
  by (simp_all add: reconcile_outcome_def reconcile_def deriveStatus_def sample_outcome_def sample_monitor_def advanceFailureRun_def)

lemma watch_rows: "distinct (map mo_id (db_monitors sample_db))" "db_incidents sample_db = []" "mo_id sample_monitor = ''m1''"
  by (simp_all add: sample_db_def sample_monitor_def)




theorem recovery_leaves_nothing_open_witness:
  "\<exists>d' u. apply_here watch_env sample_monitor (sample_outcome VUp) sample_db = (d', Inr u) \<and> (\<forall>r. r \<in> set (db_incidents d') \<longrightarrow> \<not> active_for ''m1'' r)"
proof (rule watch_record [of VUp])
  fix d1 u rc d'
  assume r: "recordCheckOutcome (oe_sha256 watch_env) sample_monitor (sample_outcome VUp) (oe_actorId watch_env) (oe_now watch_env) sample_db =
      Inr (d1, u, rc)" "rc = reconcile_outcome sample_monitor (sample_outcome VUp) 9"
    and a: "apply_here watch_env sample_monitor (sample_outcome VUp) sample_db = (d', Inr u)"
  have o: "\<not> rc_openIncident rc" by (simp add: r(2) watch_decides)
  from recovery_leaves_nothing_open [OF watch_rows(1) r(1) o a] a show ?thesis by (simp add: watch_rows r(2) watch_decides)
qed

definition shadow_db :: db where
  "shadow_db = sample_db\<lparr>db_monitors := [sample_monitor\<lparr>mo_shadowBridgeId := Some ''b1''\<rparr>]\<rparr>"


end
