(* ===== verification/Egress.thy ===== *)
theory Egress
  imports Net_Address "HOL-Library.AList"
begin

text \<open>
  The outbound egress policy: \<open>src/modules/monitors/egress.ts\<close> and the guard of the probes that
  open their own sockets, \<open>types/probes/guard.ts\<close>. A URL is the record of the parts the code
  reads; the URL parser, the resolver, the sockets, the decoders of compressed bodies and the
  validity test of a header are arguments. The resolver is asked again at every hop and may
  answer differently each time. What leaves the process is the list of events of a request:
  the audited exceptions, the requests sent and the bytes of a redirect that were drained.
\<close>

section \<open>Policies\<close>

datatype egress_channel = MonitorChannel | WebhookChannel | RecoveryChannel

record egress_policy =
  ep_channel :: egress_channel
  ep_allowPrivate :: bool

record egress_settings =
  es_ALLOW_PRIVATE_MONITOR_TARGETS :: bool
  es_ALLOW_PRIVATE_WEBHOOK_TARGETS :: bool
  es_ALLOW_PRIVATE_RECOVERY_TARGETS :: bool

definition egressPolicyFor :: "egress_settings \<Rightarrow> egress_channel \<Rightarrow> bool option \<Rightarrow> egress_policy" where
  "egressPolicyFor env channel allowPrivate =
     \<lparr>ep_channel = channel,
      ep_allowPrivate =
        (case allowPrivate of
           Some allow \<Rightarrow> allow
         | None \<Rightarrow> (case channel of
               MonitorChannel \<Rightarrow> es_ALLOW_PRIVATE_MONITOR_TARGETS env
             | WebhookChannel \<Rightarrow> es_ALLOW_PRIVATE_WEBHOOK_TARGETS env
             | RecoveryChannel \<Rightarrow> es_ALLOW_PRIVATE_RECOVERY_TARGETS env))\<rparr>"

section \<open>Authorization\<close>

record url =
  u_protocol :: string
  u_hostname :: string
  u_host :: string
  u_port :: string
  u_pathname :: string
  u_search :: string
  u_origin :: string
  u_href :: string

record resolved_address =
  ra_address :: string
  ra_family :: nat

datatype egress_error =
    EgressBlocked string
  | LookupFailed string
  | FetchFailed string
  | TimedOut
  | InvalidUrl
  | Uncaught string

record egress_exception =
  ee_channel :: egress_channel
  ee_hostname :: string
  ee_address :: string
  ee_classification :: address_class
  ee_hop :: nat
  ee_url :: string

record egress_decision =
  ed_pin :: "resolved_address option"
  ed_classification :: "address_class option"
  ed_exception :: bool

type_synonym egress_lookup = "string \<Rightarrow> string + resolved_address list"

fun egressBlockReason :: "address_class \<Rightarrow> string" where
  "egressBlockReason MetadataAddr = ''Target resolves to a cloud metadata address''"
| "egressBlockReason LinkLocalAddr = ''Target resolves to a link-local address''"
| "egressBlockReason UnspecifiedAddr = ''Target resolves to a reserved address''"
| "egressBlockReason ReservedAddr = ''Target resolves to a reserved address''"
| "egressBlockReason PublicAddr = ''Target resolves to a private address''"
| "egressBlockReason PrivateAddr = ''Target resolves to a private address''"
| "egressBlockReason LoopbackAddr = ''Target resolves to a private address''"

text \<open>\<open>classifyAddress(address) ?? "reserved"\<close>.\<close>

definition class_or_reserved :: "string \<Rightarrow> address_class" where
  "class_or_reserved address = (case classifyAddress address of Some c \<Rightarrow> c | None \<Rightarrow> ReservedAddr)"

fun refused_address :: "bool \<Rightarrow> resolved_address list \<Rightarrow> string option" where
  "refused_address allowPrivate [] = None"
| "refused_address allowPrivate (r # rest) =
     (let classification = class_or_reserved (ra_address r) in
      if classification = PublicAddr then refused_address allowPrivate rest
      else if isNeverReachable classification \<or> \<not> allowPrivate then Some (egressBlockReason classification)
      else refused_address allowPrivate rest)"

definition redactUrl :: "url \<Rightarrow> string" where
  "redactUrl url = u_protocol url @ ''//'' @ u_host url @ u_pathname url"

definition target_addresses :: "egress_lookup \<Rightarrow> string \<Rightarrow> string + resolved_address list" where
  "target_addresses lookup hostname =
     (case parseAddress hostname of
        Some literal \<Rightarrow> Inr [\<lparr>ra_address = hostname, ra_family = pa_family literal\<rparr>]
      | None \<Rightarrow> lookup hostname)"

definition decision_for :: "resolved_address list \<Rightarrow> egress_decision" where
  "decision_for addresses =
     (let pin = (case addresses of [] \<Rightarrow> None | r # _ \<Rightarrow> Some r);
          classification = Option.bind pin (\<lambda>p. classifyAddress (ra_address p))
      in \<lparr>ed_pin = pin, ed_classification = classification,
          ed_exception = (classification \<noteq> None \<and> classification \<noteq> Some PublicAddr)\<rparr>)"

definition audit_entry_for :: "egress_policy \<Rightarrow> url \<Rightarrow> nat \<Rightarrow> egress_decision \<Rightarrow> egress_exception list" where
  "audit_entry_for policy url hop decision =
     (case (ed_pin decision, ed_classification decision) of
        (Some pin, Some classification) \<Rightarrow>
          (if ed_exception decision
           then [\<lparr>ee_channel = ep_channel policy, ee_hostname = normalizeHost (u_hostname url),
                  ee_address = ra_address pin, ee_classification = classification,
                  ee_hop = hop, ee_url = redactUrl url\<rparr>]
           else [])
      | _ \<Rightarrow> [])"

text \<open>The decision, or the error thrown, and the exceptions written to the audit sink.\<close>

definition authorizeEgress ::
  "egress_policy \<Rightarrow> egress_lookup \<Rightarrow> url \<Rightarrow> nat \<Rightarrow> (egress_error + egress_decision) \<times> egress_exception list" where
  "authorizeEgress policy lookup url hop =
     (if u_protocol url \<noteq> ''http:'' \<and> u_protocol url \<noteq> ''https:''
      then (Inl (EgressBlocked (''Only http and https targets can be reached, not '' @ remove1 CHR '':'' (u_protocol url))), [])
      else (let hostname = normalizeHost (u_hostname url) in
        if hostname \<in> set FORBIDDEN_HOSTNAMES
        then (Inl (EgressBlocked ''Target is a cloud metadata endpoint''), [])
        else (case target_addresses lookup hostname of
            Inl e \<Rightarrow> (Inl (LookupFailed e), [])
          | Inr addresses \<Rightarrow>
              (if addresses = [] then (Inl (EgressBlocked ''Target did not resolve to any address''), [])
               else (case refused_address (ep_allowPrivate policy) addresses of
                   Some reason \<Rightarrow> (Inl (EgressBlocked reason), [])
                 | None \<Rightarrow>
                     (let decision = decision_for addresses
                      in (Inr decision, audit_entry_for policy url hop decision)))))))"

section \<open>Headers and bodies\<close>

type_synonym header_list = "(string \<times> string) list"

definition upper :: "char \<Rightarrow> char" where
  "upper c = (if CHR ''a'' \<le> c \<and> c \<le> CHR ''z'' then char_of (of_char c - (32::nat)) else c)"

text \<open>\<open>headers.append\<close>: a name is kept in lower case, a second value is joined to the first.\<close>

fun header_append :: "string \<Rightarrow> string \<Rightarrow> header_list \<Rightarrow> header_list" where
  "header_append name v [] = [(map lower name, v)]"
| "header_append name v ((n, w) # rest) =
     (if n = map lower name then (n, w @ '', '' @ v) # rest else (n, w) # header_append name v rest)"

text \<open>\<open>new Headers(init)\<close>, \<open>headers.delete(name)\<close> and \<open>headers.get(name)\<close>.\<close>

definition new_headers :: "header_list \<Rightarrow> header_list" where
  "new_headers init = fold (\<lambda>(n, v). header_append n v) init []"

definition header_delete :: "string \<Rightarrow> header_list \<Rightarrow> header_list" where
  "header_delete name = filter (\<lambda>(n, v). n \<noteq> name)"

definition ORIGIN_BOUND_HEADERS :: "string list" where
  "ORIGIN_BOUND_HEADERS = [''authorization'', ''cookie'', ''x-vigil-signature'']"

definition requestHeaders :: "header_list \<Rightarrow> string option \<Rightarrow> header_list" where
  "requestHeaders init body =
     (let headers = fold (\<lambda>(n, v). AList.update n v) (new_headers init)
                      [(''accept'', ''*/*''), (''accept-encoding'', ''gzip, deflate, br'')]
      in case body of
           Some b \<Rightarrow>
             (if map_of headers ''content-length'' = None
              then headers @ [(''content-length'', show_nat (length b))] else headers)
         | None \<Rightarrow> headers)"

text \<open>
  How a transport fails: a connection error with its cause, or the time limit of the signal. The
  pinned client and \<open>fetch\<close> report the first as a \<open>TypeError\<close> with the cause.
\<close>

datatype transport_error = ConnectionError string | TimeLimit

fun thrown :: "transport_error \<Rightarrow> egress_error" where
  "thrown (ConnectionError cause) = FetchFailed cause"
| "thrown TimeLimit = TimedOut"

text \<open>A body as a reader sees it: chunks of bytes, possibly ending in an error.\<close>

datatype chunk = Bytes string | BodyError transport_error

definition MAX_DRAIN_BYTES :: nat where
  "MAX_DRAIN_BYTES = 64 * 1024"

fun drain_loop :: "nat \<Rightarrow> nat \<Rightarrow> chunk list \<Rightarrow> nat" where
  "drain_loop maxBytes bytes [] = bytes"
| "drain_loop maxBytes bytes (c # rest) =
     (if bytes < maxBytes
      then (case c of Bytes v \<Rightarrow> drain_loop maxBytes (bytes + length v) rest | BodyError e \<Rightarrow> bytes)
      else bytes)"

text \<open>The number of bytes read before the download is stopped.\<close>

definition drainBodyCapped :: "chunk list option \<Rightarrow> nat \<Rightarrow> nat" where
  "drainBodyCapped body maxBytes = (case body of None \<Rightarrow> 0 | Some chunks \<Rightarrow> drain_loop maxBytes 0 chunks)"

section \<open>The pinned transport\<close>

record request_init =
  ri_method :: "string option"
  ri_headers :: header_list
  ri_body :: "string option"

record dial =
  dl_protocol :: string
  dl_hostname :: string
  dl_port :: string
  dl_path :: string
  dl_method :: string
  dl_headers :: header_list
  dl_body :: "string option"
  dl_address :: resolved_address

datatype header_value = One string | Many "string list"

record message =
  ms_statusCode :: "nat option"
  ms_headers :: "(string \<times> header_value) list"
  ms_statusMessage :: "string option"
  ms_body :: "chunk list"

record response =
  rs_status :: nat
  rs_statusText :: string
  rs_headers :: header_list
  rs_url :: string
  rs_body :: "chunk list option"

fun header_values :: "header_value \<Rightarrow> string list" where
  "header_values (One v) = [v]"
| "header_values (Many vs) = vs"

definition responseHeaders :: "(string \<Rightarrow> string \<Rightarrow> bool) \<Rightarrow> (string \<times> header_value) list \<Rightarrow> header_list" where
  "responseHeaders valid raw =
     fold (\<lambda>(name, value) headers.
         fold (\<lambda>single headers. if valid name single then header_append name single headers else headers)
           (header_values value) headers) raw []"

definition reasonPhrase :: "string option \<Rightarrow> string" where
  "reasonPhrase statusMessage =
     (case statusMessage of
        None \<Rightarrow> ''''
      | Some s \<Rightarrow>
          if list_all (\<lambda>c. c = CHR 0x09 \<or> CHR 0x20 \<le> c \<and> c \<le> CHR 0x7E \<or> CHR 0x80 \<le> c) s then s else '''')"

definition decompressorFor :: "string \<Rightarrow> string option" where
  "decompressorFor encoding =
     (if encoding = ''gzip'' \<or> encoding = ''x-gzip'' then Some ''gunzip''
      else if encoding = ''deflate'' then Some ''inflate''
      else if encoding = ''br'' then Some ''brotli''
      else None)"

definition bodyless :: "string \<Rightarrow> nat \<Rightarrow> bool" where
  "bodyless requestMethod status \<longleftrightarrow> requestMethod = ''HEAD'' \<or> status = 204 \<or> status = 205 \<or> status = 304"

text \<open>
  \<open>webResponse\<close>. The constructor \<open>new Response\<close> throws a \<open>RangeError\<close> on a status outside 200 to 599;
  the callback it is called from has no handler for it.
\<close>

definition webResponse ::
  "(string \<Rightarrow> string \<Rightarrow> bool) \<Rightarrow> (string \<Rightarrow> chunk list \<Rightarrow> chunk list) \<Rightarrow>
   message \<Rightarrow> url \<Rightarrow> string \<Rightarrow> egress_error + response" where
  "webResponse valid decode message url requestMethod =
     (let status = (case ms_statusCode message of Some s \<Rightarrow> s | None \<Rightarrow> 502);
          headers = responseHeaders valid (ms_headers message);
          encoding = map lower (case map_of (ms_headers message) ''content-encoding'' of Some (One v) \<Rightarrow> v | _ \<Rightarrow> '''');
          decompressor = (if bodyless requestMethod status then None else decompressorFor encoding);
          headers' = (if decompressor = None then headers
                      else header_delete ''content-length'' (header_delete ''content-encoding'' headers));
          body = (if bodyless requestMethod status then None
                  else Some (case decompressor of None \<Rightarrow> ms_body message | Some d \<Rightarrow> decode d (ms_body message)))
      in if status < 200 \<or> 599 < status then Inl (Uncaught ''RangeError'')
         else Inr \<lparr>rs_status = status, rs_statusText = reasonPhrase (ms_statusMessage message),
                   rs_headers = headers', rs_url = u_href url, rs_body = body\<rparr>)"

text \<open>The options \<open>pinnedRequest\<close> hands to \<open>node:http\<close>; the connector asks \<open>pinnedLookup\<close> for the address.\<close>

definition pinnedLookup :: "resolved_address \<Rightarrow> string \<Rightarrow> resolved_address" where
  "pinnedLookup pin hostname = \<lparr>ra_address = ra_address pin, ra_family = ra_family pin\<rparr>"

definition pinned_dial :: "url \<Rightarrow> string \<Rightarrow> header_list \<Rightarrow> string option \<Rightarrow> resolved_address \<Rightarrow> dial" where
  "pinned_dial url requestMethod headers body pin =
     (let hostname = normalizeHost (u_hostname url) in
      \<lparr>dl_protocol = u_protocol url, dl_hostname = hostname,
       dl_port = (if u_port url \<noteq> [] then u_port url else if u_protocol url = ''https:'' then ''443'' else ''80''),
       dl_path = u_pathname url @ u_search url, dl_method = map upper requestMethod,
       dl_headers = requestHeaders headers body, dl_body = body, dl_address = pinnedLookup pin hostname\<rparr>)"

section \<open>The redirect loop\<close>

definition MAX_REDIRECT_HOPS :: nat where
  "MAX_REDIRECT_HOPS = 10"

definition REDIRECT_STATUSES :: "nat list" where
  "REDIRECT_STATUSES = [301, 302, 303, 307, 308]"

text \<open>
  A request as a transport receives it: through the pinned client (\<open>Pinned\<close>, with what the socket
  is told) or through a client of the caller's own, which resolves for itself (\<open>Injected\<close>).
\<close>

datatype wire = Pinned dial | Injected

record request =
  rq_url :: url
  rq_method :: string
  rq_headers :: header_list
  rq_body :: "string option"
  rq_wire :: wire

datatype event = Audited egress_exception | Sent request | Drained nat

record egress_env =
  ev_policy :: egress_policy
  ev_maxRedirects :: "nat option"
  ev_injected :: "(nat \<Rightarrow> request \<Rightarrow> transport_error + response) option"
  ev_lookup :: "nat \<Rightarrow> egress_lookup"
  ev_parse :: "string \<Rightarrow> url option"
  ev_resolve :: "string \<Rightarrow> url \<Rightarrow> url option"
  ev_socket :: "nat \<Rightarrow> dial \<Rightarrow> transport_error + message"
  ev_valid :: "string \<Rightarrow> string \<Rightarrow> bool"
  ev_decode :: "string \<Rightarrow> chunk list \<Rightarrow> chunk list"

record fetch_result =
  fr_response :: response
  fr_finalUrl :: string
  fr_redirects :: nat
  fr_decisions :: "egress_decision list"

definition maxRedirects :: "egress_env \<Rightarrow> nat" where
  "maxRedirects env = (case ev_maxRedirects env of Some n \<Rightarrow> n | None \<Rightarrow> MAX_REDIRECT_HOPS)"

text \<open>
  \<open>transport(url, init)\<close> at a hop: the injected client or \<open>pinnedFetch(decision.pin)\<close>, which refuses
  when there is no pin. The request sent, if one was, and what came back.
\<close>

definition send ::
  "egress_env \<Rightarrow> nat \<Rightarrow> egress_decision \<Rightarrow> url \<Rightarrow> string \<Rightarrow> header_list \<Rightarrow> string option \<Rightarrow>
   event list \<times> (egress_error + response)" where
  "send env hop decision url requestMethod headers body =
     (let req = (\<lambda>w. \<lparr>rq_url = url, rq_method = requestMethod, rq_headers = headers, rq_body = body, rq_wire = w\<rparr>) in
      case ev_injected env of
        Some fetchImpl \<Rightarrow>
          ([Sent (req Injected)],
           (case fetchImpl hop (req Injected) of Inl e \<Rightarrow> Inl (thrown e) | Inr r \<Rightarrow> Inr r))
      | None \<Rightarrow>
          (case ed_pin decision of
             None \<Rightarrow> ([], Inl (EgressBlocked ''Target did not resolve to any address''))
           | Some pin \<Rightarrow>
               (let d = pinned_dial url requestMethod headers body pin in
                ([Sent (req (Pinned d))],
                 (case ev_socket env hop d of
                    Inl e \<Rightarrow> Inl (thrown e)
                  | Inr m \<Rightarrow> webResponse (ev_valid env) (ev_decode env) m url (map upper requestMethod))))))"

definition fetch_done :: "response \<Rightarrow> url \<Rightarrow> nat \<Rightarrow> egress_decision list \<Rightarrow> fetch_result" where
  "fetch_done response url hop decisions =
     \<lparr>fr_response = response,
      fr_finalUrl = (if rs_url response \<noteq> [] then rs_url response else u_href url),
      fr_redirects = hop, fr_decisions = decisions\<rparr>"

text \<open>What the next hop sends, from the status and the origins.\<close>

definition downgrades :: "nat \<Rightarrow> string \<Rightarrow> bool" where
  "downgrades status requestMethod \<longleftrightarrow>
     status = 303 \<or> (status = 301 \<or> status = 302) \<and> requestMethod \<noteq> ''GET'' \<and> requestMethod \<noteq> ''HEAD''"

definition next_headers :: "url \<Rightarrow> url \<Rightarrow> nat \<Rightarrow> string \<Rightarrow> header_list \<Rightarrow> header_list" where
  "next_headers url nxt status requestMethod headers =
     (let mutable = new_headers headers;
          mutable = (if u_origin nxt \<noteq> u_origin url
                     then fold header_delete ORIGIN_BOUND_HEADERS mutable else mutable)
      in if downgrades status requestMethod
         then header_delete ''content-length'' (header_delete ''content-type'' mutable) else mutable)"

function fetch_loop ::
  "egress_env \<Rightarrow> nat \<Rightarrow> url \<Rightarrow> string \<Rightarrow> string option \<Rightarrow> header_list \<Rightarrow> egress_decision list \<Rightarrow>
   event list \<times> (egress_error + fetch_result)" where
  "fetch_loop env hop url requestMethod body headers decisions =
     (case authorizeEgress (ev_policy env) (ev_lookup env hop) url hop of
        (Inl e, audits) \<Rightarrow> (map Audited audits, Inl e)
      | (Inr decision, audits) \<Rightarrow>
          (case send env hop decision url requestMethod headers body of
             (sent, Inl e) \<Rightarrow> (map Audited audits @ sent, Inl e)
           | (sent, Inr response) \<Rightarrow>
               (let seen = map Audited audits @ sent;
                    decisions = decisions @ [decision];
                    stop = (seen, Inr (fetch_done response url hop decisions))
                in case map_of (rs_headers response) ''location'' of
                     None \<Rightarrow> stop
                   | Some location \<Rightarrow>
                       (if hop \<ge> maxRedirects env \<or> rs_status response \<notin> set REDIRECT_STATUSES then stop
                        else (case ev_resolve env location url of
                            None \<Rightarrow> stop
                          | Some nxt \<Rightarrow>
                              (let drained = drainBodyCapped (rs_body response) MAX_DRAIN_BYTES;
                                   headers = next_headers url nxt (rs_status response) requestMethod headers;
                                   (rest, result) =
                                     (if downgrades (rs_status response) requestMethod
                                      then fetch_loop env (hop + 1) nxt ''GET'' None headers decisions
                                      else fetch_loop env (hop + 1) nxt requestMethod body headers decisions)
                               in (seen @ Drained drained # rest, result)))))))"
  by pat_completeness auto

termination
  by (relation "measure (\<lambda>(env, hop, _). maxRedirects env - hop)") auto

definition egressFetch ::
  "egress_env \<Rightarrow> string \<Rightarrow> request_init \<Rightarrow> event list \<times> (egress_error + fetch_result)" where
  "egressFetch env target init =
     (case ev_parse env target of
        None \<Rightarrow> ([], Inl InvalidUrl)
      | Some url \<Rightarrow>
          fetch_loop env 0 url (map upper (case ri_method init of Some m \<Rightarrow> m | None \<Rightarrow> ''GET''))
            (ri_body init) (ri_headers init) [])"

section \<open>The guard of the other probes\<close>

text \<open>
  \<open>refusesPrivate\<close>: the loop over the answers is that of \<open>authorizeEgress\<close> with private space denied, where
  every class but public is refused.
\<close>

definition refusesPrivate :: "string \<Rightarrow> bool option \<Rightarrow> egress_lookup \<Rightarrow> string option" where
  "refusesPrivate host allow lookup =
     (let hostname = normalizeHost host in
      if isForbiddenEgressHost hostname
      then Some (egressBlockReason (case classifyAddress hostname of Some c \<Rightarrow> c | None \<Rightarrow> MetadataAddr))
      else if allow = Some True then None
      else (case lookup hostname of
          Inl e \<Rightarrow> Some ''DNS resolution failed''
        | Inr addresses \<Rightarrow> refused_address False addresses))"

definition monitorEgress :: "egress_settings \<Rightarrow> bool \<Rightarrow> egress_env \<Rightarrow> egress_env" where
  "monitorEgress settings allowPrivateTargets env =
     env\<lparr>ev_policy := egressPolicyFor settings MonitorChannel (Some allowPrivateTargets), ev_maxRedirects := None\<rparr>"

end
