(* ===== verification/Http_Probes.thy ===== *)
theory Http_Probes
  imports Egress
begin

text \<open>
  The probes that speak HTTP or open a plain connection: \<open>types/probes/http.ts\<close>,
  \<open>types/probes/json-query.ts\<close>, \<open>types/probes/tcp.ts\<close>, and the check type
  \<open>types/specs/json-query.ts\<close>. They are the clients of the egress policy. The time a request took,
  the text decoder, \<open>JSON.parse\<close>, the certificate read and the TCP connection are arguments; what
  a probe sends, and to which address it opens a second socket, is in its events.
\<close>

section \<open>Contexts and bodies\<close>

record 'c probe_context =
  px_target :: string
  px_port :: "nat option"
  px_timeoutMs :: nat
  px_config :: 'c
  px_allowPrivateTargets :: bool

datatype probe_event =
    Net event
  | CertificateRead string nat "resolved_address option"
  | Connect string nat

text \<open>\<open>readCappedText\<close>: the text of the bytes read before the cap, or the error when the body breaks off.\<close>

fun read_loop :: "nat \<Rightarrow> string \<Rightarrow> chunk list \<Rightarrow> transport_error + string" where
  "read_loop maxBytes acc [] = Inr acc"
| "read_loop maxBytes acc (c # rest) =
     (if length acc < maxBytes
      then (case c of Bytes v \<Rightarrow> read_loop maxBytes (acc @ v) rest | BodyError e \<Rightarrow> Inl e)
      else Inr acc)"

definition readCappedText :: "(string \<Rightarrow> string) \<Rightarrow> chunk list option \<Rightarrow> nat \<Rightarrow> transport_error + string" where
  "readCappedText decoder body maxBytes =
     (case body of
        None \<Rightarrow> Inr ''''
      | Some chunks \<Rightarrow> map_sum id decoder (read_loop maxBytes [] chunks))"

definition blank :: "string \<Rightarrow> probe_result" where
  "blank error =
     \<lparr>pr_facts = Map.empty, pr_responseTimeMs = None, pr_error = Some error, pr_unavailable = None,
      pr_statusCode = None, pr_evidence = None\<rparr>"

definition failed_after :: "int \<Rightarrow> string \<Rightarrow> probe_result" where
  "failed_after responseTimeMs error =
     \<lparr>pr_facts = [''responseTimeMs'' \<mapsto> FOne (FNum responseTimeMs)], pr_responseTimeMs = Some responseTimeMs,
      pr_error = Some error, pr_unavailable = None, pr_statusCode = None, pr_evidence = None\<rparr>"

definition answered :: "int \<Rightarrow> nat \<Rightarrow> fact_bag \<Rightarrow> probe_result" where
  "answered responseTimeMs status facts =
     \<lparr>pr_facts = facts, pr_responseTimeMs = Some responseTimeMs, pr_error = None, pr_unavailable = None,
      pr_statusCode = Some (int status), pr_evidence = None\<rparr>"

definition time_limit_message :: "nat \<Rightarrow> string" where
  "time_limit_message timeoutMs = ''Timed out after '' @ show_nat timeoutMs @ ''ms''"

text \<open>The message of a caught error: its cause if it has one, else its own.\<close>

fun error_message :: "egress_error \<Rightarrow> string" where
  "error_message (EgressBlocked m) = m"
| "error_message (LookupFailed m) = m"
| "error_message (FetchFailed cause) = cause"
| "error_message TimedOut = ''The operation was aborted due to timeout''"
| "error_message InvalidUrl = ''Invalid URL''"
| "error_message (Uncaught m) = m"

section \<open>HTTP\<close>

definition MAX_KEYWORD_BODY_BYTES :: nat where
  "MAX_KEYWORD_BODY_BYTES = 1000000"

definition USER_AGENT :: string where
  "USER_AGENT = ''vigil-monitor/1.0 (+https://github.com)''"

fun method_text :: "http_method \<Rightarrow> string" where
  "method_text GET = ''GET''"
| "method_text HEAD = ''HEAD''"

record request_attempt =
  at_result :: probe_result
  at_pin :: "resolved_address option"

definition http_facts :: "(string \<Rightarrow> string) \<Rightarrow> http_config \<Rightarrow> int \<Rightarrow> response \<Rightarrow> fact_bag" where
  "http_facts decoder config responseTimeMs response =
     (let facts = [''statusCode'' \<mapsto> FOne (FNum (int (rs_status response))), ''responseTimeMs'' \<mapsto> FOne (FNum responseTimeMs)]
      in case (hc_bodyKeyword config, hc_method config) of
           (Some keyword, GET) \<Rightarrow>
             (let body = (case readCappedText decoder (rs_body response) MAX_KEYWORD_BODY_BYTES of Inr t \<Rightarrow> t | Inl _ \<Rightarrow> '''')
              in facts(''keywordPresent'' \<mapsto> FOne (FBool (str_includes body keyword))))
         | _ \<Rightarrow> facts)"

definition http_request ::
  "egress_settings \<Rightarrow> egress_env \<Rightarrow> (string \<Rightarrow> string) \<Rightarrow> int \<Rightarrow> http_config probe_context \<Rightarrow>
   event list \<times> (egress_error + request_attempt)" where
  "http_request settings env decoder elapsed ctx =
     (let config = px_config ctx;
          (events, outcome) = egressFetch (monitorEgress settings (px_allowPrivateTargets ctx) env) (px_target ctx)
             \<lparr>ri_method = Some (method_text (hc_method config)), ri_headers = [(''user-agent'', USER_AGENT)], ri_body = None\<rparr>
      in (events,
          case outcome of
            Inr r \<Rightarrow>
              Inr \<lparr>at_result = answered elapsed (rs_status (fr_response r)) (http_facts decoder config elapsed (fr_response r)),
                   at_pin = (case fr_decisions r of [] \<Rightarrow> None | d # _ \<Rightarrow> ed_pin d)\<rparr>
          | Inl (EgressBlocked m) \<Rightarrow> Inl (EgressBlocked m)
          | Inl (Uncaught m) \<Rightarrow> Inl (Uncaught m)
          | Inl TimedOut \<Rightarrow> Inr \<lparr>at_result = failed_after elapsed (time_limit_message (px_timeoutMs ctx)), at_pin = None\<rparr>
          | Inl e \<Rightarrow> Inr \<lparr>at_result = failed_after elapsed (error_message e), at_pin = None\<rparr>))"

text \<open>
  \<open>checkTlsExpiryDays\<close> connects to the pin when it has one and resolves the host itself when it has
  none; the days it reads are an argument.
\<close>

definition certificate_port :: "url \<Rightarrow> nat" where
  "certificate_port url = (if u_port url \<noteq> [] then numeral_value 10 (u_port url) else 443)"

definition httpProbe ::
  "egress_settings \<Rightarrow> egress_env \<Rightarrow> (string \<Rightarrow> string) \<Rightarrow>
   (string \<Rightarrow> nat \<Rightarrow> resolved_address option \<Rightarrow> int option) \<Rightarrow> int \<Rightarrow> http_config probe_context \<Rightarrow>
   probe_event list \<times> (egress_error + probe_result)" where
  "httpProbe settings env decoder certificateDays elapsed ctx =
     (case ev_parse env (px_target ctx) of
        None \<Rightarrow> ([], Inr (blank ''Invalid URL''))
      | Some url \<Rightarrow>
          (case http_request settings env decoder elapsed ctx of
             (events, Inl (EgressBlocked m)) \<Rightarrow> (map Net events, Inr (blank m))
           | (events, Inl e) \<Rightarrow> (map Net events, Inl e)
           | (events, Inr attempt) \<Rightarrow>
               (if hc_tlsCheck (px_config ctx)
                then (let host = normalizeHost (u_hostname url); port = certificate_port url;
                          days = (case certificateDays host port (at_pin attempt) of
                                    Some n \<Rightarrow> FOne (FNum n) | None \<Rightarrow> FOne FNull);
                          result = at_result attempt
                      in (map Net events @ [CertificateRead host port (at_pin attempt)],
                          Inr (result\<lparr>pr_facts := (pr_facts result)(''tlsDaysRemaining'' \<mapsto> days)\<rparr>)))
                else (map Net events, Inr (at_result attempt)))))"

section \<open>TCP\<close>

text \<open>\<open>connectionErrorMessage\<close>: an aggregate of errors reports its first reason, however deep.\<close>

datatype connect_error = PlainError string | AggregateError string "connect_error list" | NotAnError

fun connectionErrorMessage :: "connect_error \<Rightarrow> string \<Rightarrow> string"
  and first_message :: "connect_error list \<Rightarrow> string" where
  "connectionErrorMessage (AggregateError m errors) fallback =
     (let inner = first_message errors in if inner \<noteq> [] then inner else if m \<noteq> [] then m else fallback)"
| "connectionErrorMessage (PlainError m) fallback = (if m \<noteq> [] then m else fallback)"
| "connectionErrorMessage NotAnError fallback = fallback"
| "first_message [] = ''''"
| "first_message (e # errors) =
     (let message = connectionErrorMessage e '''' in if message \<noteq> [] then message else first_message errors)"

definition tcpProbe ::
  "egress_lookup \<Rightarrow> (string \<Rightarrow> nat \<Rightarrow> connect_error + bool) \<Rightarrow> int \<Rightarrow> tcp_config probe_context \<Rightarrow>
   probe_event list \<times> probe_result" where
  "tcpProbe lookup connect elapsed ctx =
     (case refusesPrivate (px_target ctx) (Some (px_allowPrivateTargets ctx)) lookup of
        Some guard \<Rightarrow> ([], blank guard)
      | None \<Rightarrow>
          (let port = (case px_port ctx of Some p \<Rightarrow> p | None \<Rightarrow> 0) in
           ([Connect (px_target ctx) port],
            case connect (px_target ctx) port of
              Inr True \<Rightarrow>
                \<lparr>pr_facts = [''responseTimeMs'' \<mapsto> FOne (FNum elapsed)], pr_responseTimeMs = Some elapsed, pr_error = None,
                 pr_unavailable = None, pr_statusCode = None, pr_evidence = None\<rparr>
            | Inr False \<Rightarrow> failed_after elapsed (time_limit_message (px_timeoutMs ctx))
            | Inl e \<Rightarrow> failed_after elapsed (connectionErrorMessage e ''Connection failed''))))"

section \<open>JSON query\<close>

record json_query_config =
  jq_jsonPath :: string
  jq_expectedValue :: string
  jq_degradedThresholdMs :: int

definition DEFAULT_JSON_PATH :: string where
  "DEFAULT_JSON_PATH = ''status''"

definition DEFAULT_EXPECTED_VALUE :: string where
  "DEFAULT_EXPECTED_VALUE = ''ok''"

definition MAX_JSON_BODY_BYTES :: nat where
  "MAX_JSON_BODY_BYTES = 1000000"

definition MAX_VALUE_CHARS :: nat where
  "MAX_VALUE_CHARS = 200"

datatype path_token = Key string | Index nat

text \<open>The part of a segment the expression \<open>(?:\[\d+\])*\<close> must match to the end.\<close>

function parse_indices :: "string \<Rightarrow> path_token list option" where
  "parse_indices s =
     (case s of
        [] \<Rightarrow> Some []
      | c # rest \<Rightarrow>
          (let digits = takeWhile is_digit rest; after = dropWhile is_digit rest in
           if c = CHR ''['' \<and> digits \<noteq> [] \<and> take 1 after = '']''
           then map_option ((#) (Index (numeral_value 10 digits))) (parse_indices (drop 1 after))
           else None))"
  by pat_completeness auto

termination
  by (relation "measure length") (auto simp: less_Suc_eq_le le_diff_conv intro: le_trans [OF length_dropWhile_le])

definition parse_segment :: "string \<Rightarrow> path_token list option" where
  "parse_segment segment =
     (let key = takeWhile (\<lambda>c. c \<noteq> CHR ''['' \<and> c \<noteq> CHR '']'') segment;
          indices = dropWhile (\<lambda>c. c \<noteq> CHR ''['' \<and> c \<noteq> CHR '']'') segment
      in case parse_indices indices of
           None \<Rightarrow> None
         | Some is \<Rightarrow>
             if key = [] \<and> indices = [] then None
             else Some ((if key \<noteq> [] then [Key key] else []) @ is))"

definition parsePath :: "string \<Rightarrow> path_token list option" where
  "parsePath path =
     (case those (map parse_segment (split_on CHR ''.'' path)) of
        None \<Rightarrow> None
      | Some ts \<Rightarrow> if concat ts \<noteq> [] then Some (concat ts) else None)"

fun walk :: "path_token list \<Rightarrow> json \<Rightarrow> json option" where
  "walk [] current = Some current"
| "walk (Index n # ts) (JArr vs) = (if n < length vs then walk ts (vs ! n) else None)"
| "walk (Key k # ts) (JObj es) = (case map_of (present es) k of Some v \<Rightarrow> walk ts v | None \<Rightarrow> None)"
| "walk (t # ts) _ = None"

definition resolvePath :: "json \<Rightarrow> string \<Rightarrow> json option" where
  "resolvePath document path = (case parsePath path of None \<Rightarrow> None | Some tokens \<Rightarrow> walk tokens document)"

text \<open>\<open>JSON.stringify\<close>: the entries of an object in their own order.\<close>

function stringify :: "json \<Rightarrow> string" where
  "stringify JNull = ''null''"
| "stringify (JBool b) = (if b then ''true'' else ''false'')"
| "stringify (JNum n) = show_int n"
| "stringify (JStr s) = quote s"
| "stringify (JArr vs) = CHR ''['' # join '','' (map stringify vs) @ [CHR '']'']"
| "stringify (JObj es) =
     CHR 0x7B # join '','' (map (\<lambda>(k, v). quote k @ '':'' @ stringify v) (present es)) @ [CHR 0x7D]"
  by pat_completeness auto
termination
  by (relation "measure size")
    (auto simp: less_Suc_eq_le size_list_estimation' dest: size_present)

fun stringifyValue :: "json \<Rightarrow> string" where
  "stringifyValue (JStr s) = s"
| "stringifyValue v = stringify v"

text \<open>The ellipsis is one character of a JavaScript string; a character of one byte stands for it.\<close>

definition ELLIPSIS :: string where
  "ELLIPSIS = [CHR 0x85]"

definition truncate_value :: "string \<Rightarrow> string" where
  "truncate_value value =
     (if length value \<le> MAX_VALUE_CHARS then value else take MAX_VALUE_CHARS value @ ELLIPSIS)"

definition json_facts :: "(string \<Rightarrow> json option) \<Rightarrow> json_query_config \<Rightarrow> int \<Rightarrow> nat \<Rightarrow> string \<Rightarrow> fact_bag" where
  "json_facts parse config responseTimeMs status body =
     (let measured = [''statusCode'' \<mapsto> FOne (FNum (int status)), ''responseTimeMs'' \<mapsto> FOne (FNum responseTimeMs)] in
      case parse body of
        None \<Rightarrow> measured(''jsonValid'' \<mapsto> FOne (FBool False))
      | Some parsed \<Rightarrow>
          (case resolvePath parsed (jq_jsonPath config) of
             None \<Rightarrow>
               measured(''jsonValid'' \<mapsto> FOne (FBool True), ''pathFound'' \<mapsto> FOne (FBool False),
                 ''actualValue'' \<mapsto> FOne FNull, ''matches'' \<mapsto> FOne (FBool False))
           | Some v \<Rightarrow>
               (let actualValue = truncate_value (stringifyValue v) in
                measured(''jsonValid'' \<mapsto> FOne (FBool True), ''pathFound'' \<mapsto> FOne (FBool True),
                  ''actualValue'' \<mapsto> FOne (FStr actualValue),
                  ''matches'' \<mapsto> FOne (FBool (actualValue = jq_expectedValue config))))))"

section \<open>Judging a JSON query\<close>

definition validJson :: "json_query_config assertion" where
  "validJson =
     \<lparr>as_id = ''json-valid'', as_fact = ''jsonValid'', as_severity = SevDown, as_applies = None,
      as_evaluate = (\<lambda>value config.
        if value \<noteq> Some (FOne (FBool False)) then None else Some ''The response body is not valid JSON'')\<rparr>"

definition pathFound :: "json_query_config assertion" where
  "pathFound =
     \<lparr>as_id = ''path-found'', as_fact = ''pathFound'', as_severity = SevDown, as_applies = None,
      as_evaluate = (\<lambda>value config.
        if value \<noteq> Some (FOne (FBool False)) then None
        else Some (''The response has no value at '' @ [CHR 0x22] @ jq_jsonPath config @ [CHR 0x22]))\<rparr>"

definition matchesExpected :: "json_query_config assertion" where
  "matchesExpected =
     \<lparr>as_id = ''value-matches'', as_fact = ''actualValue'', as_severity = SevDown, as_applies = None,
      as_evaluate = (\<lambda>value config.
        case value of
          Some (FOne (FStr v)) \<Rightarrow>
            if v = jq_expectedValue config then None
            else Some (''Expected '' @ [CHR 0x22] @ jq_expectedValue config @ [CHR 0x22] @ '' at '' @ [CHR 0x22] @
              jq_jsonPath config @ [CHR 0x22] @ '', got '' @ [CHR 0x22] @ v @ [CHR 0x22])
        | _ \<Rightarrow> None)\<rparr>"

definition json_query_assertions :: "json_query_config assertion list" where
  "json_query_assertions =
     [validJson, pathFound, matchesExpected, latencyAssertion jq_degradedThresholdMs ''Responded'']"

text \<open>\<open>fromRow\<close>, with the answer of the stored schema on the row's config as an argument.\<close>

definition json_query_fromRow :: "(string \<times> string) option \<Rightarrow> monitor_row_view \<Rightarrow> json_query_config" where
  "json_query_fromRow stored row =
     \<lparr>jq_jsonPath = (case stored of Some (path, _) \<Rightarrow> path | None \<Rightarrow> DEFAULT_JSON_PATH),
      jq_expectedValue = (case stored of Some (_, expected) \<Rightarrow> expected | None \<Rightarrow> DEFAULT_EXPECTED_VALUE),
      jq_degradedThresholdMs = rv_degradedThresholdMs row\<rparr>"

section \<open>The JSON query probe\<close>

definition jsonQueryProbe ::
  "egress_settings \<Rightarrow> egress_env \<Rightarrow> (string \<Rightarrow> string) \<Rightarrow> (string \<Rightarrow> json option) \<Rightarrow> int \<Rightarrow>
   json_query_config probe_context \<Rightarrow> event list \<times> (egress_error + probe_result)" where
  "jsonQueryProbe settings env decoder parse elapsed ctx =
     (if ev_parse env (px_target ctx) = None then ([], Inr (blank ''Invalid URL''))
      else (let (events, outcome) =
                  egressFetch (monitorEgress settings (px_allowPrivateTargets ctx) env) (px_target ctx)
                    \<lparr>ri_method = Some ''GET'', ri_headers = [(''accept'', ''application/json''), (''user-agent'', USER_AGENT)],
                     ri_body = None\<rparr>
            in (events,
                case outcome of
                  Inr r \<Rightarrow>
                    (case readCappedText decoder (rs_body (fr_response r)) MAX_JSON_BODY_BYTES of
                       Inl TimeLimit \<Rightarrow> Inr (failed_after elapsed (time_limit_message (px_timeoutMs ctx)))
                     | Inl (ConnectionError m) \<Rightarrow> Inr (failed_after elapsed m)
                     | Inr body \<Rightarrow>
                         Inr (answered elapsed (rs_status (fr_response r))
                           (json_facts parse (px_config ctx) elapsed (rs_status (fr_response r)) body)))
                | Inl (EgressBlocked m) \<Rightarrow> Inr (blank m)
                | Inl (Uncaught m) \<Rightarrow> Inl (Uncaught m)
                | Inl TimedOut \<Rightarrow> Inr (failed_after elapsed (time_limit_message (px_timeoutMs ctx)))
                | Inl e \<Rightarrow> Inr (failed_after elapsed (error_message e)))))"

end
