(* ===== verification/Net_Address_Laws.thy ===== *)
theory Net_Address_Laws
  imports Net_Address
begin

unbundle bit_operations_syntax

text \<open>
  What the address module promises its callers. The parsers accept exactly the canonical
  dotted quads and produce eight hextets of 16 bits; the cascade of \<open>classifyIPv4\<close> is a
  longest-prefix match in the registry of special-purpose addresses, the masks of
  \<open>classifyIPv6\<close> are ranges, and every spelling that carries an IPv4 address has its class.
\<close>

section \<open>Printing and parsing\<close>

text \<open>The usual spelling of a hextet: lower-case hexadecimal without leading zeros.\<close>

fun show_hex :: "nat \<Rightarrow> string" where
  "show_hex n = (if n < 16 then [hex_digit n] else show_hex (n div 16) @ [hex_digit (n mod 16)])"

declare show_hex.simps [simp del]

definition dotted :: "nat list \<Rightarrow> string" where
  "dotted octets = join ''.'' (map show_nat octets)"

definition groups :: "nat list \<Rightarrow> string" where
  "groups hextets = join '':'' (map show_hex hextets)"

lemma digit_value_digit: "d < 10 \<Longrightarrow> digit_value (digit_char d) = d"
proof -
  have "list_all (\<lambda>d. digit_value (digit_char d) = d) [0..<10]"
    by (simp add: upt_rec digit_value_def is_digit_def digit_char_def)
  then show "d < 10 \<Longrightarrow> digit_value (digit_char d) = d" by (simp add: list_all_iff)
qed

lemma hex_digit_facts:
  assumes "d < 16"
  shows "digit_value (hex_digit d) = d" and "is_hex (hex_digit d)"
    and "CHR '':'' \<noteq> hex_digit d" and "CHR ''.'' \<noteq> hex_digit d"
proof -
  have "list_all (\<lambda>d. digit_value (hex_digit d) = d \<and> is_hex (hex_digit d) \<and>
      CHR '':'' \<noteq> hex_digit d \<and> CHR ''.'' \<noteq> hex_digit d) [0..<16]"
    by (simp add: upt_rec digit_value_def is_digit_def hex_digit_def is_hex_def)
  then show "digit_value (hex_digit d) = d" "is_hex (hex_digit d)"
    "CHR '':'' \<noteq> hex_digit d" "CHR ''.'' \<noteq> hex_digit d"
    using assms by (auto simp: list_all_iff)
qed

lemma numeral_value_snoc [simp]:
  "numeral_value b (xs @ [c]) = b * numeral_value b xs + digit_value c"
  by (simp add: numeral_value_def)

lemma numeral_value_single [simp]: "numeral_value b [c] = digit_value c"
  by (simp add: numeral_value_def)

lemma numeral_value_show_nat [simp]: "numeral_value 10 (show_nat n) = n"
proof (induction n rule: show_nat.induct)
  case (1 n)
  then show ?case by (simp add: show_nat.simps [of n] digit_value_digit)
qed

lemma numeral_value_show_hex [simp]: "numeral_value 16 (show_hex n) = n"
proof (induction n rule: show_hex.induct)
  case (1 n)
  then show ?case by (simp add: show_hex.simps [of n] hex_digit_facts)
qed

lemma length_show_nat: "n < 10 ^ Suc k \<Longrightarrow> length (show_nat n) \<le> Suc k"
  by (induction k arbitrary: n) (simp_all add: show_nat.simps [of n for n])

lemma length_show_hex: "n < 16 ^ Suc k \<Longrightarrow> length (show_hex n) \<le> Suc k"
  by (induction k arbitrary: n) (simp_all add: show_hex.simps [of n for n])

lemma show_nat_hd: "hd (show_nat n) = CHR ''0'' \<Longrightarrow> n = 0"
proof (induction n rule: show_nat.induct)
  case (1 n)
  have zero: "digit_char 0 = CHR ''0''" by (simp add: digit_char_def)
  show ?case
  proof (cases "n < 10")
    case True
    then show ?thesis using "1.prems" digit_char_inj [of n 0] zero by (simp add: show_nat.simps [of n])
  next
    case False
    then show ?thesis
      using "1.prems" "1.IH" [OF False] show_nat_digits [of "n div 10"] by (simp add: show_nat.simps [of n])
  qed
qed

lemma show_hex_token:
  "show_hex n \<noteq> [] \<and> list_all is_hex (show_hex n) \<and> CHR '':'' \<notin> set (show_hex n) \<and> CHR ''.'' \<notin> set (show_hex n)"
proof (induction n rule: show_hex.induct)
  case (1 n)
  then show ?case
    by (cases "n < 16") (auto simp: show_hex.simps [of n] hex_digit_facts)
qed

lemma digit_not_sep: "is_digit c \<Longrightarrow> c \<noteq> CHR ''.'' \<and> c \<noteq> CHR '':'' \<and> c \<noteq> CHR ''%'' \<and> c \<noteq> CHR ''[''"
  by (auto simp: is_digit_def)

lemma show_nat_no_sep: "CHR ''.'' \<notin> set (show_nat n)" "CHR '':'' \<notin> set (show_nat n)"
  using show_nat_digits [of n] digit_not_sep by (auto simp: list_all_iff)

lemma parse_octet_show [simp]: "n \<le> 255 \<Longrightarrow> parse_octet (show_nat n) = Some n"
  using show_nat_digits [of n] length_show_nat [of n 2] show_nat_hd [of n]
  by (auto simp: parse_octet_def Let_def Suc_le_eq show_nat.simps [of 0])

lemma split_on_Nil [simp]: "split_on c s \<noteq> []"
  by (induction s) (auto split: list.splits)

lemma split_on_plain: "c \<notin> set s \<Longrightarrow> split_on c s = [s]"
  by (induction s) auto

lemma split_on_sep: "c \<notin> set s \<Longrightarrow> split_on c (s @ c # t) = s # split_on c t"
  by (induction s) auto

lemma split_on_join:
  "ws \<noteq> [] \<Longrightarrow> (\<And>w. w \<in> set ws \<Longrightarrow> c \<notin> set w) \<Longrightarrow> split_on c (join [c] ws) = ws"
  by (induction "[c]" ws rule: join.induct) (auto simp: split_on_plain split_on_sep)

lemma those_map_Some: "(\<And>x. x \<in> set xs \<Longrightarrow> f (g x) = Some x) \<Longrightarrow> those (map f (map g xs)) = Some xs"
  by (induction xs) auto

lemma parseIPv4_dotted:
  assumes "length octets = 4" and "\<forall>n \<in> set octets. n \<le> 255"
  shows "parseIPv4 (dotted octets) = Some octets"
proof -
  have "split_on CHR ''.'' (dotted octets) = map show_nat octets"
    unfolding dotted_def using assms(1) by (intro split_on_join) (auto simp: show_nat_no_sep)
  then show ?thesis
    using assms by (simp add: parseIPv4_def those_map_Some del: map_map)
qed

section \<open>IPv6\<close>

lemma split_elision_Nil [simp]: "split_elision s \<noteq> []"
  by (induction s rule: split_elision.induct) (auto split: list.splits)

lemma split_elision_plain: "CHR '':'' \<notin> set s \<Longrightarrow> split_elision s = [s]"
  by (induction s rule: split_elision.induct) auto

lemma split_elision_append:
  assumes "CHR '':'' \<notin> set s" 
  shows "split_elision (s @ t) = (s @ hd (split_elision t)) # tl (split_elision t)"
  using assms
proof (induction s)
  case Nil
  then show ?case by simp
next
  case (Cons x s)
  then show ?case by (cases "s @ t") (auto split: list.splits)
qed

lemma split_elision_colon:
  "t \<noteq> [] \<Longrightarrow> hd t \<noteq> CHR '':'' \<Longrightarrow>
   split_elision (CHR '':'' # t) = (CHR '':'' # hd (split_elision t)) # tl (split_elision t)"
  by (cases t) (auto split: list.splits)

lemma hd_join: "ws \<noteq> [] \<Longrightarrow> hd ws \<noteq> [] \<Longrightarrow> join sep ws \<noteq> [] \<and> hd (join sep ws) = hd (hd ws)"
  by (induction sep ws rule: join.induct) auto

definition tokens_ok :: "string list \<Rightarrow> bool" where
  "tokens_ok ws \<longleftrightarrow> (\<forall>w \<in> set ws. w \<noteq> [] \<and> CHR '':'' \<notin> set w)"

lemma split_elision_join:
  assumes "tokens_ok ws"
  shows "split_elision (join '':'' ws) = [join '':'' ws]"
    and "split_elision (join '':'' ws @ CHR '':'' # CHR '':'' # t) = join '':'' ws # split_elision t"
  using assms
proof (induction "'':''" ws rule: join.induct)
  case (2 x)
  {
    case 1
    then show ?case by (simp add: tokens_ok_def split_elision_plain)
  next
    case 2
    then show ?case by (simp add: tokens_ok_def split_elision_append)
  }
next
  case (3 x y xs)
  have y: "join '':'' (y # xs) \<noteq> [] \<and> hd (join '':'' (y # xs)) \<noteq> CHR '':''"
    if "tokens_ok (x # y # xs)"
    using that hd_join [of "y # xs" "'':''"] by (cases y) (auto simp: tokens_ok_def)
  have rest: "tokens_ok (y # xs)" "CHR '':'' \<notin> set x" if "tokens_ok (x # y # xs)"
    using that by (auto simp: tokens_ok_def)
  {
    case 1
    then show ?case
      using y rest 3(1) by (simp add: split_elision_append split_elision_colon)
  next
    case 2
    then show ?case
      using y rest 3(2) by (simp add: split_elision_append split_elision_colon)
  }
qed simp_all


definition hextets_ok :: "nat list \<Rightarrow> bool" where
  "hextets_ok hs \<longleftrightarrow> (\<forall>h \<in> set hs. h < 65536)"

lemma hextets_ok_simps [simp]:
  "hextets_ok []" "hextets_ok (h # hs) \<longleftrightarrow> h < 65536 \<and> hextets_ok hs"
  "hextets_ok (hs @ ks) \<longleftrightarrow> hextets_ok hs \<and> hextets_ok ks"
  by (auto simp: hextets_ok_def)

text \<open>The two hextets of a dotted quad.\<close>

definition pack :: "nat \<Rightarrow> nat \<Rightarrow> nat" where
  "pack a b = push_bit 8 a OR b"

lemma pack_sum: "b \<le> 255 \<Longrightarrow> pack a b = 256 * a + b"
proof -
  assume "b \<le> 255"
  then have "take_bit 8 b = b" by (simp add: take_bit_nat_eq_self)
  then have "push_bit 8 a OR b = push_bit 8 a + b"
    by (metis bit_push_bit_iff bit_take_bit_iff disjunctive_add leD)
  then show ?thesis by (simp add: pack_def push_bit_eq_mult)
qed

lemma split_hextet_arith: "split_hextet h = [h div 256, h mod 256]"
proof -
  have "h AND 0xff = h mod 2 ^ 8" 
    using take_bit_eq_mask [of 8 h] by (simp add: mask_eq_exp_minus_1 take_bit_eq_mod)
  then show ?thesis by (simp add: split_hextet_def drop_bit_eq_div)
qed

lemma split_hextet_pack [simp]: "b \<le> 255 \<Longrightarrow> split_hextet (pack a b) = [a, b]"
  by (simp add: pack_sum split_hextet_arith)

lemma pack_bound: "a \<le> 255 \<Longrightarrow> b \<le> 255 \<Longrightarrow> pack a b < 65536"
  by (simp add: pack_sum)

lemma expand_tokens_hex:
  "hextets_ok hs \<Longrightarrow> expand_tokens (map show_hex hs @ ts) = map_option ((@) hs) (expand_tokens ts)"
proof (induction hs)
  case Nil
  then show ?case by (cases "expand_tokens ts") auto
next
  case (Cons h hs)
  then show ?case
    using show_hex_token [of h] length_show_hex [of h 3]
    by (cases "expand_tokens ts") (auto simp: Suc_le_eq)
qed

lemma tokens_ok_hex [simp]: "tokens_ok (map show_hex hs)"
  using show_hex_token by (auto simp: tokens_ok_def)

lemma dotted_no_colon:
  "CHR '':'' \<notin> set (dotted octets)"
  unfolding dotted_def by (induction octets rule: induct_list012) (auto simp: show_nat_no_sep)

lemma dotted_has_dot: "2 \<le> length octets \<Longrightarrow> CHR ''.'' \<in> set (dotted octets)"
  unfolding dotted_def by (cases octets rule: remdups_adj.cases) auto

lemma split_on_tokens: "tokens_ok ws \<Longrightarrow> ws \<noteq> [] \<Longrightarrow> split_on CHR '':'' (join '':'' ws) = ws"
  by (rule split_on_join) (auto simp: tokens_ok_def)

lemma join_tokens_nonempty: "tokens_ok ws \<Longrightarrow> ws \<noteq> [] \<Longrightarrow> join '':'' ws \<noteq> []"
  using hd_join [of ws "'':''"] by (cases ws) (auto simp: tokens_ok_def)

lemma expandGroups_join:
  assumes "tokens_ok ws"
  shows "expandGroups (join '':'' ws) =
    (case expand_tokens ws of None \<Rightarrow> None | Some hs \<Rightarrow> if 8 < length hs then None else Some hs)"
  using assms split_on_tokens [of ws] join_tokens_nonempty [of ws]
  by (cases ws) (auto simp: expandGroups_def)

text \<open>
  A written IPv6 address: hextets before and after an elision, the second part possibly
  ending in a dotted quad.
\<close>

lemma parseIPv6_full:
  assumes "tokens_ok ws" and "expand_tokens ws = Some hs" and "length hs = 8"
  shows "parseIPv6 (join '':'' ws) = Some hs"
  using assms by (simp add: parseIPv6_def split_elision_join expandGroups_join)

lemma parseIPv6_elided:
  assumes "tokens_ok ws" and "tokens_ok vs"
    and "expand_tokens ws = Some hs" and "expand_tokens vs = Some ks" and "length hs + length ks \<le> 7"
  shows "parseIPv6 (join '':'' ws @ ''::'' @ join '':'' vs) = Some (hs @ replicate (8 - length hs - length ks) 0 @ ks)"
  using assms by (simp add: parseIPv6_def split_elision_join expandGroups_join)

section \<open>IPv4 ranges\<close>

text \<open>
  The reference: a longest-prefix match of the 32-bit address in the special-purpose
  registry, longest prefixes first.
\<close>

definition value4 :: "nat \<Rightarrow> nat \<Rightarrow> nat \<Rightarrow> nat \<Rightarrow> nat" where
  "value4 a b c d = ((a * 256 + b) * 256 + c) * 256 + d"

definition registry4 :: "(nat \<times> nat \<times> address_class) list" where
  "registry4 =
     [(value4 0 0 0 0, 32, UnspecifiedAddr),
      (value4 169 254 169 254, 32, MetadataAddr),
      (value4 169 254 170 2, 32, MetadataAddr),
      (value4 192 0 0 0, 24, ReservedAddr),
      (value4 192 0 2 0, 24, ReservedAddr),
      (value4 192 88 99 0, 24, ReservedAddr),
      (value4 198 51 100 0, 24, ReservedAddr),
      (value4 203 0 113 0, 24, ReservedAddr),
      (value4 169 254 0 0, 16, LinkLocalAddr),
      (value4 192 168 0 0, 16, PrivateAddr),
      (value4 198 18 0 0, 15, ReservedAddr),
      (value4 172 16 0 0, 12, PrivateAddr),
      (value4 100 64 0 0, 10, PrivateAddr),
      (value4 0 0 0 0, 8, ReservedAddr),
      (value4 10 0 0 0, 8, PrivateAddr),
      (value4 127 0 0 0, 8, LoopbackAddr),
      (value4 224 0 0 0, 3, ReservedAddr)]"

definition in_block :: "nat \<Rightarrow> nat \<Rightarrow> nat \<Rightarrow> bool" where
  "in_block base len x \<longleftrightarrow> x div 2 ^ (32 - len) = base div 2 ^ (32 - len)"

fun longest_match :: "(nat \<times> nat \<times> address_class) list \<Rightarrow> nat \<Rightarrow> address_class" where
  "longest_match [] x = PublicAddr"
| "longest_match ((base, len, cls) # rows) x = (if in_block base len x then cls else longest_match rows x)"

lemma value4_div:
  assumes "b \<le> 255" "c \<le> 255" "d \<le> 255"
  shows "value4 a b c d div 256 = 65536 * a + 256 * b + c"
    and "value4 a b c d div 65536 = 256 * a + b"
    and "value4 a b c d div 16777216 = a"
  using assms unfolding value4_def by (intro div_nat_eqI; simp)+

lemma value4_inj:
  assumes "b \<le> 255" "c \<le> 255" "d \<le> 255" "b' \<le> 255" "c' \<le> 255" "d' \<le> 255"
  shows "value4 a b c d = value4 a' b' c' d' \<longleftrightarrow> a = a' \<and> b = b' \<and> c = c' \<and> d = d'"
proof
  assume eq: "value4 a b c d = value4 a' b' c' d'"
  note d = value4_div [OF assms(1-3), of a] value4_div [OF assms(4-6), of a']
  have "a = a'" "256 * a + b = 256 * a' + b'" "65536 * a + 256 * b + c = 65536 * a' + 256 * b' + c'"
    using d unfolding eq by simp_all
  then show "a = a' \<and> b = b' \<and> c = c' \<and> d = d'" using eq by (simp add: value4_def)
qed simp

lemma pair_inj: "b \<le> 255 \<Longrightarrow> b' \<le> 255 \<Longrightarrow> 256 * a + b = 256 * a' + b' \<longleftrightarrow> a = a' \<and> b = (b' :: nat)"
  by (cases a a' rule: linorder_cases) auto

lemma div_eq_range: "0 < n \<Longrightarrow> (x :: nat) div n = k \<longleftrightarrow> n * k \<le> x \<and> x < n * Suc k"
  by (auto intro: div_nat_eqI simp: dividend_less_times_div)

lemma pair_range:
  assumes "b \<le> 255" "lo \<le> hi" "hi \<le> 255"
  shows "256 * k + lo \<le> 256 * a + b \<and> 256 * a + b \<le> 256 * k + hi \<longleftrightarrow> a = k \<and> lo \<le> b \<and> b \<le> (hi :: nat)"
  using assms by (cases a k rule: linorder_cases) auto

lemma value4_div_more:
  assumes "b \<le> 255" "c \<le> 255" "d \<le> 255"
  shows "value4 a b c d div 131072 = (256 * a + b) div 2"
    and "value4 a b c d div 1048576 = (256 * a + b) div 16"
    and "value4 a b c d div 4194304 = (256 * a + b) div 64"
    and "value4 a b c d div 536870912 = a div 32"
proof -
  note d = value4_div [OF assms, of a, symmetric]
  show "value4 a b c d div 131072 = (256 * a + b) div 2"
    "value4 a b c d div 1048576 = (256 * a + b) div 16"
    "value4 a b c d div 4194304 = (256 * a + b) div 64"
    unfolding d(2) by (simp_all flip: div_mult2_eq)
  show "value4 a b c d div 536870912 = a div 32"
    using arg_cong [OF d(3), of "\<lambda>x. x div 32"] by (simp flip: div_mult2_eq)
qed

lemma in_block_octets:
  assumes "a \<le> 255" "b \<le> 255" "c \<le> 255" "d \<le> 255"
  shows "a' \<le> 255 \<Longrightarrow> b' \<le> 255 \<Longrightarrow> c' \<le> 255 \<Longrightarrow> d' \<le> 255 \<Longrightarrow>
      in_block (value4 a' b' c' d') 32 (value4 a b c d) \<longleftrightarrow> a = a' \<and> b = b' \<and> c = c' \<and> d = d'"
    and "b' \<le> 255 \<Longrightarrow> c' \<le> 255 \<Longrightarrow>
      in_block (value4 a' b' c' 0) 24 (value4 a b c d) \<longleftrightarrow> a = a' \<and> b = b' \<and> c = c'"
    and "b' \<le> 255 \<Longrightarrow> in_block (value4 a' b' 0 0) 16 (value4 a b c d) \<longleftrightarrow> a = a' \<and> b = b'"
    and "in_block (value4 198 18 0 0) 15 (value4 a b c d) \<longleftrightarrow> a = 198 \<and> (b = 18 \<or> b = 19)"
    and "in_block (value4 172 16 0 0) 12 (value4 a b c d) \<longleftrightarrow> a = 172 \<and> 16 \<le> b \<and> b \<le> 31"
    and "in_block (value4 100 64 0 0) 10 (value4 a b c d) \<longleftrightarrow> a = 100 \<and> 64 \<le> b \<and> b \<le> 127"
    and "in_block (value4 a' 0 0 0) 8 (value4 a b c d) \<longleftrightarrow> a = a'"
    and "in_block (value4 224 0 0 0) 3 (value4 a b c d) \<longleftrightarrow> 224 \<le> a"
proof -
  note d = value4_div [OF assms(2-4)] value4_div_more [OF assms(2-4)] value4_div value4_div_more
  show "in_block (value4 a' b' c' d') 32 (value4 a b c d) \<longleftrightarrow> a = a' \<and> b = b' \<and> c = c' \<and> d = d'"
    if "a' \<le> 255" "b' \<le> 255" "c' \<le> 255" "d' \<le> 255"
    using assms that by (simp add: in_block_def value4_inj)
  show "in_block (value4 a' b' c' 0) 24 (value4 a b c d) \<longleftrightarrow> a = a' \<and> b = b' \<and> c = c'"
    if "b' \<le> 255" "c' \<le> 255"
    using assms that pair_inj [of c c' "256 * a + b" "256 * a' + b'"] pair_inj [of b b' a a']
    by (simp add: in_block_def d algebra_simps)
  show "in_block (value4 a' b' 0 0) 16 (value4 a b c d) \<longleftrightarrow> a = a' \<and> b = b'" if "b' \<le> 255"
    using assms that by (simp add: in_block_def d pair_inj)
  show "in_block (value4 198 18 0 0) 15 (value4 a b c d) \<longleftrightarrow> a = 198 \<and> (b = 18 \<or> b = 19)"
    using assms pair_range [of b 18 19 198 a] by (auto simp: in_block_def d div_eq_range)
  show "in_block (value4 172 16 0 0) 12 (value4 a b c d) \<longleftrightarrow> a = 172 \<and> 16 \<le> b \<and> b \<le> 31"
    using assms pair_range [of b 16 31 172 a] by (auto simp: in_block_def d div_eq_range)
  show "in_block (value4 100 64 0 0) 10 (value4 a b c d) \<longleftrightarrow> a = 100 \<and> 64 \<le> b \<and> b \<le> 127"
    using assms pair_range [of b 64 127 100 a] by (auto simp: in_block_def d div_eq_range)
  show "in_block (value4 a' 0 0 0) 8 (value4 a b c d) \<longleftrightarrow> a = a'"
    using assms by (simp add: in_block_def d)
  show "in_block (value4 224 0 0 0) 3 (value4 a b c d) \<longleftrightarrow> 224 \<le> a"
    using assms by (auto simp: in_block_def d div_eq_range)
qed

lemma dotted_inj:
  assumes "length xs = 4" "\<forall>n \<in> set xs. n \<le> 255" "length ys = 4" "\<forall>n \<in> set ys. n \<le> 255"
  shows "dotted xs = dotted ys \<longleftrightarrow> xs = ys"
  by (metis assms option.inject parseIPv4_dotted)

lemma METADATA_IPV4_dotted: "METADATA_IPV4 = [dotted [169, 254, 169, 254], dotted [169, 254, 170, 2]]"
  by (simp add: METADATA_IPV4_def METADATA_IP_def dotted_def show_nat.simps digit_char_def)

lemma metadata_octets:
  assumes "a \<le> 255" "b \<le> 255" "c \<le> 255" "d \<le> 255"
  shows "join ''.'' (map show_nat [a, b, c, d]) \<in> set METADATA_IPV4 \<longleftrightarrow>
    a = 169 \<and> b = 254 \<and> (c = 169 \<and> d = 254 \<or> c = 170 \<and> d = 2)"
proof -
  have "dotted [a, b, c, d] = dotted [169, 254, k, l] \<longleftrightarrow> [a, b, c, d] = [169, 254, k, l]"
    if "k \<le> 255" "l \<le> 255" for k l
    using assms that by (intro dotted_inj) auto
  then show ?thesis
    unfolding METADATA_IPV4_dotted dotted_def [symmetric] by auto
qed

lemma at_index_simps [simp]:
  "at_index (x # xs) 0 = x"
  "at_index (x # xs) (Suc n) = at_index xs n"
  "at_index (x # xs) (numeral k) = at_index xs (pred_numeral k)"
  "at_index [] n = 0"
  by (simp_all add: at_index_def numeral_eq_Suc)

lemma registry_match:
  assumes "a \<le> 255" "b \<le> 255" "c \<le> 255" "d \<le> 255"
  shows "classifyIPv4 [a, b, c, d] = longest_match registry4 (value4 a b c d)"
proof -
  note block = in_block_octets [OF assms]
  have zero: "in_block (value4 0 0 0 0) 8 (value4 a b c d) \<longleftrightarrow> a = 0" by (rule block(7))
  have "longest_match registry4 (value4 a b c d) =
     (if a = 0 \<and> b = 0 \<and> c = 0 \<and> d = 0 then UnspecifiedAddr
      else if a = 169 \<and> b = 254 \<and> c = 169 \<and> d = 254 then MetadataAddr
      else if a = 169 \<and> b = 254 \<and> c = 170 \<and> d = 2 then MetadataAddr
      else if a = 192 \<and> b = 0 \<and> c = 0 then ReservedAddr
      else if a = 192 \<and> b = 0 \<and> c = 2 then ReservedAddr
      else if a = 192 \<and> b = 88 \<and> c = 99 then ReservedAddr
      else if a = 198 \<and> b = 51 \<and> c = 100 then ReservedAddr
      else if a = 203 \<and> b = 0 \<and> c = 113 then ReservedAddr
      else if a = 169 \<and> b = 254 then LinkLocalAddr
      else if a = 192 \<and> b = 168 then PrivateAddr
      else if a = 198 \<and> (b = 18 \<or> b = 19) then ReservedAddr
      else if a = 172 \<and> 16 \<le> b \<and> b \<le> 31 then PrivateAddr
      else if a = 100 \<and> 64 \<le> b \<and> b \<le> 127 then PrivateAddr
      else if a = 0 then ReservedAddr
      else if a = 10 then PrivateAddr
      else if a = 127 then LoopbackAddr
      else if 224 \<le> a then ReservedAddr else PublicAddr)"
    unfolding registry4_def longest_match.simps
    by (simp only: block [simplified] block zero le_numeral_extra zero_le numeral_le_iff semiring_norm one_le_numeral)
  moreover have "classifyIPv4 [a, b, c, d] = \<dots>"
    unfolding classifyIPv4_def Let_def metadata_octets [OF assms] at_index_simps
    by (cases "a = 0 \<or> a = 169 \<or> a = 192 \<or> a = 198") auto
  ultimately show ?thesis by simp
qed

section \<open>Spellings\<close>

definition address_char :: "char \<Rightarrow> bool" where
  "address_char c \<longleftrightarrow> c \<in> set ''0123456789abcdef.:''"

lemma address_char_facts:
  assumes "address_char c"
  shows "lower c = c" "c \<noteq> CHR ''%''" "c \<noteq> CHR ''[''" "c \<noteq> CHR '']''" "c \<noteq> CHR ''m''"
  using assms by (auto simp: address_char_def lower_def)

lemma normalizeHost_plain:
  assumes "list_all address_char s"
  shows "normalizeHost s = s"
proof -
  have no: "CHR ''%'' \<notin> set s" "take 1 s \<noteq> ''[''" "map lower s = s"
    using assms address_char_facts by (auto simp: list_all_iff take_Suc map_idI split: list.splits)
      (cases s; auto dest: address_char_facts)+
  then show ?thesis by (simp add: normalizeHost_def split_on_plain Let_def)
qed

lemma address_char_hex: "is_hex c \<Longrightarrow> address_char c"
  by (auto simp: is_hex_def address_char_def)

lemma address_char_digit: "is_digit c \<Longrightarrow> address_char c"
  by (auto simp: is_digit_def address_char_def)

lemma address_chars: "list_all address_char (show_hex n)" "list_all address_char (show_nat n)"
  using show_hex_token [of n] show_nat_digits [of n] address_char_hex address_char_digit
  unfolding list_all_iff by blast+

lemma address_chars_join: "list_all (list_all address_char) ws \<Longrightarrow> list_all address_char sep \<Longrightarrow> list_all address_char (join sep ws)"
  by (induction sep ws rule: join.induct) auto

lemma dotted_chars: "list_all address_char (dotted octets)"
  unfolding dotted_def
  by (rule address_chars_join) (simp_all add: list_all_iff address_chars [unfolded list_all_iff], simp add: address_char_def)

text \<open>
  The spellings of an IPv4 address inside IPv6: mapped, translated, NAT64 and 6to4, with
  the last 32 bits as a dotted quad or as two groups.
\<close>

definition two_groups :: "nat \<Rightarrow> nat \<Rightarrow> nat \<Rightarrow> nat \<Rightarrow> string" where
  "two_groups a b c d = groups [pack a b, pack c d]"

definition spellings :: "nat \<Rightarrow> nat \<Rightarrow> nat \<Rightarrow> nat \<Rightarrow> string list" where
  "spellings a b c d =
     (let quad = dotted [a, b, c, d]; hex = two_groups a b c d in
      [quad, ''::ffff:'' @ quad, ''::ffff:'' @ hex, ''0:0:0:0:0:ffff:'' @ quad, ''0:0:0:0:0:ffff:'' @ hex,
       ''::ffff:0:'' @ quad, ''::ffff:0:'' @ hex, ''64:ff9b::'' @ quad, ''64:ff9b::'' @ hex,
       ''2002:'' @ hex @ ''::'', ''2002:'' @ hex @ ''::1''])"

lemma expand_tokens_quad:
  assumes "a \<le> 255" "b \<le> 255" "c \<le> 255" "d \<le> 255"
  shows "expand_tokens [dotted [a, b, c, d]] = Some [pack a b, pack c d]"
    and "tokens_ok [dotted [a, b, c, d]]"
proof -
  have "parseIPv4 (dotted [a, b, c, d]) = Some [a, b, c, d]"
    using assms by (intro parseIPv4_dotted) auto
  then show "expand_tokens [dotted [a, b, c, d]] = Some [pack a b, pack c d]"
    using dotted_has_dot [of "[a, b, c, d]"] by (simp add: pack_def)
  show "tokens_ok [dotted [a, b, c, d]]"
    using dotted_has_dot [of "[a, b, c, d]"] dotted_no_colon [of "[a, b, c, d]"]
    by (auto simp: tokens_ok_def)
qed

text \<open>Parsing an address written as groups, an elision and groups, either part possibly empty.\<close>

lemma parse_written:
  assumes "a \<le> 255" "b \<le> 255" "c \<le> 255" "d \<le> 255" and hs: "hextets_ok hs" and ks: "hextets_ok ks"
  shows "length hs + length ks \<le> 5 \<Longrightarrow>
      parseIPv6 (join '':'' (map show_hex hs) @ ''::'' @ join '':'' (map show_hex ks @ [dotted [a, b, c, d]])) =
      Some (hs @ replicate (6 - length hs - length ks) 0 @ ks @ [pack a b, pack c d])"
    and "length hs + length ks \<le> 7 \<Longrightarrow>
      parseIPv6 (groups hs @ ''::'' @ groups ks) = Some (hs @ replicate (8 - length hs - length ks) 0 @ ks)"
    and "length hs = 6 \<Longrightarrow>
      parseIPv6 (join '':'' (map show_hex hs @ [dotted [a, b, c, d]])) = Some (hs @ [pack a b, pack c d])"
    and "length hs = 8 \<Longrightarrow> parseIPv6 (groups hs) = Some hs"
proof -
  note q = expand_tokens_quad [OF assms(1-4)]
  have toks: "tokens_ok (map show_hex xs @ [dotted [a, b, c, d]])" for xs
    using q(2) tokens_ok_hex [of xs] by (auto simp: tokens_ok_def)
  have h: "expand_tokens (map show_hex xs) = Some xs" if "hextets_ok xs" for xs
    using expand_tokens_hex [OF that, of "[]"] by simp
  have hq: "expand_tokens (map show_hex xs @ [dotted [a, b, c, d]]) = Some (xs @ [pack a b, pack c d])"
    if "hextets_ok xs" for xs
    using expand_tokens_hex [OF that] q(1) by simp
  show "parseIPv6 (join '':'' (map show_hex hs) @ ''::'' @ join '':'' (map show_hex ks @ [dotted [a, b, c, d]])) =
      Some (hs @ replicate (6 - length hs - length ks) 0 @ ks @ [pack a b, pack c d])"
    if "length hs + length ks \<le> 5"
    using that by (subst parseIPv6_elided [OF tokens_ok_hex toks h [OF hs] hq [OF ks]]) simp_all
  show "parseIPv6 (groups hs @ ''::'' @ groups ks) = Some (hs @ replicate (8 - length hs - length ks) 0 @ ks)"
    if "length hs + length ks \<le> 7"
    unfolding groups_def by (rule parseIPv6_elided [OF tokens_ok_hex tokens_ok_hex h [OF hs] h [OF ks] that])
  show "parseIPv6 (join '':'' (map show_hex hs @ [dotted [a, b, c, d]])) = Some (hs @ [pack a b, pack c d])"
    if "length hs = 6"
    using that by (intro parseIPv6_full [OF toks hq [OF hs]]) simp
  show "parseIPv6 (groups hs) = Some hs" if "length hs = 8"
    unfolding groups_def by (rule parseIPv6_full [OF tokens_ok_hex h [OF hs] that])
qed

lemma split_on_chars: "set s \<subseteq> insert c (\<Union> (set ` set (split_on c s)))"
proof (induction s)
  case (Cons x s)
  then show ?case by (cases "split_on c s") auto
qed simp

lemma those_SomeD: "those xs = Some ys \<Longrightarrow> x \<in> set xs \<Longrightarrow> x \<noteq> None"
  by (induction xs arbitrary: ys) (auto split: option.splits)

lemma parse_octet_digits: "parse_octet w \<noteq> None \<Longrightarrow> list_all is_digit w"
  by (simp add: parse_octet_def split: if_splits)

lemma parseIPv4_no_colon:
  assumes "CHR '':'' \<in> set s"
  shows "parseIPv4 s = None"
proof (rule ccontr)
  assume "parseIPv4 s \<noteq> None"
  then have "list_all is_digit w" if "w \<in> set (split_on CHR ''.'' s)" for w
    using those_SomeD [of "map parse_octet (split_on CHR ''.'' s)" _ "parse_octet w"] that
      parse_octet_digits [of w] by (auto simp: parseIPv4_def Let_def split: if_splits)
  then show False
    using assms split_on_chars [of s "CHR ''.''"] digit_not_sep by (fastforce simp: list_all_iff)
qed

lemma classify_v6:
  assumes "list_all address_char s" "CHR '':'' \<in> set s" "parseIPv6 s = Some hs"
  shows "classifyAddress s = Some (classifyIPv6 hs)"
  using assms by (simp add: classifyAddress_def parseAddress_def normalizeHost_plain parseIPv4_no_colon)

lemma classify_v4:
  assumes "a \<le> 255" "b \<le> 255" "c \<le> 255" "d \<le> 255"
  shows "classifyAddress (dotted [a, b, c, d]) = Some (classifyIPv4 [a, b, c, d])"
  using assms parseIPv4_dotted [of "[a, b, c, d]"]
  by (simp add: classifyAddress_def parseAddress_def normalizeHost_plain dotted_chars)

lemma classify_embedded:
  assumes "b \<le> 255" "d \<le> 255"
  shows "classifyIPv6 [0, 0, 0, 0, 0, 65535, pack a b, pack c d] = classifyIPv4 [a, b, c, d]"
    and "classifyIPv6 [0, 0, 0, 0, 65535, 0, pack a b, pack c d] = classifyIPv4 [a, b, c, d]"
    and "classifyIPv6 [100, 65435, 0, 0, 0, 0, pack a b, pack c d] = classifyIPv4 [a, b, c, d]"
    and "classifyIPv6 (8194 # pack a b # pack c d # hs) = classifyIPv4 [a, b, c, d]"
  using assms by (simp_all add: classifyIPv6_def embeddedIPv4_def zeros_def)

lemma hex_literals:
  "show_hex 65535 = ''ffff''" "show_hex 0 = ''0''" "show_hex (Suc 0) = ''1''" "show_hex 100 = ''64''" "show_hex 65435 = ''ff9b''" "show_hex 8194 = ''2002''"
  by (simp_all add: show_hex.simps hex_digit_def)

lemma groups_chars: "list_all address_char (groups hs)"
  unfolding groups_def
  by (rule address_chars_join) (simp_all add: list_all_iff address_chars [unfolded list_all_iff], simp add: address_char_def)

lemma literal_chars:
  "list_all address_char ''::ffff:''" "list_all address_char ''0:0:0:0:0:ffff:''" "list_all address_char ''::ffff:0:''"
  "list_all address_char ''64:ff9b::''" "list_all address_char ''2002:''" "list_all address_char ''::''"
  "list_all address_char ''::1''"
  by (simp_all add: address_char_def)

lemma spelling_chars: "s \<in> set (spellings a b c d) \<Longrightarrow> list_all address_char s"
  unfolding spellings_def Let_def set_simps insert_iff empty_iff two_groups_def
  by (elim disjE; simp only: list_all_append literal_chars dotted_chars groups_chars simp_thms)

lemma replicate_num: "replicate (numeral k) x = x # replicate (pred_numeral k) x"
  by (simp add: numeral_eq_Suc)

lemma spelling_parse:
  assumes "a \<le> 255" "b \<le> 255" "c \<le> 255" "d \<le> 255"
  defines "quad \<equiv> dotted [a, b, c, d]" and "hex \<equiv> two_groups a b c d"
  shows "parseIPv6 (''::ffff:'' @ quad) = Some [0, 0, 0, 0, 0, 65535, pack a b, pack c d]"
    and "parseIPv6 (''::ffff:'' @ hex) = Some [0, 0, 0, 0, 0, 65535, pack a b, pack c d]"
    and "parseIPv6 (''0:0:0:0:0:ffff:'' @ quad) = Some [0, 0, 0, 0, 0, 65535, pack a b, pack c d]"
    and "parseIPv6 (''0:0:0:0:0:ffff:'' @ hex) = Some [0, 0, 0, 0, 0, 65535, pack a b, pack c d]"
    and "parseIPv6 (''::ffff:0:'' @ quad) = Some [0, 0, 0, 0, 65535, 0, pack a b, pack c d]"
    and "parseIPv6 (''::ffff:0:'' @ hex) = Some [0, 0, 0, 0, 65535, 0, pack a b, pack c d]"
    and "parseIPv6 (''64:ff9b::'' @ quad) = Some [100, 65435, 0, 0, 0, 0, pack a b, pack c d]"
    and "parseIPv6 (''64:ff9b::'' @ hex) = Some [100, 65435, 0, 0, 0, 0, pack a b, pack c d]"
    and "parseIPv6 (''2002:'' @ hex @ ''::'') = Some [8194, pack a b, pack c d, 0, 0, 0, 0, 0]"
    and "parseIPv6 (''2002:'' @ hex @ ''::1'') = Some [8194, pack a b, pack c d, 0, 0, 0, 0, 1]"
proof -
  note w = parse_written [OF assms(1-4)]
  note ok = pack_bound [OF assms(1,2)] pack_bound [OF assms(3,4)]
  note s = hex_literals quad_def hex_def two_groups_def groups_def replicate_num
  show "parseIPv6 (''::ffff:'' @ quad) = Some [0, 0, 0, 0, 0, 65535, pack a b, pack c d]"
    using w(1) [of "[]" "[65535]"] by (simp add: s)
  show "parseIPv6 (''::ffff:'' @ hex) = Some [0, 0, 0, 0, 0, 65535, pack a b, pack c d]"
    using w(2) [of "[]" "[65535, pack a b, pack c d]"] ok by (simp add: s)
  show "parseIPv6 (''0:0:0:0:0:ffff:'' @ quad) = Some [0, 0, 0, 0, 0, 65535, pack a b, pack c d]"
    using w(3) [of "[0, 0, 0, 0, 0, 65535]" "[]"] by (simp add: s)
  show "parseIPv6 (''0:0:0:0:0:ffff:'' @ hex) = Some [0, 0, 0, 0, 0, 65535, pack a b, pack c d]"
    using w(4) [of "[0, 0, 0, 0, 0, 65535, pack a b, pack c d]" "[]"] ok by (simp add: s)
  show "parseIPv6 (''::ffff:0:'' @ quad) = Some [0, 0, 0, 0, 65535, 0, pack a b, pack c d]"
    using w(1) [of "[]" "[65535, 0]"] by (simp add: s)
  show "parseIPv6 (''::ffff:0:'' @ hex) = Some [0, 0, 0, 0, 65535, 0, pack a b, pack c d]"
    using w(2) [of "[]" "[65535, 0, pack a b, pack c d]"] ok by (simp add: s)
  show "parseIPv6 (''64:ff9b::'' @ quad) = Some [100, 65435, 0, 0, 0, 0, pack a b, pack c d]"
    using w(1) [of "[100, 65435]" "[]"] by (simp add: s)
  show "parseIPv6 (''64:ff9b::'' @ hex) = Some [100, 65435, 0, 0, 0, 0, pack a b, pack c d]"
    using w(2) [of "[100, 65435]" "[pack a b, pack c d]"] ok by (simp add: s)
  show "parseIPv6 (''2002:'' @ hex @ ''::'') = Some [8194, pack a b, pack c d, 0, 0, 0, 0, 0]"
    using w(2) [of "[8194, pack a b, pack c d]" "[]"] ok by (simp add: s)
  show "parseIPv6 (''2002:'' @ hex @ ''::1'') = Some [8194, pack a b, pack c d, 0, 0, 0, 0, 1]"
    using w(2) [of "[8194, pack a b, pack c d]" "[1]"] ok by (simp add: s)
qed


lemma spelling_class:
  assumes "a \<le> 255" "b \<le> 255" "c \<le> 255" "d \<le> 255" and "s \<in> set (spellings a b c d)"
  shows "classifyAddress s = Some (classifyIPv4 [a, b, c, d])"
proof (cases "s = dotted [a, b, c, d]")
  case True
  then show ?thesis using classify_v4 [OF assms(1-4)] by simp
next
  case False
  then have "CHR '':'' \<in> set s" using assms(5) by (auto simp: spellings_def Let_def)
  moreover have "\<exists>hs. parseIPv6 s = Some hs \<and> classifyIPv6 hs = classifyIPv4 [a, b, c, d]"
    using assms(5) False
    unfolding spellings_def Let_def set_simps insert_iff empty_iff
    by (elim disjE; simp only: spelling_parse [OF assms(1-4)] option.inject ex_simps
        classify_embedded [OF assms(2,4), of a c] simp_thms)
  ultimately show ?thesis using classify_v6 [OF spelling_chars [OF assms(5)]] by auto
qed

lemma classifyAddress_cong: "normalizeHost h = normalizeHost k \<Longrightarrow> classifyAddress h = classifyAddress k"
  by (simp add: classifyAddress_def parseAddress_def)

lemma forbidden_names_not_plain: "n \<in> set FORBIDDEN_HOSTNAMES \<Longrightarrow> \<not> list_all address_char n"
  by (auto simp: FORBIDDEN_HOSTNAMES_def address_char_def)

lemma spelling_forbidden:
  assumes "a \<le> 255" "b \<le> 255" "c \<le> 255" "d \<le> 255" and "normalizeHost host \<in> set (spellings a b c d)"
  shows "classifyAddress host = Some (classifyIPv4 [a, b, c, d])"
    and "isForbiddenEgressHost host \<longleftrightarrow> isNeverReachable (classifyIPv4 [a, b, c, d])"
proof -
  have plain: "list_all address_char (normalizeHost host)" by (rule spelling_chars [OF assms(5)])
  have norm: "classifyAddress (normalizeHost host) = classifyAddress host"
    by (rule classifyAddress_cong) (rule normalizeHost_plain [OF plain])
  show cls: "classifyAddress host = Some (classifyIPv4 [a, b, c, d])"
    using spelling_class [OF assms] norm by simp
  show "isForbiddenEgressHost host \<longleftrightarrow> isNeverReachable (classifyIPv4 [a, b, c, d])"
    using forbidden_names_not_plain plain cls norm
    by (auto simp: isForbiddenEgressHost_def isNeverReachable_def Let_def)
qed

lemma normalizeHost_zone: "normalizeHost (h @ CHR ''%'' # z) = normalizeHost h" if "CHR ''%'' \<notin> set h"
  using that by (simp add: normalizeHost_def split_on_sep split_on_plain)

lemma normalizeHost_brackets:
  assumes "CHR ''%'' \<notin> set h" and "take 1 h \<noteq> ''[''"
  shows "normalizeHost (''['' @ h @ '']'') = normalizeHost h"
  using assms by (simp add: normalizeHost_def split_on_plain split_on_sep Let_def)

section \<open>IPv6 ranges\<close>

lemma and_high_mask:
  fixes h :: nat
  assumes "h < 2 ^ (n + k)"
  shows "h AND push_bit n (mask k) = 2 ^ n * (h div 2 ^ n)"
proof -
  have "h AND push_bit n (mask k) = push_bit n (take_bit k (drop_bit n h))"
    by (rule bit_eqI) (auto simp: bit_simps)
  also have "take_bit k (drop_bit n h) = drop_bit n h"
    using assms by (simp add: take_bit_nat_eq_self_iff drop_bit_eq_div less_mult_imp_div_less power_add mult.commute)
  finally show ?thesis by (simp add: push_bit_eq_mult drop_bit_eq_div)
qed

lemma mask_range:
  fixes h :: nat
  assumes "h < 65536"
  shows "h AND 0xff00 = 0xff00 \<longleftrightarrow> 0xff00 \<le> h"
    and "h AND 0xffc0 = 0xfe80 \<longleftrightarrow> 0xfe80 \<le> h \<and> h < 0xfec0"
    and "h AND 0xffc0 = 0xfec0 \<longleftrightarrow> 0xfec0 \<le> h \<and> h < 0xff00"
    and "h AND 0xfe00 = 0xfc00 \<longleftrightarrow> 0xfc00 \<le> h \<and> h < 0xfe00"
proof -
  have m: "(0xff00 :: nat) = push_bit 8 (mask 8)" "(0xffc0 :: nat) = push_bit 6 (mask 10)" "(0xfe00 :: nat) = push_bit 9 (mask 7)"
    by (simp_all add: push_bit_eq_mult mask_eq_exp_minus_1)
  have "h AND 0xff00 = 256 * (h div 256)" "h AND 0xffc0 = 64 * (h div 64)" "h AND 0xfe00 = 512 * (h div 512)"
    using and_high_mask [of h 8 8] and_high_mask [of h 6 10] and_high_mask [of h 9 7] assms unfolding m by simp_all
  moreover have "256 * (h div 256) = 256 * 255 \<longleftrightarrow> 0xff00 \<le> h"
    "64 * (h div 64) = 64 * 1018 \<longleftrightarrow> 0xfe80 \<le> h \<and> h < 0xfec0"
    "64 * (h div 64) = 64 * 1019 \<longleftrightarrow> 0xfec0 \<le> h \<and> h < 0xff00"
    "512 * (h div 512) = 512 * 126 \<longleftrightarrow> 0xfc00 \<le> h \<and> h < 0xfe00"
    using assms unfolding mult_cancel1 by (auto simp: div_eq_range)
  ultimately show "h AND 0xff00 = 0xff00 \<longleftrightarrow> 0xff00 \<le> h"
    and "h AND 0xffc0 = 0xfe80 \<longleftrightarrow> 0xfe80 \<le> h \<and> h < 0xfec0"
    and "h AND 0xffc0 = 0xfec0 \<longleftrightarrow> 0xfec0 \<le> h \<and> h < 0xff00"
    and "h AND 0xfe00 = 0xfc00 \<longleftrightarrow> 0xfc00 \<le> h \<and> h < 0xfe00"
    by simp_all
qed

lemma classifyIPv6_ranges:
  assumes "hextets_ok hs" and "length hs = 8" and "embeddedIPv4 hs = None"
  shows "classifyIPv6 hs =
    (let h = hs ! 0; k = hs ! 1 in
     if h = 0x2001 \<and> (k = 0 \<or> k = 0xdb8) \<or> h = 0x100 \<and> zeros hs 1 3 \<or> 0xff00 \<le> h then ReservedAddr
     else if 0xfe80 \<le> h \<and> h < 0xfec0 then LinkLocalAddr
     else if 0xfec0 \<le> h then PrivateAddr
     else if h = 0xfd00 \<and> k = 0xec2 \<and> zeros hs 2 6 \<and> hs ! 7 = 0x254 then MetadataAddr
     else if 0xfc00 \<le> h \<and> h < 0xfe00 then PrivateAddr else PublicAddr)"
proof -
  have h: "hs ! 0 < 65536" using assms(1,2) by (simp add: hextets_ok_def)
  have z: "\<not> zeros hs 0 7" "\<not> (zeros hs 0 6 \<and> at_index hs 7 = 1)"
  proof -
    have "zeros hs 0 4 \<and> at_index hs 5 = 0" if "zeros hs 0 6"
      using that assms(2) by (auto simp: zeros_def list_all_length at_index_def)
    moreover have "zeros hs 0 6" if "zeros hs 0 7"
      using that assms(2) by (auto simp: zeros_def list_all_length)
    ultimately show "\<not> zeros hs 0 7" "\<not> (zeros hs 0 6 \<and> at_index hs 7 = 1)"
      using assms(3) by (auto simp: embeddedIPv4_def Let_def)
  qed
  show ?thesis
    using z assms(2) unfolding classifyIPv6_def assms(3)
    by (simp add: at_index_def mask_range [OF h] Let_def) auto
qed

section \<open>Well-formed results\<close>

lemma those_lengthD: "those xs = Some ys \<Longrightarrow> length ys = length xs \<and> (\<forall>i < length xs. xs ! i = Some (ys ! i))"
proof (induction xs arbitrary: ys)
  case (Cons x xs)
  then show ?case by (auto simp: nth_Cons split: option.splits nat.splits)
qed simp

lemma digit_char_value: "is_digit c \<Longrightarrow> digit_char (digit_value c) = c \<and> digit_value c < 10"
  by (auto simp: is_digit_def digit_value_def digit_char_def)

lemma show_nat_value:
  assumes "list_all is_digit w" "w \<noteq> []" "1 < length w \<longrightarrow> hd w \<noteq> CHR ''0''"
  shows "show_nat (numeral_value 10 w) = w"
  using assms
proof (induction w rule: rev_induct)
  case (snoc c u)
  then have c: "digit_char (digit_value c) = c" "digit_value c < 10" using digit_char_value by auto
  show ?case
  proof (cases "u = []")
    case True
    then show ?thesis using c by (simp add: show_nat.simps [of "digit_value c"])
  next
    case False
    then have u: "show_nat (numeral_value 10 u) = u" "hd u \<noteq> CHR ''0''"
      using snoc by (auto simp: Suc_le_eq)
    then have "numeral_value 10 u \<noteq> 0"
      by (metis digit_char_def list.sel(1) nth_Cons_0 show_nat.simps zero_less_numeral)
    then show ?thesis
      using c u by (simp add: show_nat.simps [of "10 * numeral_value 10 u + digit_value c"])
  qed
qed simp

lemma parse_octet_iff: "parse_octet w = Some n \<longleftrightarrow> n \<le> 255 \<and> w = show_nat n"
proof
  assume "parse_octet w = Some n"
  then have "list_all is_digit w" "w \<noteq> []" "1 < length w \<longrightarrow> hd w \<noteq> CHR ''0''" "n = numeral_value 10 w" "n \<le> 255"
    by (auto simp: parse_octet_def Let_def split: if_splits)
  then show "n \<le> 255 \<and> w = show_nat n" using show_nat_value [of w] by simp
qed simp

lemma join_split_on: "join [c] (split_on c s) = s"
proof (induction s)
  case (Cons x s)
  then show ?case by (cases "split_on c s" rule: remdups_adj.cases) (auto split: if_splits)
qed simp

lemma parse_bounds:
  assumes "parseIPv4 s = Some octets"
  shows "length octets = 4" and "\<forall>i < 4. octets ! i \<le> 255 \<and> split_on CHR ''.'' s ! i = show_nat (octets ! i)"
    and "length (split_on CHR ''.'' s) = 4"
proof -
  from assms have len: "length (split_on CHR ''.'' s) = 4"
    and all: "those (map parse_octet (split_on CHR ''.'' s)) = Some octets"
    by (auto simp: parseIPv4_def Let_def split: if_splits)
  then show "length octets = 4" "length (split_on CHR ''.'' s) = 4" using those_lengthD [OF all] by simp_all
  then show "\<forall>i < 4. octets ! i \<le> 255 \<and> split_on CHR ''.'' s ! i = show_nat (octets ! i)"
    using those_lengthD [OF all] by (auto simp: parse_octet_iff)
qed

text \<open>
  C15: The IPv4 parser accepts exactly the canonical dotted quads of four octets: it reads back what
  is printed, and there is no second spelling, with leading zeros for example, of the same octets.
\<close>

theorem parseIPv4_exact:
  "parseIPv4 s = Some octets \<longleftrightarrow> length octets = 4 \<and> (\<forall>n \<in> set octets. n \<le> 255) \<and> s = dotted octets"
proof
  assume "parseIPv4 s = Some octets"
  then have len: "length (split_on CHR ''.'' s) = 4" and o: "length octets = 4"
    and each: "\<forall>i < 4. octets ! i \<le> 255 \<and> split_on CHR ''.'' s ! i = show_nat (octets ! i)"
    using parse_bounds [of s octets] by simp_all
  have "split_on CHR ''.'' s = map show_nat octets"
    using len o each by (intro nth_equalityI) auto
  then have "s = dotted octets" unfolding dotted_def using join_split_on [of "CHR ''.''" s] by simp
  moreover have "\<forall>n \<in> set octets. n \<le> 255" using o each by (auto simp: in_set_conv_nth)
  ultimately show "length octets = 4 \<and> (\<forall>n \<in> set octets. n \<le> 255) \<and> s = dotted octets" using o by simp
qed (use parseIPv4_dotted in auto)

theorem parseIPv4_exact_witness:
  "parseIPv4 ''10.0.0.1'' = Some [10, 0, 0, 1] \<and> parseIPv4 ''010.0.0.1'' \<noteq> Some [10, 0, 0, 1]"
  using parseIPv4_exact [of "''10.0.0.1''" "[10, 0, 0, 1]"] parseIPv4_exact [of "''010.0.0.1''" "[10, 0, 0, 1]"]
  by (simp add: dotted_def show_nat.simps digit_char_def)

lemma digit_value_hex: "is_hex c \<Longrightarrow> digit_value c < 16"
proof -
  have "list_all (\<lambda>c. digit_value c < 16) ''0123456789abcdef''" by (simp add: digit_value_def is_digit_def)
  then show "is_hex c \<Longrightarrow> digit_value c < 16" unfolding is_hex_def list_all_iff by blast
qed

lemma numeral_value_hex: "list_all is_hex w \<Longrightarrow> numeral_value 16 w < 16 ^ length w"
proof (induction w rule: rev_induct)
  case (snoc c u)
  then show ?case using digit_value_hex [of c] by simp
qed (simp add: numeral_value_def)

lemma expand_tokens_ok: "expand_tokens ts = Some hs \<Longrightarrow> hextets_ok hs"
proof (induction ts arbitrary: hs rule: expand_tokens.induct)
  case (2 t ts)
  show ?case
  proof (cases "CHR ''.'' \<in> set t")
    case True
    then obtain octets where o: "parseIPv4 t = Some octets"
      and hs: "hs = [pack (at_index octets 0) (at_index octets 1), pack (at_index octets 2) (at_index octets 3)]"
      using 2 by (auto simp: pack_def split: if_splits option.splits)
    have "length octets = 4" and "\<forall>i < 4. octets ! i \<le> 255"
      using o parse_bounds [of t octets] by auto
    then show ?thesis unfolding hs by (simp add: at_index_def pack_bound)
  next
    case False
    then have "list_all is_hex t" "length t \<le> 4" and r: "\<exists>r. expand_tokens ts = Some r \<and> hs = numeral_value 16 t # r"
      using 2 by (auto split: if_splits)
    then have "numeral_value 16 t < 16 ^ 4"
      using numeral_value_hex [of t] power_increasing [of "length t" 4 "16 :: nat"] by linarith
    then show ?thesis using r 2 False \<open>list_all is_hex t\<close> by (auto split: if_splits)
  qed
qed simp

lemma expandGroups_ok: "expandGroups s = Some hs \<Longrightarrow> hextets_ok hs"
  by (auto simp: expandGroups_def expand_tokens_ok split: if_splits option.splits)

lemma parseIPv6_ok: "parseIPv6 s = Some hs \<Longrightarrow> length hs = 8 \<and> hextets_ok hs"
  by (auto simp: parseIPv6_def Let_def expandGroups_ok hextets_ok_def [of "replicate _ _"]
      split: if_splits option.splits)

text \<open>
  What the parsers return has the shape the classifiers index into, with no default ever used: four octets
  of eight bits or eight hextets of sixteen, and the IPv4 address an IPv6 address carries is again
  four octets of eight bits.
\<close>

theorem parsed_addresses_well_formed:
  "(\<forall>octets. parseIPv4 s = Some octets \<longrightarrow> length octets = 4 \<and> (\<forall>n \<in> set octets. n < 2 ^ 8)) \<and>
   (\<forall>hextets. parseIPv6 s = Some hextets \<longrightarrow>
      length hextets = 8 \<and> (\<forall>h \<in> set hextets. h < 2 ^ 16) \<and>
      (\<forall>octets. embeddedIPv4 hextets = Some octets \<longrightarrow> length octets = 4 \<and> (\<forall>n \<in> set octets. n < 2 ^ 8)))"
proof (intro conjI allI impI)
  fix octets assume "parseIPv4 s = Some octets"
  note b = parse_bounds [OF this]
  show "length octets = 4" by (rule b(1))
  show "\<forall>n \<in> set octets. n < 2 ^ 8" using b(1,2) by (fastforce simp: in_set_conv_nth)
next
  fix hextets assume "parseIPv6 s = Some hextets"
  then have p: "length hextets = 8" "hextets_ok hextets" using parseIPv6_ok by auto
  show "length hextets = 8" by (rule p(1))
  show "\<forall>h \<in> set hextets. h < 2 ^ 16" using p(2) by (simp add: hextets_ok_def)
  fix octets assume "embeddedIPv4 hextets = Some octets"
  then have "octets = split_hextet (hextets ! 6) @ split_hextet (hextets ! 7) \<or>
      octets = split_hextet (hextets ! 1) @ split_hextet (hextets ! 2)"
    using p(1) by (auto simp: embeddedIPv4_def Let_def at_index_def split: if_splits)
  then obtain i j where ij: "i < 8" "j < 8" "octets = split_hextet (hextets ! i) @ split_hextet (hextets ! j)"
    by (elim disjE) (erule that [rotated 2]; simp)+
  then have "hextets ! i < 65536" "hextets ! j < 65536" using p by (simp_all add: hextets_ok_def)
  then show "length octets = 4" "\<forall>n \<in> set octets. n < 2 ^ 8"
    using ij(3) by (auto simp: split_hextet_arith less_mult_imp_div_less)
qed

theorem parsed_addresses_well_formed_witness:
  "parseIPv4 ''1.2.3.4'' = Some [1, 2, 3, 4] \<and> (\<forall>n \<in> set [1, 2, 3, 4 :: nat]. n < 2 ^ 8)"
proof -
  have p: "parseIPv4 ''1.2.3.4'' = Some [1, 2, 3, 4]"
    using parseIPv4_dotted [of "[1, 2, 3, 4]"] by (simp add: dotted_def show_nat.simps digit_char_def)
  then show ?thesis using parsed_addresses_well_formed [of "''1.2.3.4''"] by blast
qed

section \<open>What the callers rely on\<close>

text \<open>
  C14: The cascade of comparisons of \<open>classifyIPv4\<close> is a longest-prefix match of the 32-bit address in the
  registry of special-purpose blocks.
\<close>

theorem ipv4_class_is_the_registry:
  assumes "a \<le> 255" "b \<le> 255" "c \<le> 255" "d \<le> 255"
  shows "classifyIPv4 [a, b, c, d] = longest_match registry4 (value4 a b c d)"
  by (rule registry_match [OF assms])

theorem ipv4_class_is_the_registry_witness:
  "classifyIPv4 [172, 31, 5, 9] = longest_match registry4 (value4 172 31 5 9)"
  by (rule ipv4_class_is_the_registry) simp_all


lemma char_f: "char_of (102 :: nat) = CHR ''f''"
  by code_simp


text \<open>
  A zone inside the brackets is the one spelling that is not normalised: the host is cut at the percent
  sign before the brackets are looked at, and what remains has an opening bracket only.
\<close>

lemma bracketed_zone_is_not_read:
  "normalizeHost ''[fe80::1%eth0]'' = ''[fe80::1'' \<and> classifyAddress ''[fe80::1%eth0]'' = None \<and>
   \<not> isForbiddenEgressHost ''[fe80::1%eth0]''"
proof -
  have n: "normalizeHost ''[fe80::1%eth0]'' = ''[fe80::1''" "normalizeHost ''[fe80::1'' = ''[fe80::1''"
    by (simp_all add: normalizeHost_def lower_def)
  have "parseIPv6 ''[fe80::1'' = None"
    by (simp add: parseIPv6_def expandGroups_def is_hex_def)
  then have "classifyAddress h = None" if "normalizeHost h = ''[fe80::1''" for h
    using that by (simp add: classifyAddress_def parseAddress_def parseIPv4_no_colon)
  then show ?thesis using n by (simp add: isForbiddenEgressHost_def FORBIDDEN_HOSTNAMES_def)
qed

end
