(* ===== verification/Egress_Laws.thy ===== *)
theory Egress_Laws
  imports Egress Net_Address_Laws
begin

text \<open>
  What the egress policy guarantees of every request: the address it connects to was
  classified and allowed at that hop, exceptions are audited, a chain of redirects is bounded,
  and credentials stay with the origin they were given for.
\<close>

section \<open>One decision\<close>

text \<open>An address the policy lets a connection use.\<close>

definition may_reach :: "egress_policy \<Rightarrow> resolved_address \<Rightarrow> bool" where
  "may_reach policy r \<longleftrightarrow>
     classifyAddress (ra_address r) = Some PublicAddr \<or>
     ep_allowPrivate policy \<and> classifyAddress (ra_address r) \<in> {Some PrivateAddr, Some LoopbackAddr}"

lemma reachable_class: "\<not> isNeverReachable c \<longleftrightarrow> c \<in> {PublicAddr, PrivateAddr, LoopbackAddr}"
  by (cases c) (simp_all add: isNeverReachable_def NEVER_REACHABLE_def)

lemma class_or_reserved_reachable:
  "\<not> isNeverReachable (class_or_reserved a) \<Longrightarrow> classifyAddress a = Some (class_or_reserved a)"
  by (simp add: class_or_reserved_def reachable_class split: option.splits)

lemma refused_address_None:
  "refused_address (ep_allowPrivate policy) rs = None \<longleftrightarrow> (\<forall>r \<in> set rs. may_reach policy r)"
proof (induction rs)
  case (Cons r rs)
  have "may_reach policy r \<longleftrightarrow> class_or_reserved (ra_address r) = PublicAddr \<or>
      \<not> (isNeverReachable (class_or_reserved (ra_address r)) \<or> \<not> ep_allowPrivate policy)"
    by (auto simp: may_reach_def class_or_reserved_def reachable_class split: option.splits)
  then show ?case using Cons.IH by (auto simp: Let_def)
qed simp

lemma authorizeEgress_Inr:
  assumes "authorizeEgress policy lookup url hop = (Inr decision, audits)"
  obtains pin rest where
    "u_protocol url = ''http:'' \<or> u_protocol url = ''https:''"
    "normalizeHost (u_hostname url) \<notin> set FORBIDDEN_HOSTNAMES"
    "target_addresses lookup (normalizeHost (u_hostname url)) = Inr (pin # rest)"
    "\<forall>r \<in> set (pin # rest). may_reach policy r"
    "decision = decision_for (pin # rest)" "audits = audit_entry_for policy url hop decision"
proof -
  from assms obtain addresses where a:
    "u_protocol url = ''http:'' \<or> u_protocol url = ''https:''"
    "normalizeHost (u_hostname url) \<notin> set FORBIDDEN_HOSTNAMES"
    "target_addresses lookup (normalizeHost (u_hostname url)) = Inr addresses" "addresses \<noteq> []"
    "refused_address (ep_allowPrivate policy) addresses = None"
    "decision = decision_for addresses" "audits = audit_entry_for policy url hop decision"
    by (auto simp: authorizeEgress_def Let_def split: if_splits sum.splits option.splits)
  moreover obtain pin rest where "addresses = pin # rest" using a(4) by (cases addresses) auto
  ultimately show thesis using that refused_address_None by blast
qed

lemma decision_for_pin:
  assumes "may_reach policy pin"
  shows "ed_pin (decision_for (pin # rest)) = Some pin"
    and "ed_classification (decision_for (pin # rest)) = classifyAddress (ra_address pin)"
    and "ed_exception (decision_for (pin # rest)) \<longleftrightarrow> classifyAddress (ra_address pin) \<noteq> Some PublicAddr"
  using assms by (auto simp: decision_for_def Let_def may_reach_def)

text \<open>
  C10: An approved request is one over http or https, to a host that is not a metadata endpoint by name, all of whose
  addresses are public, or private or loopback where the policy says so. It is pinned to the first of them,
  and there is an audit entry, naming that address, its class and the hop, exactly when it is not public.
  Nothing in metadata, link-local, unspecified or reserved space is ever approved.
\<close>

theorem approval_is_sound:
  assumes "authorizeEgress policy lookup url hop = (Inr decision, audits)"
  shows "\<exists>pin rest.
    u_protocol url \<in> {''http:'', ''https:''} \<and>
    normalizeHost (u_hostname url) \<notin> set FORBIDDEN_HOSTNAMES \<and>
    target_addresses lookup (normalizeHost (u_hostname url)) = Inr (pin # rest) \<and>
    (\<forall>r \<in> set (pin # rest). may_reach policy r) \<and>
    ed_pin decision = Some pin \<and>
    (if classifyAddress (ra_address pin) = Some PublicAddr then audits = []
     else ep_allowPrivate policy \<and>
       map (\<lambda>e. (ee_address e, Some (ee_classification e), ee_hop e, ee_channel e)) audits =
         [(ra_address pin, classifyAddress (ra_address pin), hop, ep_channel policy)])"
proof -
  from assms obtain pin rest where p:
    "u_protocol url = ''http:'' \<or> u_protocol url = ''https:''"
    "normalizeHost (u_hostname url) \<notin> set FORBIDDEN_HOSTNAMES"
    "target_addresses lookup (normalizeHost (u_hostname url)) = Inr (pin # rest)"
    "\<forall>r \<in> set (pin # rest). may_reach policy r"
    "decision = decision_for (pin # rest)" "audits = audit_entry_for policy url hop decision"
    by (rule authorizeEgress_Inr)
  then have m: "may_reach policy pin" by simp
  note d = decision_for_pin [OF m, of rest, folded p(5)]
  have "if classifyAddress (ra_address pin) = Some PublicAddr then audits = []
     else ep_allowPrivate policy \<and>
       map (\<lambda>e. (ee_address e, Some (ee_classification e), ee_hop e, ee_channel e)) audits =
         [(ra_address pin, classifyAddress (ra_address pin), hop, ep_channel policy)]"
    using m d unfolding p(6) by (auto simp: audit_entry_for_def may_reach_def)
  then show ?thesis using p(1-4) d(1) by auto
qed

section \<open>The redirect loop\<close>

declare fetch_loop.simps [simp del]

fun sent_requests :: "event list \<Rightarrow> request list" where
  "sent_requests [] = []"
| "sent_requests (Sent r # es) = r # sent_requests es"
| "sent_requests (Audited e # es) = sent_requests es"
| "sent_requests (Drained n # es) = sent_requests es"

lemma sent_requests_append [simp]: "sent_requests (xs @ ys) = sent_requests xs @ sent_requests ys"
  by (induction xs rule: sent_requests.induct) auto

lemma sent_requests_audits [simp]: "sent_requests (map Audited as) = []"
  by (induction as) auto

text \<open>
  What a request looks like when it leaves: the host was resolved at this hop, every answer may be
  reached, and the pinned client is told the first one.
\<close>

definition vetted :: "egress_env \<Rightarrow> nat \<Rightarrow> request \<Rightarrow> bool" where
  "vetted env hop req \<longleftrightarrow>
     (\<exists>pin rest. u_protocol (rq_url req) \<in> {''http:'', ''https:''} \<and>
        target_addresses (ev_lookup env hop) (normalizeHost (u_hostname (rq_url req))) = Inr (pin # rest) \<and>
        (\<forall>r \<in> set (pin # rest). may_reach (ev_policy env) r) \<and>
        (case rq_wire req of Pinned d \<Rightarrow> dl_address d = pin | Injected \<Rightarrow> ev_injected env \<noteq> None))"

lemma send_one:
  assumes "ed_pin decision = Some pin"
  obtains req where "fst (send env hop decision url m h b) = [Sent req]"
    "rq_url req = url" "rq_method req = m" "rq_headers req = h" "rq_body req = b"
    "case rq_wire req of Pinned d \<Rightarrow> dl_address d = pin | Injected \<Rightarrow> ev_injected env \<noteq> None"
  using assms
  by (cases "ev_injected env") (auto simp: send_def Let_def pinned_dial_def pinnedLookup_def)

lemma authorized_send:
  assumes "authorizeEgress (ev_policy env) (ev_lookup env hop) url hop = (Inr decision, audits)"
  obtains req answer where "send env hop decision url m h b = ([Sent req], answer)" "vetted env hop req"
    "rq_url req = url" "rq_method req = m" "rq_headers req = h" "rq_body req = b"
    "\<forall>d. rq_wire req = Pinned d \<longrightarrow> ed_pin decision = Some (dl_address d)"
proof -
  from assms obtain pin rest where p:
    "u_protocol url = ''http:'' \<or> u_protocol url = ''https:''"
    "normalizeHost (u_hostname url) \<notin> set FORBIDDEN_HOSTNAMES"
    "target_addresses (ev_lookup env hop) (normalizeHost (u_hostname url)) = Inr (pin # rest)"
    "\<forall>r \<in> set (pin # rest). may_reach (ev_policy env) r" "decision = decision_for (pin # rest)"
    by (rule authorizeEgress_Inr)
  then have pin: "ed_pin decision = Some pin" using decision_for_pin(1) [of "ev_policy env" pin rest] by simp
  then obtain req where req: "fst (send env hop decision url m h b) = [Sent req]"
    "rq_url req = url" "rq_method req = m" "rq_headers req = h" "rq_body req = b"
    "case rq_wire req of Pinned d \<Rightarrow> dl_address d = pin | Injected \<Rightarrow> ev_injected env \<noteq> None"
    by (rule send_one)
  moreover obtain answer where "send env hop decision url m h b = ([Sent req], answer)"
    using req(1) by (metis prod.collapse)
  moreover have "vetted env hop req" using p req unfolding vetted_def by auto
  moreover have "\<forall>d. rq_wire req = Pinned d \<longrightarrow> ed_pin decision = Some (dl_address d)" using req(6) pin by auto
  ultimately show thesis using that by blast
qed

lemma fetch_loop_step:
  obtains
    (refused) "sent_requests (fst (fetch_loop env hop url m b h ds)) = []" "\<exists>e. snd (fetch_loop env hop url m b h ds) = Inl e"
  | (final) req decision where "sent_requests (fst (fetch_loop env hop url m b h ds)) = [req]"
      "vetted env hop req" "rq_url req = url" "rq_headers req = h" "rq_method req = m" "rq_body req = b"
      "\<And>r. snd (fetch_loop env hop url m b h ds) = Inr r \<Longrightarrow>
        fr_redirects r = hop \<and> fr_decisions r = ds @ [decision] \<and>
        (\<forall>d. rq_wire req = Pinned d \<longrightarrow> ed_pin decision = Some (dl_address d))"
      "\<exists>audits. authorizeEgress (ev_policy env) (ev_lookup env hop) url hop = (Inr decision, audits)"
  | (redirected) req decision nxt m' b' h' status where
      "sent_requests (fst (fetch_loop env hop url m b h ds)) =
         req # sent_requests (fst (fetch_loop env (Suc hop) nxt m' b' h' (ds @ [decision])))"
      "snd (fetch_loop env hop url m b h ds) = snd (fetch_loop env (Suc hop) nxt m' b' h' (ds @ [decision]))"
      "vetted env hop req" "rq_url req = url" "rq_headers req = h" "rq_method req = m" "rq_body req = b"
      "\<forall>d. rq_wire req = Pinned d \<longrightarrow> ed_pin decision = Some (dl_address d)"
      "hop < maxRedirects env" "status \<in> set REDIRECT_STATUSES" "h' = next_headers url nxt status m h"
      "(m', b') = (if downgrades status m then (''GET'', None) else (m, b))"
      "\<exists>audits. authorizeEgress (ev_policy env) (ev_lookup env hop) url hop = (Inr decision, audits)"
proof (cases "authorizeEgress (ev_policy env) (ev_lookup env hop) url hop")
  case (Pair r audits)
  show thesis
  proof (cases r)
    case (Inl e)
    then have "fetch_loop env hop url m b h ds = (map Audited audits, Inl e)"
      using Pair by (subst fetch_loop.simps) simp
    then show ?thesis using refused by simp
  next
    case (Inr decision)
    then have auth: "authorizeEgress (ev_policy env) (ev_lookup env hop) url hop = (Inr decision, audits)"
      using Pair by simp
    then obtain req answer where answer: "send env hop decision url m h b = ([Sent req], answer)" and vet: "vetted env hop req"
      and req: "rq_url req = url" "rq_method req = m" "rq_headers req = h" "rq_body req = b"
      and wire: "\<forall>d. rq_wire req = Pinned d \<longrightarrow> ed_pin decision = Some (dl_address d)"
      by (rule authorized_send)
    have stops: thesis if "fetch_loop env hop url m b h ds = (map Audited audits @ [Sent req], result)"
      "\<And>r. result = Inr r \<Longrightarrow> fr_redirects r = hop \<and> fr_decisions r = ds @ [decision]" for result
      using that(2) wire by (intro final [of req decision] vet req) (simp_all add: that(1) auth)
    show ?thesis
    proof (cases answer)
      case (Inl e)
      then have "fetch_loop env hop url m b h ds = (map Audited audits @ [Sent req], Inl e)"
        by (subst fetch_loop.simps) (simp add: auth answer)
      then show ?thesis by (rule stops) simp
    next
      case (Inr response)
      let ?stop = "(map Audited audits @ [Sent req], Inr (fetch_done response url hop (ds @ [decision])))"
      have stop: thesis if "fetch_loop env hop url m b h ds = ?stop"
        using that by (rule stops) (auto simp: fetch_done_def)
      show ?thesis
      proof (cases "\<exists>location nxt. map_of (rs_headers response) ''location'' = Some location \<and>
          \<not> maxRedirects env \<le> hop \<and> rs_status response \<in> set REDIRECT_STATUSES \<and>
          ev_resolve env location url = Some nxt")
        case True
        then obtain location nxt where l: "map_of (rs_headers response) ''location'' = Some location"
          "\<not> maxRedirects env \<le> hop" "rs_status response \<in> set REDIRECT_STATUSES" "ev_resolve env location url = Some nxt"
          by blast
        obtain m' b' where mb: "(m', b') = (if downgrades (rs_status response) m then (''GET'', None) else (m, b))"
          by (metis surj_pair)
        define h' where "h' = next_headers url nxt (rs_status response) m h"
        have "fetch_loop env hop url m b h ds =
            (let (rest, result) = fetch_loop env (Suc hop) nxt m' b' h' (ds @ [decision])
             in (map Audited audits @ [Sent req] @ Drained (drainBodyCapped (rs_body response) MAX_DRAIN_BYTES) # rest, result))"
          using l mb by (subst fetch_loop.simps) (simp add: auth answer Inr h'_def Let_def split: if_splits)
        then show ?thesis
          using l by (intro redirected [of req nxt m' b' h' decision "rs_status response"] vet req wire mb h'_def)
            (simp_all add: split_beta Let_def auth)
      next
        case False
        then have "fetch_loop env hop url m b h ds = ?stop"
          by (subst fetch_loop.simps) (auto simp: auth answer Inr Let_def split: option.splits)
        then show ?thesis by (rule stop)
      qed
    qed
  qed
qed

section \<open>Credentials\<close>

definition bound_header :: "string \<times> string \<Rightarrow> bool" where
  "bound_header h \<longleftrightarrow> map lower (fst h) \<in> set ORIGIN_BOUND_HEADERS"

definition carries_credentials :: "request \<Rightarrow> bool" where
  "carries_credentials req \<longleftrightarrow> list_ex bound_header (rq_headers req)"

lemma lower_lower [simp]: "lower (lower c) = lower c"
proof (cases "CHR ''A'' \<le> c \<and> c \<le> CHR ''Z''")
  case True
  then have l: "lower c = char_of (of_char c + 32 :: nat)" and r: "65 \<le> (of_char c :: nat)" "(of_char c :: nat) \<le> 90"
    by (simp_all add: lower_def less_eq_char_def)
  then have "(of_char (lower c) :: nat) = of_char c + 32" by simp
  then have "\<not> lower c \<le> CHR ''Z''" using r by (simp add: less_eq_char_def)
  then show ?thesis by (simp add: lower_def [of "lower c"])
next
  case False
  then have "lower c = c" by (auto simp: lower_def)
  then show ?thesis by simp
qed

lemma lower_comp [simp]: "lower \<circ> lower = lower"
  by (simp add: fun_eq_iff)

lemma header_append_names: "fst ` set (header_append n v hs) = insert (map lower n) (fst ` set hs)"
  by (induction n v hs rule: header_append.induct) auto

lemma new_headers_names: "fst ` set (new_headers hs) = (\<lambda>h. map lower (fst h)) ` set hs"
proof -
  have "fst ` set (fold (\<lambda>(n, v). header_append n v) hs acc) = (\<lambda>h. map lower (fst h)) ` set hs \<union> fst ` set acc" for acc
    by (induction hs arbitrary: acc) (simp_all add: case_prod_beta header_append_names)
  then show ?thesis by (simp add: new_headers_def)
qed

lemma new_headers_bound: "list_ex bound_header (new_headers hs) \<longleftrightarrow> list_ex bound_header hs"
proof -
  have "list_ex bound_header (new_headers hs) \<longleftrightarrow> (\<exists>n \<in> fst ` set (new_headers hs). map lower n \<in> set ORIGIN_BOUND_HEADERS)"
    by (auto simp: list_ex_iff bound_header_def)
  also have "\<dots> \<longleftrightarrow> list_ex bound_header hs"
    unfolding new_headers_names by (auto simp: list_ex_iff bound_header_def)
  finally show ?thesis .
qed

lemma header_delete_set: "set (header_delete n hs) = {h \<in> set hs. fst h \<noteq> n}"
  by (auto simp: header_delete_def)

lemma header_delete_bound: "list_ex bound_header (header_delete n hs) \<Longrightarrow> list_ex bound_header hs"
  by (auto simp: list_ex_iff header_delete_set)

lemma stripped_headers:
  assumes "\<forall>h \<in> set hs. map lower (fst h) = fst h"
  shows "\<not> list_ex bound_header (fold header_delete ORIGIN_BOUND_HEADERS hs)"
  using assms by (auto simp: list_ex_iff ORIGIN_BOUND_HEADERS_def header_delete_set bound_header_def)

lemma next_headers_bound:
  assumes "list_ex bound_header (next_headers url nxt status m h)"
  shows "list_ex bound_header h \<and> u_origin nxt = u_origin url"
proof -
  define mutable where "mutable =
    (if u_origin nxt \<noteq> u_origin url then fold header_delete ORIGIN_BOUND_HEADERS (new_headers h) else new_headers h)"
  have "list_ex bound_header mutable"
    using assms header_delete_bound unfolding next_headers_def Let_def mutable_def [symmetric]
    by (auto split: if_splits)
  moreover have "map lower (fst k) = fst k" if "k \<in> set (new_headers h)" for k
  proof -
    have "fst k \<in> fst ` set (new_headers h)" using that by (rule imageI)
    then show ?thesis unfolding new_headers_names by auto
  qed
  ultimately show ?thesis
    using stripped_headers [of "new_headers h"] new_headers_bound [of h]
    by (auto simp: mutable_def split: if_splits)
qed

lemma credentials_stay:
  assumes "i < length (sent_requests (fst (fetch_loop env hop url m b h ds)))"
    and "carries_credentials (sent_requests (fst (fetch_loop env hop url m b h ds)) ! i)"
  shows "list_ex bound_header h \<and>
    (\<forall>j \<le> i. u_origin (rq_url (sent_requests (fst (fetch_loop env hop url m b h ds)) ! j)) = u_origin url)"
  using assms
proof (induction "maxRedirects env - hop" arbitrary: hop url m b h ds i rule: less_induct)
  case less
  show ?case
  proof (rule fetch_loop_step [of env hop url m b h ds], goal_cases)
    case 1
    then show ?case using less.prems by simp
  next
    case (2 req decision)
    then show ?case using less.prems by (simp add: carries_credentials_def)
  next
    case (3 req decision nxt m' b' h' status)
    show ?case
    proof (cases i)
      case 0
      then show ?thesis using 3 less.prems by (simp add: carries_credentials_def)
    next
      case (Suc k)
      let ?rs = "sent_requests (fst (fetch_loop env (Suc hop) nxt m' b' h' (ds @ [decision])))"
      have "k < length ?rs" "carries_credentials (?rs ! k)" using less.prems 3(1) Suc by simp_all
      then have ih: "list_ex bound_header h'" "\<forall>j \<le> k. u_origin (rq_url (?rs ! j)) = u_origin nxt"
        using less.hyps [of "Suc hop" k nxt m' b' h' "ds @ [decision]"] 3(9) by simp_all
      then show ?thesis
        using next_headers_bound [of url nxt status m h] 3(1,4,11) Suc by (auto simp: nth_Cons split: nat.splits)
    qed
  qed
qed

lemma hops_vetted:
  assumes "hop \<le> maxRedirects env" and "rs = sent_requests (fst (fetch_loop env hop url m b h ds))"
  shows "length rs \<le> Suc (maxRedirects env - hop) \<and> (\<forall>i < length rs. vetted env (hop + i) (rs ! i)) \<and>
    (\<forall>r. snd (fetch_loop env hop url m b h ds) = Inr r \<longrightarrow>
       rs \<noteq> [] \<and> Suc (fr_redirects r) = hop + length rs \<and>
       (\<exists>more. fr_decisions r = ds @ more \<and> length more = length rs \<and>
         (\<forall>i < length rs. \<forall>d. rq_wire (rs ! i) = Pinned d \<longrightarrow> ed_pin (more ! i) = Some (dl_address d))))"
  using assms(1) unfolding assms(2)
proof (induction "maxRedirects env - hop" arbitrary: hop url m b h ds rule: less_induct)
  case less
  show ?case
  proof (rule fetch_loop_step [of env hop url m b h ds], goal_cases)
    case 1
    then show ?case by auto
  next
    case (2 req decision)
    then show ?case by (auto intro!: exI [of _ "[decision]"])
  next
    case (3 req decision nxt m' b' h' status)
    let ?rs = "sent_requests (fst (fetch_loop env (Suc hop) nxt m' b' h' (ds @ [decision])))"
    have ih: "length ?rs \<le> Suc (maxRedirects env - Suc hop)" "\<forall>i < length ?rs. vetted env (Suc hop + i) (?rs ! i)"
      "\<forall>r. snd (fetch_loop env (Suc hop) nxt m' b' h' (ds @ [decision])) = Inr r \<longrightarrow>
       ?rs \<noteq> [] \<and> Suc (fr_redirects r) = Suc hop + length ?rs \<and>
       (\<exists>more. fr_decisions r = (ds @ [decision]) @ more \<and> length more = length ?rs \<and>
         (\<forall>i < length ?rs. \<forall>d. rq_wire (?rs ! i) = Pinned d \<longrightarrow> ed_pin (more ! i) = Some (dl_address d)))"
      using less.hyps [of "Suc hop" nxt m' b' h' "ds @ [decision]"] 3(9) by simp_all
    have "vetted env (hop + i) ((req # ?rs) ! i)" if "i < length (req # ?rs)" for i
      using ih(2) 3(3) that by (cases i) auto
    moreover have "\<exists>more. fr_decisions r = ds @ more \<and> length more = length (req # ?rs) \<and>
         (\<forall>i < length (req # ?rs). \<forall>d. rq_wire ((req # ?rs) ! i) = Pinned d \<longrightarrow> ed_pin (more ! i) = Some (dl_address d))"
      if "snd (fetch_loop env hop url m b h ds) = Inr r" for r
    proof -
      from ih(3) that 3(2) obtain more where more: "fr_decisions r = (ds @ [decision]) @ more" "length more = length ?rs"
        "\<forall>i < length ?rs. \<forall>d. rq_wire (?rs ! i) = Pinned d \<longrightarrow> ed_pin (more ! i) = Some (dl_address d)" by auto
      then show ?thesis
        using 3(8) by (intro exI [of _ "decision # more"]) (auto simp: nth_Cons split: nat.splits)
    qed
    ultimately show ?case unfolding 3(1) using ih(1,3) 3(2,9) by auto
  qed
qed

lemma first_decision:
  assumes "hop \<le> maxRedirects env" "snd (fetch_loop env hop url m b h ds) = Inr r"
  shows "\<exists>decision audits more. authorizeEgress (ev_policy env) (ev_lookup env hop) url hop = (Inr decision, audits) \<and>
    fr_decisions r = ds @ decision # more"
proof (rule fetch_loop_step [of env hop url m b h ds], goal_cases)
  case 1
  then show ?case using assms by simp
next
  case (2 req decision)
  then show ?case using assms by auto
next
  case (3 req decision nxt m' b' h' status)
  from 3(2) assms(2) have "snd (fetch_loop env (Suc hop) nxt m' b' h' (ds @ [decision])) = Inr r" by simp
  then obtain more where "fr_decisions r = (ds @ [decision]) @ more"
    using hops_vetted [of "Suc hop" env _ nxt m' b' h' "ds @ [decision]", OF _ refl] 3(9) by auto
  then have "fr_decisions r = ds @ decision # more" by simp
  then show ?case using 3(13) by blast
qed

section \<open>What callers may rely on\<close>

lemma fetch_run:
  "\<exists>url m b h. egressFetch env target init = fetch_loop env 0 url m b h [] \<and> ev_parse env target = Some url \<and>
     h = ri_headers init \<or> egressFetch env target init = ([], Inl InvalidUrl)"
  by (auto simp: egressFetch_def split: option.splits)

text \<open>
  C11: Every request that leaves, the first and each redirect, was a decision of its own: its host was resolved at that
  hop, every address the resolver gave is one the policy may reach, and the pinned client connects to the
  first of them, whatever the resolver would answer next.
\<close>

theorem every_hop_is_a_decision:
  assumes "i < length (sent_requests (fst (egressFetch env target init)))"
  shows "i \<le> maxRedirects env \<and> vetted env i (sent_requests (fst (egressFetch env target init)) ! i)"
proof -
  obtain url m b h where "egressFetch env target init = fetch_loop env 0 url m b h []"
    using fetch_run [of env target init] assms by auto
  then show ?thesis using assms hops_vetted [of 0 env _ url m b h "[]", OF _ refl] by auto
qed

text \<open>
  C12: A chain of redirects ends: at most one request more than the limit is sent, the answer names the number
  of redirects, and there is one decision per request, with the address the request was pinned to.
\<close>

theorem redirect_chain_is_bounded:
  "let rs = sent_requests (fst (egressFetch env target init)) in
   length rs \<le> maxRedirects env + 1 \<and>
   (\<forall>r. snd (egressFetch env target init) = Inr r \<longrightarrow>
      length rs = fr_redirects r + 1 \<and> length (fr_decisions r) = length rs \<and>
      (\<forall>i < length rs. \<forall>d. rq_wire (rs ! i) = Pinned d \<longrightarrow> ed_pin (fr_decisions r ! i) = Some (dl_address d)))"
proof (cases "ev_parse env target")
  case None
  then show ?thesis by (simp add: egressFetch_def)
next
  case (Some url)
  then obtain m b h where e: "egressFetch env target init = fetch_loop env 0 url m b h []"
    using fetch_run [of env target init] by (auto simp: egressFetch_def)
  show ?thesis
    using hops_vetted [of 0 env _ url m b h "[]", OF _ refl] unfolding e Let_def by auto
qed

text \<open>
  C13: A request that carries an authorization, a cookie or a signature goes to the origin of the target, and so did
  every request before it: once a redirect leaves the origin the credentials are gone, even if it comes back.
\<close>

theorem credentials_stay_with_their_origin:
  assumes "ev_parse env target = Some url"
    and "i < length (sent_requests (fst (egressFetch env target init)))"
    and "carries_credentials (sent_requests (fst (egressFetch env target init)) ! i)"
  shows "list_ex bound_header (ri_headers init) \<and>
    (\<forall>j \<le> i. u_origin (rq_url (sent_requests (fst (egressFetch env target init)) ! j)) = u_origin url)"
proof -
  obtain m b where "egressFetch env target init = fetch_loop env 0 url m b (ri_headers init) []"
    using assms(1) by (simp add: egressFetch_def)
  then show ?thesis using assms(2,3) credentials_stay by metis
qed

section \<open>A redirect across origins\<close>

definition page_url :: "string \<Rightarrow> url" where
  "page_url host = \<lparr>u_protocol = ''https:'', u_hostname = host, u_host = host, u_port = [], u_pathname = ''/'',
     u_search = [], u_origin = ''https://'' @ host, u_href = ''https://'' @ host @ ''/''\<rparr>"

definition moved :: "nat \<Rightarrow> message" where
  "moved hop = (if hop = 0
     then \<lparr>ms_statusCode = Some 302, ms_headers = [(''location'', One ''b'')], ms_statusMessage = None, ms_body = []\<rparr>
     else \<lparr>ms_statusCode = Some 200, ms_headers = [], ms_statusMessage = None, ms_body = []\<rparr>)"

definition example_env :: egress_env where
  "example_env =
     \<lparr>ev_policy = \<lparr>ep_channel = MonitorChannel, ep_allowPrivate = False\<rparr>, ev_maxRedirects = None,
      ev_injected = None, ev_lookup = (\<lambda>hop host. Inr [\<lparr>ra_address = ''93.184.216.34'', ra_family = 4\<rparr>]),
      ev_parse = (\<lambda>s. Some (page_url s)), ev_resolve = (\<lambda>s u. Some (page_url s)),
      ev_socket = (\<lambda>hop d. Inr (moved hop)), ev_valid = (\<lambda>_ _. True), ev_decode = (\<lambda>_ cs. cs)\<rparr>"

definition example_init :: request_init where
  "example_init = \<lparr>ri_method = None, ri_headers = [(''Authorization'', ''secret'')], ri_body = None\<rparr>"

lemma example_class: "classifyAddress ''93.184.216.34'' = Some PublicAddr"
proof -
  have "''93.184.216.34'' = dotted [93, 184, 216, 34]" by (simp add: dotted_def show_nat.simps digit_char_def)
  then show ?thesis
    using classify_v4 [of 93 184 216 34] by (simp add: registry_match registry4_def in_block_def value4_def)
qed

lemma example_names: "normalizeHost ''a'' = ''a''" "normalizeHost ''b'' = ''b''"
    "parseAddress ''a'' = None" "parseAddress ''b'' = None"
  by (simp_all add: normalizeHost_def lower_def parseAddress_def parseIPv4_def parseIPv6_def expandGroups_def is_hex_def)

lemma example_decision:
  assumes "host = ''a'' \<or> host = ''b''"
  shows "authorizeEgress (ev_policy example_env) (ev_lookup example_env hop) (page_url host) hop =
    (Inr \<lparr>ed_pin = Some \<lparr>ra_address = ''93.184.216.34'', ra_family = 4\<rparr>, ed_classification = Some PublicAddr,
          ed_exception = False\<rparr>, [])"
  using assms
  by (auto simp: authorizeEgress_def example_env_def page_url_def example_names FORBIDDEN_HOSTNAMES_def
      target_addresses_def class_or_reserved_def example_class decision_for_def audit_entry_for_def)

lemma example_run: "length (sent_requests (fst (egressFetch example_env ''a'' example_init))) = 2"
proof -
  have e: "ev_parse example_env = (\<lambda>s. Some (page_url s))" "ev_resolve example_env = (\<lambda>s u. Some (page_url s))"
    "ev_injected example_env = None" "ev_socket example_env = (\<lambda>hop d. Inr (moved hop))" "maxRedirects example_env = 10"
    "ev_valid example_env = (\<lambda>_ _. True)"
    by (simp_all add: example_env_def maxRedirects_def MAX_REDIRECT_HOPS_def)
  have m: "moved 0 = \<lparr>ms_statusCode = Some 302, ms_headers = [(''location'', One ''b'')], ms_statusMessage = None, ms_body = []\<rparr>"
    "moved (Suc 0) = \<lparr>ms_statusCode = Some 200, ms_headers = [], ms_statusMessage = None, ms_body = []\<rparr>"
    by (simp_all add: moved_def)
  have l: "lower CHR ''l'' = CHR ''l''" "lower CHR ''o'' = CHR ''o''" "lower CHR ''c'' = CHR ''c''" "lower CHR ''a'' = CHR ''a''"
    "lower CHR ''t'' = CHR ''t''" "lower CHR ''i'' = CHR ''i''" "lower CHR ''n'' = CHR ''n''"
    by (simp_all add: lower_def)
  have u: "upper CHR ''G'' = CHR ''G''" "upper CHR ''E'' = CHR ''E''" "upper CHR ''T'' = CHR ''T''"
    by (simp_all add: upper_def)
  note s = example_decision send_def e Let_def webResponse_def m responseHeaders_def l u example_init_def
    bodyless_def decompressorFor_def REDIRECT_STATUSES_def downgrades_def
  show ?thesis
    unfolding egressFetch_def e(1) option.case
    by (subst fetch_loop.simps, simp add: s, subst fetch_loop.simps, simp add: s)
qed

theorem approval_is_sound_witness:
  "\<exists>pin rest. target_addresses (ev_lookup example_env 0) ''a'' = Inr (pin # rest) \<and> may_reach (ev_policy example_env) pin"
proof -
  have h: "normalizeHost (u_hostname (page_url ''a'')) = ''a''" by (simp add: page_url_def example_names)
  show ?thesis using approval_is_sound [OF example_decision [of "''a''" 0]] unfolding h by auto
qed

theorem every_hop_is_a_decision_witness:
  "vetted example_env 1 (sent_requests (fst (egressFetch example_env ''a'' example_init)) ! 1)"
  using every_hop_is_a_decision [of 1 example_env "''a''" example_init] example_run by simp

theorem redirect_chain_is_bounded_witness:
  "2 \<le> maxRedirects example_env + 1 \<and> length (sent_requests (fst (egressFetch example_env ''a'' example_init))) = 2"
  using redirect_chain_is_bounded [of example_env "''a''" example_init] example_run by (simp add: Let_def)

lemma example_first_request:
  "carries_credentials (sent_requests (fst (egressFetch example_env ''a'' example_init)) ! 0)"
proof -
  have "egressFetch example_env ''a'' example_init =
      fetch_loop example_env 0 (page_url ''a'') (map upper ''GET'') None [(''Authorization'', ''secret'')] []"
    by (simp add: egressFetch_def example_env_def example_init_def)
  moreover have "map lower ''Authorization'' = ''authorization''" by code_simp
  ultimately show ?thesis
    using example_run
    by (rule_tac fetch_loop_step [of example_env 0 "page_url ''a''" "map upper ''GET''" None "[(''Authorization'', ''secret'')]" "[]"])
      (simp_all add: carries_credentials_def bound_header_def ORIGIN_BOUND_HEADERS_def)
qed

theorem credentials_stay_with_their_origin_witness:
  "u_origin (rq_url (sent_requests (fst (egressFetch example_env ''a'' example_init)) ! 0)) = ''https://a''"
proof -
  have "ev_parse example_env ''a'' = Some (page_url ''a'')" "u_origin (page_url ''a'') = ''https://a''"
    by (simp_all add: example_env_def page_url_def)
  then show ?thesis
    using credentials_stay_with_their_origin [of example_env "''a''" "page_url ''a''" 0 example_init]
      example_run example_first_request by simp
qed

section \<open>Bodies\<close>

text \<open>Draining a body reads at most one chunk past the cap.\<close>

lemma drain_loop_bound:
  "bytes \<le> maxBytes + k \<Longrightarrow> (\<And>v. Bytes v \<in> set chunks \<Longrightarrow> length v \<le> k) \<Longrightarrow> drain_loop maxBytes bytes chunks \<le> maxBytes + k"
proof (induction maxBytes bytes chunks rule: drain_loop.induct)
  case (2 maxBytes bytes c rest)
  show ?case
  proof (cases c)
    case (Bytes v)
    then have "length v \<le> k" using "2.prems"(2) by simp
    then have "bytes < maxBytes \<longrightarrow> bytes + length v \<le> maxBytes + k" by simp
    then show ?thesis using 2 Bytes by auto
  qed (use 2 in auto)
qed auto

lemma drained_is_bounded:
  assumes "\<And>v chunks. body = Some chunks \<Longrightarrow> Bytes v \<in> set chunks \<Longrightarrow> length v \<le> k"
  shows "drainBodyCapped body maxBytes \<le> maxBytes + k"
  using assms by (auto simp: drainBodyCapped_def drain_loop_bound split: option.splits)

section \<open>The guard of the other probes\<close>

text \<open>
  Where private space is denied, the guard of the socket probes accepts a name exactly when the egress policy would
  authorize a request to it, given the same answers.
\<close>

theorem guards_agree:
  assumes "parseAddress (normalizeHost (u_hostname url)) = None" "normalizeHost (normalizeHost (u_hostname url)) = normalizeHost (u_hostname url)"
    and "lookup (normalizeHost (u_hostname url)) = Inr addresses" "addresses \<noteq> []"
    and "u_protocol url = ''https:''"
  shows "refusesPrivate (u_hostname url) (Some False) lookup = None \<longleftrightarrow>
    (\<exists>decision audits. authorizeEgress \<lparr>ep_channel = MonitorChannel, ep_allowPrivate = False\<rparr> lookup url hop = (Inr decision, audits))"
  using assms
  by (auto simp: refusesPrivate_def authorizeEgress_def Let_def isForbiddenEgressHost_def target_addresses_def
      classifyAddress_def split: option.splits)

theorem guards_agree_witness:
  "refusesPrivate (u_hostname (page_url ''a'')) (Some False) (ev_lookup example_env 0) = None"
  using guards_agree [of "page_url ''a''" "ev_lookup example_env 0" "[\<lparr>ra_address = ''93.184.216.34'', ra_family = 4\<rparr>]" 0]
    example_decision [of "''a''" 0] example_names
  by (simp add: page_url_def example_env_def)

text \<open>
  Where private space is allowed it does not look at all: a name that resolves to the metadata service passes the
  guard, while the egress policy refuses the same name under the same setting.
\<close>

lemma allowed_guard_lowers_the_floor:
  "refusesPrivate ''a'' (Some True) (\<lambda>_. Inr [\<lparr>ra_address = METADATA_IP, ra_family = 4\<rparr>]) = None \<and>
   authorizeEgress \<lparr>ep_channel = MonitorChannel, ep_allowPrivate = True\<rparr>
     (\<lambda>_. Inr [\<lparr>ra_address = METADATA_IP, ra_family = 4\<rparr>]) (page_url ''a'') 0 =
     (Inl (EgressBlocked ''Target resolves to a cloud metadata address''), [])"
proof -
  have "classifyAddress METADATA_IP = Some MetadataAddr"
    using classify_v4 [of 169 254 169 254]
    by (simp add: METADATA_IP_def dotted_def show_nat.simps digit_char_def registry_match registry4_def in_block_def value4_def)
  then show ?thesis
    by (simp add: refusesPrivate_def example_names isForbiddenEgressHost_def FORBIDDEN_HOSTNAMES_def classifyAddress_def [of "''a''"]
        authorizeEgress_def page_url_def target_addresses_def class_or_reserved_def isNeverReachable_def NEVER_REACHABLE_def)
qed

section \<open>Statuses outside the range of a response\<close>

text \<open>
  A server that answers with a status above 599 makes the response constructor throw inside the callback of the
  request, where nothing catches it.
\<close>

lemma odd_status_is_uncaught:
  assumes "ms_statusCode message = Some 999"
  shows "webResponse valid decode message url m = Inl (Uncaught ''RangeError'')"
  using assms by (simp add: webResponse_def Let_def)

end
