(* ===== verification/Http_Probes_Laws.thy ===== *)
theory Http_Probes_Laws
  imports Http_Probes Egress_Laws
begin

text \<open>
  The probes and the policy together: a refused target is reported as down and nothing is sent to it,
  the second socket of an HTTP check lands on an address that was vetted when it is pinned, and the verdict
  of a JSON query in terms of the document.
\<close>

section \<open>Refusals\<close>

lemma refused_fetch:
  assumes "ev_parse env target = Some url"
    and "authorizeEgress (ev_policy env) (ev_lookup env 0) url 0 = (Inl e, audits)"
  shows "egressFetch env target init = ([], Inl e)"
proof -
  have "audits = []"
    using assms(2) by (auto simp: authorizeEgress_def Let_def split: if_splits sum.splits option.splits)
  then show ?thesis
    using assms by (simp add: egressFetch_def fetch_loop.simps)
qed

lemma monitorEgress_simps [simp]:
  "ev_policy (monitorEgress s a env) = egressPolicyFor s MonitorChannel (Some a)"
  "ev_lookup (monitorEgress s a env) = ev_lookup env"
  "ev_parse (monitorEgress s a env) = ev_parse env"
  "ev_injected (monitorEgress s a env) = ev_injected env"
  "maxRedirects (monitorEgress s a env) = MAX_REDIRECT_HOPS"
  by (simp_all add: monitorEgress_def maxRedirects_def)

text \<open>
  C16: A target the policy refuses is never touched: an HTTP check and a JSON query send no request and open no
  second socket, and are judged down with the reason of the refusal, whatever their assertions.
\<close>

theorem refused_target_is_down_and_untouched:
  assumes "ev_parse env target = Some url" "reason \<noteq> []"
    and "authorizeEgress (egressPolicyFor settings MonitorChannel (Some allow)) (ev_lookup env 0) url 0 =
      (Inl (EgressBlocked reason), audits)"
    and "px_target http = target" "px_allowPrivateTargets http = allow"
    and "px_target query = target" "px_allowPrivateTargets query = allow"
  shows "\<exists>r. httpProbe settings env decoder certificateDays elapsed http = ([], Inr r) \<and>
    jsonQueryProbe settings env decoder parse elapsed query = ([], Inr r) \<and>
    j_verdict (judge http_assertions (px_config http) r) = VDown \<and>
    j_verdict (judge json_query_assertions (px_config query) r) = VDown \<and>
    j_error (judge http_assertions (px_config http) r) = Some reason"
proof -
  have f: "egressFetch (monitorEgress settings allow env) target init = ([], Inl (EgressBlocked reason))" for init
    using refused_fetch [of "monitorEgress settings allow env" target url] assms(1,3) by simp
  have r: "\<not> truthy (pr_unavailable (blank reason))" "truthy (pr_error (blank reason))" "pr_error (blank reason) = Some reason"
    using assms(2) by (simp_all add: blank_def)
  have "httpProbe settings env decoder certificateDays elapsed http = ([], Inr (blank reason))"
    using assms f by (simp add: httpProbe_def http_request_def Let_def)
  moreover have "jsonQueryProbe settings env decoder parse elapsed query = ([], Inr (blank reason))"
    using assms f by (simp add: jsonQueryProbe_def Let_def)
  ultimately show ?thesis by (simp add: judge_transport r assms(2))
qed

section \<open>The second socket\<close>

text \<open>
  When the certificate read is pinned, it is pinned to the address the first hop was vetted for: one lookup
  decides both sockets.
\<close>

theorem pinned_certificate_read_is_vetted:
  assumes "CertificateRead host port (Some pin) \<in> set (fst (httpProbe settings env decoder certificateDays elapsed ctx))"
  shows "\<exists>url rest. ev_parse env (px_target ctx) = Some url \<and> host = normalizeHost (u_hostname url) \<and>
    target_addresses (ev_lookup env 0) host = Inr (pin # rest) \<and>
    (\<forall>r \<in> set (pin # rest). may_reach (egressPolicyFor settings MonitorChannel (Some (px_allowPrivateTargets ctx))) r)"
proof -
  let ?env = "monitorEgress settings (px_allowPrivateTargets ctx) env"
  let ?init = "\<lparr>ri_method = Some (method_text (hc_method (px_config ctx))), ri_headers = [(''user-agent'', USER_AGENT)], ri_body = None\<rparr>"
  obtain url where url: "ev_parse env (px_target ctx) = Some url"
    using assms by (cases "ev_parse env (px_target ctx)") (simp_all add: httpProbe_def)
  obtain attempt where at: "snd (http_request settings env decoder elapsed ctx) = Inr attempt" "at_pin attempt = Some pin"
    and host: "host = normalizeHost (u_hostname url)"
    using assms url
    by (auto simp: httpProbe_def Let_def split: prod.splits sum.splits egress_error.splits if_splits)
  then obtain r d more where r: "snd (egressFetch ?env (px_target ctx) ?init) = Inr r" "fr_decisions r = d # more" "ed_pin d = Some pin"
    by (auto simp: http_request_def Let_def split: prod.splits sum.splits egress_error.splits list.splits)
  obtain m where "egressFetch ?env (px_target ctx) ?init = fetch_loop ?env 0 url m None [(''user-agent'', USER_AGENT)] []"
    using url by (simp add: egressFetch_def)
  with r first_decision [of 0 ?env url m None "[(''user-agent'', USER_AGENT)]" "[]" r]
  obtain audits where auth: "authorizeEgress (egressPolicyFor settings MonitorChannel (Some (px_allowPrivateTargets ctx))) (ev_lookup env 0) url 0 = (Inr d, audits)"
    by auto
  then obtain pin' rest where p: "target_addresses (ev_lookup env 0) (normalizeHost (u_hostname url)) = Inr (pin' # rest)"
    "\<forall>r \<in> set (pin' # rest). may_reach (egressPolicyFor settings MonitorChannel (Some (px_allowPrivateTargets ctx))) r"
    "d = decision_for (pin' # rest)"
    by (rule authorizeEgress_Inr)
  then have "pin' = pin" using r(3) decision_for_pin(1) [of _ pin' rest] by auto
  then show ?thesis using p url host by auto
qed

text \<open>
  When the request itself failed, the certificate read has no pin: a host whose lookup failed in the guard is
  resolved again by the socket and connected to wherever that lookup points.
\<close>

lemma certificate_read_is_unpinned_after_a_failure:
  fixes ctx :: "http_config probe_context"
  assumes "hc_tlsCheck (px_config ctx)" "ev_parse env (px_target ctx) = Some (page_url ''a'')"
    and "ev_lookup env 0 ''a'' = Inl ''queryA ETIMEOUT''"
  shows "fst (httpProbe settings env decoder certificateDays elapsed ctx) = [CertificateRead ''a'' 443 None]"
proof -
  have "authorizeEgress (egressPolicyFor settings MonitorChannel (Some (px_allowPrivateTargets ctx))) (ev_lookup env 0) (page_url ''a'') 0 =
      (Inl (LookupFailed ''queryA ETIMEOUT''), [])"
    using assms(3) by (simp add: authorizeEgress_def page_url_def example_names FORBIDDEN_HOSTNAMES_def target_addresses_def)
  then have "egressFetch (monitorEgress settings (px_allowPrivateTargets ctx) env) (px_target ctx) init =
      ([], Inl (LookupFailed ''queryA ETIMEOUT''))" for init
    using refused_fetch [of "monitorEgress settings (px_allowPrivateTargets ctx) env" "px_target ctx" "page_url ''a''"] assms(2) by simp
  then show ?thesis
    using assms by (simp add: httpProbe_def http_request_def Let_def page_url_def example_names certificate_port_def)
qed

section \<open>JSON queries\<close>

interpretation json_query: check_type json_query_assertions
  by unfold_locales (simp add: json_query_assertions_def validJson_def pathFound_def matchesExpected_def latencyAssertion_def)

lemma msg_json [messages]:
  "message_of c f validJson = None \<longleftrightarrow> f ''jsonValid'' \<noteq> Some (FOne (FBool False))"
  "message_of c f pathFound = None \<longleftrightarrow> f ''pathFound'' \<noteq> Some (FOne (FBool False))"
  "message_of c f matchesExpected = None \<longleftrightarrow>
     (\<forall>v. f ''actualValue'' = Some (FOne (FStr v)) \<longrightarrow> v = jq_expectedValue c)"
  "as_severity validJson = SevDown" "as_severity pathFound = SevDown" "as_severity matchesExpected = SevDown"
  by (auto simp: message_of_def validJson_def pathFound_def matchesExpected_def
      split: option.splits fact.splits fact_value.splits)

lemma truncated_match:
  assumes "length expected \<le> MAX_VALUE_CHARS"
  shows "truncate_value value = expected \<longleftrightarrow> value = expected"
proof (cases "length value \<le> MAX_VALUE_CHARS")
  case False
  then have "length (truncate_value value) = Suc MAX_VALUE_CHARS" by (simp add: truncate_value_def ELLIPSIS_def)
  then show ?thesis using assms False by auto
qed (simp add: truncate_value_def)

lemma json_fact_values:
  "json_facts parse c t status body ''responseTimeMs'' = Some (FOne (FNum t))"
  "json_facts parse c t status body ''jsonValid'' = Some (FOne (FBool (parse body \<noteq> None)))"
  "json_facts parse c t status body ''pathFound'' =
     map_option (\<lambda>document. FOne (FBool (resolvePath document (jq_jsonPath c) \<noteq> None))) (parse body)"
  "json_facts parse c t status body ''actualValue'' =
     map_option (\<lambda>document. case resolvePath document (jq_jsonPath c) of
       None \<Rightarrow> FOne FNull | Some v \<Rightarrow> FOne (FStr (truncate_value (stringifyValue v)))) (parse body)"
  by (simp_all add: json_facts_def Let_def split: option.splits)

lemma json_violated_down:
  "violated SevDown c (json_facts parse c t status body) json_query_assertions = [] \<longleftrightarrow>
     (\<exists>document v. parse body = Some document \<and> resolvePath document (jq_jsonPath c) = Some v \<and>
       truncate_value (stringifyValue v) = jq_expectedValue c)"
proof -
  have "violated SevDown c (json_facts parse c t status body) json_query_assertions = [] \<longleftrightarrow>
      (\<forall>a \<in> {validJson, pathFound, matchesExpected}. message_of c (json_facts parse c t status body) a = None)"
    by (simp add: violated_def json_query_assertions_def filter_nil_iff messages del: not_None_eq)
  then show ?thesis
    by (cases "parse body") (auto simp: messages json_fact_values split: option.splits)
qed

lemma json_violated_degraded:
  "violated SevDegraded c (json_facts parse c t status body) json_query_assertions = [] \<longleftrightarrow> t \<le> jq_degradedThresholdMs c"
  by (simp add: violated_def json_query_assertions_def filter_nil_iff messages json_fact_values over_num not_less
      del: not_None_eq)


text \<open>Reading a path: a dotted key and an index into an array, of a document that has them.\<close>

lemma query_path_example:
  "resolvePath (JObj [(''checks'', Some (JArr [JObj [(''name'', Some (JStr ''db''))]]))]) ''checks[0].name'' = Some (JStr ''db'')"
  by (simp add: resolvePath_def parsePath_def parse_segment_def parse_indices.simps is_digit_def numeral_value_def digit_value_def)


section \<open>Connection errors\<close>

text \<open>
  The message of a failed connection is empty only if the fallback is and nothing in the error has a message, at
  any depth of aggregation: a probe that passes a fallback never reports a failure the engine would not see.
\<close>

lemma connection_error_seen:
  "connectionErrorMessage e fallback = [] \<Longrightarrow> fallback = []"
  by (cases e) (auto simp: Let_def split: if_splits)

lemma failed_tcp_check_is_down:
  assumes "refusesPrivate (px_target ctx) (Some (px_allowPrivateTargets ctx)) lookup = None"
    and "connect (px_target ctx) (case px_port ctx of Some p \<Rightarrow> p | None \<Rightarrow> 0) = Inl e"
  shows "j_verdict (judge tcp_assertions (px_config ctx) (snd (tcpProbe lookup connect elapsed ctx))) = VDown"
proof -
  have "connectionErrorMessage e ''Connection failed'' \<noteq> []" using connection_error_seen by fastforce
  then show ?thesis using assms by (simp add: tcpProbe_def judge_verdict failed_after_def Let_def)
qed

section \<open>Concrete checks\<close>

definition example_settings :: egress_settings where
  "example_settings =
     \<lparr>es_ALLOW_PRIVATE_MONITOR_TARGETS = False, es_ALLOW_PRIVATE_WEBHOOK_TARGETS = True, es_ALLOW_PRIVATE_RECOVERY_TARGETS = True\<rparr>"

definition example_http :: "http_config probe_context" where
  "example_http =
     \<lparr>px_target = ''a'', px_port = None, px_timeoutMs = 1000,
      px_config = \<lparr>hc_method = GET, hc_expectedStatusCode = None, hc_degradedThresholdMs = 500, hc_bodyKeyword = None,
        hc_keywordAbsent = False, hc_tlsCheck = True, hc_tlsWarnDays = 14\<rparr>,
      px_allowPrivateTargets = False\<rparr>"

definition example_query :: "json_query_config probe_context" where
  "example_query =
     \<lparr>px_target = ''a'', px_port = None, px_timeoutMs = 1000,
      px_config = \<lparr>jq_jsonPath = ''status'', jq_expectedValue = ''ok'', jq_degradedThresholdMs = 500\<rparr>,
      px_allowPrivateTargets = False\<rparr>"

definition rebound_env :: egress_env where
  "rebound_env = example_env\<lparr>ev_lookup := (\<lambda>hop host. Inr [\<lparr>ra_address = METADATA_IP, ra_family = 4\<rparr>])\<rparr>"

definition plain_env :: egress_env where
  "plain_env = example_env\<lparr>ev_socket := (\<lambda>hop d. Inr (moved 1))\<rparr>"

lemma metadata_class: "classifyAddress METADATA_IP = Some MetadataAddr"
  using classify_v4 [of 169 254 169 254]
  by (simp add: METADATA_IP_def dotted_def show_nat.simps digit_char_def registry_match registry4_def in_block_def value4_def)

theorem refused_target_is_down_and_untouched_witness:
  "\<exists>r. httpProbe example_settings rebound_env id (\<lambda>_ _ _. None) 5 example_http = ([], Inr r) \<and>
     j_error (judge http_assertions (px_config example_http) r) = Some ''Target resolves to a cloud metadata address''"
proof -
  have "authorizeEgress (egressPolicyFor example_settings MonitorChannel (Some False)) (ev_lookup rebound_env 0) (page_url ''a'') 0 =
      (Inl (EgressBlocked ''Target resolves to a cloud metadata address''), [])"
    by (simp add: authorizeEgress_def page_url_def example_names FORBIDDEN_HOSTNAMES_def target_addresses_def rebound_env_def
        class_or_reserved_def metadata_class isNeverReachable_def NEVER_REACHABLE_def)
  moreover have "ev_parse rebound_env ''a'' = Some (page_url ''a'')" by (simp add: rebound_env_def example_env_def)
  ultimately show ?thesis
    using refused_target_is_down_and_untouched [of rebound_env "''a''" "page_url ''a''"
        "''Target resolves to a cloud metadata address''" example_settings False "[]" example_http example_query
        id "\<lambda>_ _ _. None" 5 "\<lambda>_. None"]
    by (auto simp: example_http_def example_query_def)
qed

lemma plain_fetch:
  "\<exists>r d. snd (egressFetch (monitorEgress example_settings False plain_env) ''a'' \<lparr>ri_method = Some ''GET'', ri_headers = h, ri_body = None\<rparr>) =
     Inr r \<and> fr_decisions r = [d] \<and> ed_pin d = Some \<lparr>ra_address = ''93.184.216.34'', ra_family = 4\<rparr>"
proof -
  let ?env = "monitorEgress example_settings False plain_env"
  have e: "ev_parse ?env = (\<lambda>s. Some (page_url s))" "ev_injected ?env = None" "ev_socket ?env = (\<lambda>hop d. Inr (moved 1))"
    "ev_policy ?env = ev_policy example_env" "ev_lookup ?env = ev_lookup example_env"
    by (simp_all add: monitorEgress_def plain_env_def example_env_def egressPolicyFor_def example_settings_def)
  show ?thesis
    unfolding egressFetch_def e(1) option.case
    by (subst fetch_loop.simps)
      (simp add: e example_decision send_def Let_def webResponse_def moved_def responseHeaders_def bodyless_def decompressorFor_def
        fetch_done_def upper_def del: monitorEgress_simps)
qed

theorem pinned_certificate_read_is_vetted_witness:
  "\<exists>rest. target_addresses (ev_lookup plain_env 0) ''a'' = Inr (\<lparr>ra_address = ''93.184.216.34'', ra_family = 4\<rparr> # rest)"
proof -
  obtain r d where r: "snd (egressFetch (monitorEgress example_settings False plain_env) ''a''
      \<lparr>ri_method = Some ''GET'', ri_headers = [(''user-agent'', USER_AGENT)], ri_body = None\<rparr>) = Inr r"
    "fr_decisions r = [d]" "ed_pin d = Some \<lparr>ra_address = ''93.184.216.34'', ra_family = 4\<rparr>"
    using plain_fetch by blast
  have "ev_parse plain_env ''a'' = Some (page_url ''a'')" by (simp add: plain_env_def example_env_def)
  then have "CertificateRead ''a'' 443 (Some \<lparr>ra_address = ''93.184.216.34'', ra_family = 4\<rparr>) \<in>
      set (fst (httpProbe example_settings plain_env id (\<lambda>_ _ _. None) 5 example_http))"
    using r by (auto simp: httpProbe_def http_request_def example_http_def Let_def page_url_def example_names certificate_port_def
        split: prod.splits)
  from pinned_certificate_read_is_vetted [OF this] show ?thesis by auto
qed

end
