(* ===== verification/Spec2Isabelle.thy ===== *)
theory Spec2Isabelle
  imports Outbox_Laws Outcome_Laws Http_Probes_Laws
begin

text \<open>
  A verification library for the monitoring core of Vigil, a self-hosted uptime monitor.

  \<^bold>\<open>The program.\<close> A worker ticks once a minute, selects the monitors that are due
  (\<open>src/worker/jobs/monitor-tick.ts\<close>, \<open>src/modules/monitors/service.ts\<close>), claims them and enqueues
  a check each. A check evaluates the monitor (\<open>monitors/evaluate.ts\<close>, \<open>monitors/check.ts\<close>): a probe (through the egress policy of \<open>monitors/egress.ts\<close>), a
  heartbeat, the members of a group or an operator's statement becomes a measurement, and the
  condition engine (\<open>monitors/types/conditions.ts\<close>) turns it into a verdict. Recording it
  (\<open>recordCheckOutcome\<close>) appends an observation to a hash-chained ledger (\<open>src/modules/ledger\<close>),
  advances the status controller (\<open>monitors/status-controller.ts\<close>) and schedules the next
  evaluation (\<open>monitors/scheduling.ts\<close>). Incidents (\<open>src/modules/incidents\<close>) open and close on the
  status, and what must be sent is written as an intent in the same transaction
  (\<open>src/modules/notifications/intents.ts\<close>); all that follows from an observation, up to the groups
  above the monitor, is \<open>monitors/outcome.ts\<close>. A second job expands intents into messages for channels,
  members and subscribers (\<open>intent-expansion.ts\<close>), and claims, sends and reports them under leases and
  fences (\<open>outbox.ts\<close>, \<open>src/worker/jobs/notification-delivery.ts\<close>). Uptime is computed from the observations
  (\<open>monitors/uptime.ts\<close>). Operators create, edit, clone, pause and delete monitors.

  \<^bold>\<open>Theories.\<close>
  \<^item> \<open>Vigil_Prelude\<close>: shared types (\<open>date\<close> is milliseconds as an unbounded integer, \<open>json\<close>, errors as a
    sum), list and string lemmas, the locale of a state machine with an invariant.
  \<^item> \<open>Conditions\<close>, \<open>Docker_Restart\<close>, \<open>Check_Types\<close>, \<open>Check\<close>: the condition engine, the memory of a
    container check, the assertions of the check types, and \<open>performCheck\<close>. The lemmas give the
    verdict of each type in terms of the measurement and show that a result is well-formed whatever
    the probe answers.
  \<^item> \<open>Status_Controller\<close>: the level-triggered controller and the adaptive cadence, with the meaning of
    ``down'' over a whole history of observations and the bounds of the cadence.
  \<^item> \<open>Canonical_Json\<close>, \<open>Ledger\<close>: canonical JSON, hybrid logical clocks, actors, stamps and the
    verifier. Chains the writer produces verify, and a verified chain cannot be changed without a
    hash collision. SHA-256 is an argument.
  \<^item> \<open>Uptime\<close>: the duration-weighted methodology, its SQL and the daily strip, shown to compute the same
    thing.
  \<^item> \<open>Secrets\<close>: masking and restoring credentials in targets and in the configuration of a type.
  \<^item> \<open>Store\<close>, \<open>Intents\<close>, \<open>Incidents\<close>: the rows of the database, the payloads of notifications, and every
    transaction of the incident service. Reads and conditional writes are separate steps, so the
    invariants hold under every interleaving of operators and workers.
  \<^item> \<open>Catalog\<close>, \<open>Scheduler\<close>: the kinds of the check types, due selection, leases, the tick.
  \<^item> \<open>Monitors\<close>, \<open>Membership\<close>, \<open>Monitor_Edits\<close>: the transactions on monitors and heartbeats, the
    membership invariant of groups, and what an edit, a clone, a deletion may touch.
  \<^item> \<open>Observations\<close>: evaluating and recording, as a refinement of the status controller, and verifying
    the ledger from the stored columns.
  \<^item> \<open>Fair_Ranking\<close>: the per-organization ranking that the tick, the drain and the expansion share, as a
    locale with its fairness laws, interpreted in \<open>Scheduler\<close> and \<open>Outbox_Laws\<close>.
  \<^item> \<open>Outbox\<close>, \<open>Outbox_Machine\<close>, \<open>Outbox_Laws\<close>: the delivery queue, any number of workers on it as a step
    relation over the table and the claims they hold, and what follows from its invariant: one current
    claim per message, final states stay, evidence before the send, no message is stuck, a fair drain.
  \<^item> \<open>Expansion\<close>, \<open>Expansion_Laws\<close>: from an intent to its messages. Exactly what is owed is queued, once, inside
    the organization; a policy that throws has no say.
  \<^item> \<open>Delivery\<close>, \<open>Delivery_Laws\<close>: a delivery tick as a run of the machine of \<open>Outbox_Machine\<close>, its bounds and
    accounts, to whom it writes, and replays.
  \<^item> \<open>Outcome\<close>, \<open>Outcome_Laws\<close>: applying an outcome and the check job, as a run of the machine of \<open>Incidents\<close>.
    An outage is announced, a recovery closes, a shadow monitor is silent, and the walk up the groups
    (locale \<open>propagation\<close>) is bounded.
  \<^item> \<open>Net_Address\<close>, \<open>Net_Address_Laws\<close>: what an address is (\<open>monitors/net.ts\<close>). The parsers are exact, the classes are
    the registry of special-purpose blocks, and every spelling of an IPv4 address has its class.
  \<^item> \<open>Egress\<close>, \<open>Egress_Laws\<close>: the outbound policy (\<open>monitors/egress.ts\<close>, \<open>types/probes/guard.ts\<close>). Every hop of a request is
    authorized and pinned, a chain of redirects is bounded, credentials stay with their origin.
  \<^item> \<open>Http_Probes\<close>, \<open>Http_Probes_Laws\<close>: the HTTP, JSON query and TCP probes as clients of the policy, and their verdicts.

  \<^bold>\<open>Conventions.\<close> A table is a list of rows in insertion order; a generated key is the next value of
  a counter or an argument. An operation that throws returns \<open>Inl\<close> of a \<open>service_error\<close>. The clock, row
  locks skipped by a claim, the registry of check types, the probes, the URL parser, the resolver, the
  sockets and the hash are arguments.
  Recursions are structural or have a termination proof; the walk over the groups above a
  monitor is bounded by \<open>MAX_GROUP_NESTING\<close> as in the code, the walk that derives groups again by
  \<open>MAX_GROUP_DEPTH\<close>, a chain of redirects by its limit. Where a request leaves the process, what other transactions commit meanwhile is
  an argument.

  \<^bold>\<open>What modelling showed.\<close> \<open>masked_save_bumps_version\<close>: saving an untouched form of a monitor with a
  password in its target bumps the version of its rule. \<open>deep_cycle_accepted\<close>: a cycle of more groups
  than the walk covers is accepted. \<open>backlog_misses_never_evaluated\<close>: a monitor that was never
  evaluated is not counted in the backlog. \<open>resumed_monitor_waits_out_the_lease\<close>: a failing monitor
  paused and resumed under a probe is not due before the lease of that probe ends.
  \<open>crashing_workers_exceed_the_budget\<close>: a message whose workers all die is claimed beyond its budget of
  attempts, until its horizon. \<open>failedFor_misses_dead_letters\<close>: the list of messages that will never be
  delivered leaves out the expired and the given up. \<open>stale_failure_retires_an_expanded_intent\<close>: a failed
  expansion is recorded without looking at the state. \<open>docker_lines_hide_the_incident\<close>: a crash after
  the lines of a container check hides its incident from the repair. \<open>allowed_guard_lowers_the_floor\<close>: where private
  targets are allowed the guard of the socket probes does not resolve, so a name of the metadata service
  passes. \<open>certificate_read_is_unpinned_after_a_failure\<close>: after a failed request the certificate is read from an address
  nobody checked. \<open>odd_status_is_uncaught\<close>: a status above 599 throws where nothing catches. \<open>bracketed_zone_is_not_read\<close>:
  a zone inside brackets hides a link-local address from the classifier.

  \<^bold>\<open>Not modelled.\<close> The probes of other protocols and the transports (arguments), the importers, the in-memory sampling of the
  high-frequency plane, channel and status-page administration, the evidence snapshot of an incident,
  the HTML of e-mails, the user interface and scripts.
\<close>

end
